(* ===== verification/Prelude.thy ===== *)
theory Prelude
  imports Main "HOL-Library.AList" "HOL-Library.List_Lexorder" "HOL-Library.Char_ord"
begin

text \<open>
  Shared vocabulary of the development: the fact collections, the helper functions of Go's
  \<open>strings\<close> and \<open>strconv\<close> packages that the program calls, and generic lemmas on association
  lists. A Go string is a sequence of bytes, which is what \<^typ>\<open>string\<close> (a list of 8-bit
  characters) is; \<open>len\<close> is \<open>length\<close>. A Go \<open>error\<close> result is \<open>'e option\<close> (\<open>None\<close> is
  \<open>nil\<close>); a pair of a value and an error is \<open>'e + 'a\<close>.
\<close>

named_theorems go_strings \<open>defining equations of the string helpers, for evaluation\<close>
named_theorems verdicts \<open>when a matcher passes\<close>
named_theorems state_defs \<open>definitions of the state-changing operations\<close>

subsection \<open>Package strings\<close>

definition hasPrefix :: "string \<Rightarrow> string \<Rightarrow> bool" where
  "hasPrefix s p \<longleftrightarrow> take (length p) s = p"

definition hasSuffix :: "string \<Rightarrow> string \<Rightarrow> bool" where
  "hasSuffix s p \<longleftrightarrow> length p \<le> length s \<and> drop (length s - length p) s = p"

definition trimPrefix :: "string \<Rightarrow> string \<Rightarrow> string" where
  "trimPrefix s p = (if hasPrefix s p then drop (length p) s else s)"

definition trimSuffix :: "string \<Rightarrow> string \<Rightarrow> string" where
  "trimSuffix s p = (if hasSuffix s p then take (length s - length p) s else s)"

definition cutPrefix :: "string \<Rightarrow> string \<Rightarrow> string option" where
  "cutPrefix s p = (if hasPrefix s p then Some (drop (length p) s) else None)"

declare hasPrefix_def [go_strings] hasSuffix_def [go_strings] trimPrefix_def [go_strings]
  trimSuffix_def [go_strings] cutPrefix_def [go_strings]

text \<open>\<open>strings.Index\<close>, with \<open>None\<close> for Go's \<open>-1\<close>.\<close>

fun strIndex :: "string \<Rightarrow> string \<Rightarrow> nat option" where
  "strIndex [] sub = (if sub = [] then Some 0 else None)"
| "strIndex (c # s) sub =
     (if hasPrefix (c # s) sub then Some 0 else map_option Suc (strIndex s sub))"

definition strContains :: "string \<Rightarrow> string \<Rightarrow> bool" where
  "strContains s sub \<longleftrightarrow> strIndex s sub \<noteq> None"

text \<open>\<open>strings.Split\<close> by a one-byte separator, and \<open>strings.Join\<close>.\<close>

fun strSplit :: "char \<Rightarrow> string \<Rightarrow> string list" where
  "strSplit sep [] = [[]]"
| "strSplit sep (c # s) =
     (if c = sep then [] # strSplit sep s
      else case strSplit sep s of [] \<Rightarrow> [[c]] | w # ws \<Rightarrow> (c # w) # ws)"

fun strJoin :: "string \<Rightarrow> string list \<Rightarrow> string" where
  "strJoin sep [] = []"
| "strJoin sep [w] = w"
| "strJoin sep (w # ws) = w @ sep @ strJoin sep ws"

text \<open>\<open>strings.Trim\<close>, \<open>strings.TrimRight\<close>: the cutset is a set of bytes.\<close>

definition trimLeftSet :: "string \<Rightarrow> string \<Rightarrow> string" where
  "trimLeftSet s cutset = dropWhile (\<lambda>c. c \<in> set cutset) s"

definition trimRightSet :: "string \<Rightarrow> string \<Rightarrow> string" where
  "trimRightSet s cutset = rev (dropWhile (\<lambda>c. c \<in> set cutset) (rev s))"

definition trimSet :: "string \<Rightarrow> string \<Rightarrow> string" where
  "trimSet s cutset = trimRightSet (trimLeftSet s cutset) cutset"

declare trimLeftSet_def [go_strings] trimRightSet_def [go_strings] trimSet_def [go_strings]

text \<open>
  \<open>strings.TrimSpace\<close> removes Unicode white space; these are the UTF-8 encodings of the
  white-space code points.
\<close>

definition ch :: "nat \<Rightarrow> char" where
  "ch n = char_of n"

definition unicode_spaces :: "string list" where
  "unicode_spaces =
     [[ch 9], [ch 10], [ch 11], [ch 12], [ch 13], [ch 32],
      [ch 0xC2, ch 0x85], [ch 0xC2, ch 0xA0], [ch 0xE1, ch 0x9A, ch 0x80]]
     @ map (\<lambda>b. [ch 0xE2, ch 0x80, ch b])
         [0x80, 0x81, 0x82, 0x83, 0x84, 0x85, 0x86, 0x87, 0x88, 0x89, 0x8A, 0xA8, 0xA9, 0xAF]
     @ [[ch 0xE2, ch 0x81, ch 0x9F], [ch 0xE3, ch 0x80, ch 0x80]]"

fun trimSpacesLeft :: "nat \<Rightarrow> string list \<Rightarrow> string \<Rightarrow> string" where
  "trimSpacesLeft 0 ws s = s"
| "trimSpacesLeft (Suc n) ws s =
     (case find (\<lambda>w. hasPrefix s w) ws of
        None \<Rightarrow> s
      | Some w \<Rightarrow> trimSpacesLeft n ws (drop (length w) s))"

text \<open>The counter is the length of the string: every round removes at least one byte.\<close>

definition trimSpace :: "string \<Rightarrow> string" where
  "trimSpace s =
     (let l = trimSpacesLeft (length s) unicode_spaces s
      in rev (trimSpacesLeft (length l) (map rev unicode_spaces) (rev l)))"

text \<open>ASCII letter case, as \<open>strings.ToLower\<close> and \<open>strings.EqualFold\<close> treat ASCII bytes.\<close>

definition lower_char :: "char \<Rightarrow> char" where
  "lower_char c =
     (let n = of_char c :: nat in if 65 \<le> n \<and> n \<le> 90 then char_of (n + 32) else c)"

definition upper_char :: "char \<Rightarrow> char" where
  "upper_char c =
     (let n = of_char c :: nat in if 97 \<le> n \<and> n \<le> 122 then char_of (n - 32) else c)"

definition toLowerASCII :: "string \<Rightarrow> string" where
  "toLowerASCII s = map lower_char s"

definition equalFoldASCII :: "string \<Rightarrow> string \<Rightarrow> bool" where
  "equalFoldASCII s t \<longleftrightarrow> map lower_char s = map lower_char t"

declare toLowerASCII_def [go_strings] equalFoldASCII_def [go_strings]

subsection \<open>Package strconv: decimal integers\<close>

definition is_digit :: "char \<Rightarrow> bool" where
  "is_digit c \<longleftrightarrow> 48 \<le> (of_char c :: nat) \<and> (of_char c :: nat) \<le> 57"

definition digit_val :: "char \<Rightarrow> nat" where
  "digit_val c = of_char c - 48"

definition digits_val :: "string \<Rightarrow> nat" where
  "digits_val s = foldl (\<lambda>n c. 10 * n + digit_val c) 0 s"

definition int64_min :: int where "int64_min = - (2 ^ 63)"
definition int64_max :: int where "int64_max = 2 ^ 63 - 1"

definition in_int64 :: "int \<Rightarrow> bool" where
  "in_int64 n \<longleftrightarrow> int64_min \<le> n \<and> n \<le> int64_max"

text \<open>
  \<open>strconv.Atoi\<close> and \<open>strconv.ParseInt(s, 10, 64)\<close>: an optional sign, at least one
  digit, nothing else, and a value that fits 64 bits.
\<close>

definition atoi :: "string \<Rightarrow> int option" where
  "atoi s =
     (let (neg, ds) = (case s of
            [] \<Rightarrow> (False, [])
          | c # cs \<Rightarrow> if c = CHR ''-'' then (True, cs)
                     else if c = CHR ''+'' then (False, cs) else (False, s));
          n = (if neg then - int (digits_val ds) else int (digits_val ds))
      in if ds = [] \<or> \<not> list_all is_digit ds \<or> \<not> in_int64 n then None else Some n)"

text \<open>Decimal printing, \<open>fmt.Sprintf("%d", n)\<close>.\<close>

fun show_nat :: "nat \<Rightarrow> string" where
  "show_nat n = (if n < 10 then [char_of (48 + n)] else show_nat (n div 10) @ [char_of (48 + n mod 10)])"

declare show_nat.simps [simp del]

definition show_int :: "int \<Rightarrow> string" where
  "show_int n = (if n < 0 then CHR ''-'' # show_nat (nat (- n)) else show_nat (nat n))"

subsection \<open>Generic lemmas\<close>

lemma digit_chars [go_strings]:
  "char_of (48 :: nat) = CHR ''0''" "char_of (49 :: nat) = CHR ''1''" "char_of (50 :: nat) = CHR ''2''"
  "char_of (51 :: nat) = CHR ''3''" "char_of (52 :: nat) = CHR ''4''" "char_of (53 :: nat) = CHR ''5''"
  "char_of (54 :: nat) = CHR ''6''" "char_of (55 :: nat) = CHR ''7''" "char_of (56 :: nat) = CHR ''8''"
  "char_of (57 :: nat) = CHR ''9''"
  by (simp_all add: char_of_def bit_Suc_0_iff)

lemma replicate_num [go_strings]: "replicate (numeral v) x = x # replicate (pred_numeral v) x"
  by (simp add: numeral_eq_Suc)

declare show_nat.simps [go_strings] show_int_def [go_strings] digits_val_def [go_strings]
  digit_val_def [go_strings] is_digit_def [go_strings] atoi_def [go_strings]

lemma hasPrefix_refl [simp]: "hasPrefix s s"
  by (simp add: hasPrefix_def)

lemma hasPrefix_append [simp]: "hasPrefix (p @ s) p"
  by (simp add: hasPrefix_def)

lemma hasPrefix_Nil [simp]: "hasPrefix s []"
  by (simp add: hasPrefix_def)

lemma hasPrefix_iff: "hasPrefix s p \<longleftrightarrow> (\<exists>r. s = p @ r)"
proof
  assume "hasPrefix s p"
  then have "s = p @ drop (length p) s"
    by (metis append_take_drop_id hasPrefix_def)
  then show "\<exists>r. s = p @ r" ..
qed auto

lemma strIndex_Some:
  assumes "strIndex s sub = Some i"
  shows "i \<le> length s \<and> hasPrefix (drop i s) sub"
  using assms
  by (induction s sub arbitrary: i rule: strIndex.induct) (auto split: if_splits)

lemma strIndex_nonempty_less:
  assumes "strIndex s sub = Some i" "sub \<noteq> []"
  shows "i + length sub \<le> length s"
proof -
  from strIndex_Some [OF assms(1)] have le: "i \<le> length s" and p: "hasPrefix (drop i s) sub"
    by auto
  from p obtain r where "drop i s = sub @ r" by (auto simp: hasPrefix_iff)
  then have "length s - i = length sub + length r" by (metis length_append length_drop)
  with le show ?thesis by linarith
qed

lemma strIndex_None_notin: "strIndex s [c] = None \<longleftrightarrow> c \<notin> set s"
  by (induction s) (auto simp: hasPrefix_def)

lemma strIndex_append_char: "c \<notin> set s \<Longrightarrow> strIndex (s @ c # t) [c] = Some (length s)"
  by (induction s) (auto simp: hasPrefix_def)

lemma strSplit_nonempty [simp]: "strSplit sep s \<noteq> []"
  by (induction s) (auto split: list.splits)

lemma strJoin_strSplit: "strJoin [sep] (strSplit sep s) = s"
proof (induction s)
  case (Cons c s)
  obtain w ws where w: "strSplit sep s = w # ws"
    by (cases "strSplit sep s") auto
  with Cons.IH show ?case by (cases ws) auto
qed simp

lemma digits_val_Nil [simp]: "digits_val [] = 0"
  by (simp add: digits_val_def)

lemma digits_val_snoc [simp]: "digits_val (s @ [c]) = 10 * digits_val s + digit_val c"
  by (simp add: digits_val_def)

lemma is_digit_char: "d < 10 \<Longrightarrow> is_digit (char_of (48 + d :: nat))"
  by (simp add: is_digit_def)

lemma digit_val_char [simp]: "d < 10 \<Longrightarrow> digit_val (char_of (48 + d)) = d"
  by (simp add: digit_val_def)

lemma show_nat_nonempty [simp]: "show_nat n \<noteq> []"
  by (subst show_nat.simps) simp

lemma show_nat_digits: "list_all is_digit (show_nat n)"
proof (induction n rule: show_nat.induct)
  case (1 n)
  then show ?case by (subst show_nat.simps) (simp add: is_digit_char)
qed

lemma show_nat_chars: "c \<in> set (show_nat n) \<Longrightarrow> is_digit c"
  using show_nat_digits [of n] by (auto simp: list_all_iff)

lemma digits_val_show_nat [simp]: "digits_val (show_nat n) = n"
proof (induction n rule: show_nat.induct)
  case (1 n)
  show ?case
  proof (cases "n < 10")
    case True
    then show ?thesis
      by (subst show_nat.simps) (simp add: digits_val_def)
  next
    case False
    with 1 show ?thesis by (subst show_nat.simps) simp
  qed
qed

lemma is_digit_not_sign: "is_digit c \<Longrightarrow> c \<noteq> CHR ''-'' \<and> c \<noteq> CHR ''+''"
  by (auto simp: is_digit_def)

lemma atoi_digits:
  assumes "list_all is_digit ds" "ds \<noteq> []" "in_int64 (int (digits_val ds))"
  shows "atoi ds = Some (int (digits_val ds))"
proof -
  from assms(1,2) obtain c cs where ds: "ds = c # cs" and "is_digit c"
    by (cases ds) auto
  then have "c \<noteq> CHR ''-''" "c \<noteq> CHR ''+''" by (auto dest: is_digit_not_sign)
  with assms show ?thesis by (simp add: atoi_def ds Let_def)
qed

lemma atoi_neg_digits:
  assumes "list_all is_digit ds" "ds \<noteq> []" "in_int64 (- int (digits_val ds))"
  shows "atoi (CHR ''-'' # ds) = Some (- int (digits_val ds))"
  using assms by (simp add: atoi_def Let_def)

lemma atoi_show_int:
  assumes "in_int64 n"
  shows "atoi (show_int n) = Some n"
proof (cases "n < 0")
  case True
  with assms show ?thesis
    by (simp add: show_int_def atoi_neg_digits show_nat_digits)
next
  case False
  with assms show ?thesis
    by (simp add: show_int_def atoi_digits show_nat_digits)
qed

lemma map_of_filter_key: "map_of (filter (\<lambda>(k, v). k \<noteq> x) kvs) y = (if y = x then None else map_of kvs y)"
  by (induction kvs) auto

lemma map_of_rev_distinct: "distinct (map fst kvs) \<Longrightarrow> map_of (rev kvs) = map_of kvs"
  by (metis distinct_map map_of_inject_set rev_map set_rev distinct_rev)

end
