(* ===== verification/Go_Float.thy ===== *)
theory Go_Float
  imports Complex_Main Prelude
begin

text \<open>
  Go's \<open>float64\<close> (IEEE 754 binary64) with rounding to nearest, ties to even. A value is a
  finite rational, a negative zero, an infinity or NaN; the arithmetic the program uses is the
  exact rational operation followed by \<open>f64_round\<close>, which finds the binade of its argument
  and rounds the quotient by one unit of the last place to an integer. Everything is executable.
  The lemmas show that rounding is monotone, that it is exact on small integers and on dyadic
  fractions with a 53-bit numerator, and how the comparisons behave on finite values.
\<close>

subsection \<open>Values and comparisons\<close>

datatype f64 = Fin rat | NegZero | PInf | NInf | NaN

fun f64_finite :: "f64 \<Rightarrow> bool" where
  "f64_finite (Fin r) = True"
| "f64_finite NegZero = True"
| "f64_finite _ = False"

text \<open>The rational a finite value denotes.\<close>

fun f64_val :: "f64 \<Rightarrow> rat" where
  "f64_val (Fin r) = r"
| "f64_val _ = 0"

fun f64_lt :: "f64 \<Rightarrow> f64 \<Rightarrow> bool" where
  "f64_lt NaN b = False"
| "f64_lt a NaN = False"
| "f64_lt PInf b = False"
| "f64_lt a NInf = False"
| "f64_lt NInf b = True"
| "f64_lt a PInf = True"
| "f64_lt a b = (f64_val a < f64_val b)"

definition f64_gt :: "f64 \<Rightarrow> f64 \<Rightarrow> bool" where
  "f64_gt a b = f64_lt b a"

definition f64_le :: "f64 \<Rightarrow> f64 \<Rightarrow> bool" where
  "f64_le a b \<longleftrightarrow> a \<noteq> NaN \<and> b \<noteq> NaN \<and> \<not> f64_lt b a"

definition f64_ge :: "f64 \<Rightarrow> f64 \<Rightarrow> bool" where
  "f64_ge a b = f64_le b a"

definition f64_eq :: "f64 \<Rightarrow> f64 \<Rightarrow> bool" where
  "f64_eq a b \<longleftrightarrow> f64_le a b \<and> f64_le b a"

subsection \<open>Rounding\<close>

text \<open>The binary exponent of a positive rational: \<open>2 ^ ilog2 r \<le> r < 2 ^ (ilog2 r + 1)\<close>.\<close>

function ilog2 :: "rat \<Rightarrow> int" where
  "ilog2 r =
     (if r \<le> 0 then 0
      else if 2 \<le> r then ilog2 (r / 2) + 1
      else if r < 1 then ilog2 (2 * r) - 1
      else 0)"
  by pat_completeness auto
termination
proof (relation "measure (\<lambda>r. if 1 \<le> r then nat \<lfloor>r\<rfloor> else nat \<lfloor>1 / r\<rfloor> + 1)", goal_cases)
  case 1
  show ?case by simp
next
  case (2 r)
  then have "\<lfloor>r / 2\<rfloor> < \<lfloor>r\<rfloor>" by linarith
  with 2 show ?case by (auto simp: nat_less_eq_zless)
next
  case (3 r)
  then have r: "0 < r" "r < 1" by auto
  show ?case
  proof (cases "1 \<le> 2 * r")
    case True
    have "\<lfloor>2 * r\<rfloor> = 1" using True r by linarith
    moreover have "1 \<le> \<lfloor>1 / r\<rfloor>" using r by (simp add: field_simps)
    ultimately show ?thesis using True r by auto
  next
    case False
    have "2 \<le> 1 / r" using False r by (simp add: field_simps)
    moreover have "1 / (2 * r) = (1 / r) / 2" by simp
    ultimately have "\<lfloor>1 / (2 * r)\<rfloor> < \<lfloor>1 / r\<rfloor>" "1 \<le> \<lfloor>1 / r\<rfloor>" by linarith+
    then show ?thesis using False r by auto
  qed
qed

declare ilog2.simps [simp del]

text \<open>Round half to even.\<close>

definition rhe :: "rat \<Rightarrow> int" where
  "rhe x =
     (let f = \<lfloor>x\<rfloor>; d = x - of_int f
      in if d < 1 / 2 then f else if 1 / 2 < d then f + 1 else if even f then f else f + 1)"

text \<open>The unit in the last place for a positive magnitude; subnormals share \<open>2 ^ -1074\<close>.\<close>

definition ulp :: "rat \<Rightarrow> rat" where
  "ulp a = 2 powi (max (ilog2 a - 52) (- 1074))"

definition round_mag :: "rat \<Rightarrow> rat" where
  "round_mag a = of_int (rhe (a / ulp a)) * ulp a"

definition f64_round :: "rat \<Rightarrow> f64" where
  "f64_round x =
     (if x = 0 then Fin 0
      else let y = round_mag \<bar>x\<bar>
           in if y = 0 then (if x < 0 then NegZero else Fin 0)
              else if 2 ^ 1024 \<le> y then (if x < 0 then NInf else PInf)
              else Fin (if x < 0 then - y else y))"

subsection \<open>Arithmetic\<close>

definition f64_neg_sign :: "f64 \<Rightarrow> bool" where
  "f64_neg_sign a = (case a of Fin r \<Rightarrow> r < 0 | NegZero \<Rightarrow> True | PInf \<Rightarrow> False | NInf \<Rightarrow> True | NaN \<Rightarrow> False)"

definition f64_signed :: "bool \<Rightarrow> rat \<Rightarrow> f64" where
  "f64_signed neg x = (if x = 0 \<and> neg then NegZero else f64_round x)"

definition f64_mult :: "f64 \<Rightarrow> f64 \<Rightarrow> f64" where
  "f64_mult a b =
     (if a = NaN \<or> b = NaN then NaN
      else let neg = (f64_neg_sign a \<noteq> f64_neg_sign b)
      in if f64_finite a \<and> f64_finite b then f64_signed neg (f64_val a * f64_val b)
         else if (f64_finite a \<and> f64_val a = 0) \<or> (f64_finite b \<and> f64_val b = 0) then NaN
         else if neg then NInf else PInf)"

definition f64_div :: "f64 \<Rightarrow> f64 \<Rightarrow> f64" where
  "f64_div a b =
     (if a = NaN \<or> b = NaN then NaN
      else let neg = (f64_neg_sign a \<noteq> f64_neg_sign b)
      in if f64_finite a \<and> f64_finite b then
           (if f64_val b = 0
            then (if f64_val a = 0 then NaN else if neg then NInf else PInf)
            else f64_signed neg (f64_val a / f64_val b))
         else if f64_finite a then (if neg then NegZero else Fin 0)
         else if f64_finite b then (if neg then NInf else PInf)
         else NaN)"

definition f64_sub :: "f64 \<Rightarrow> f64 \<Rightarrow> f64" where
  "f64_sub a b =
     (if a = NaN \<or> b = NaN then NaN
      else if f64_finite a \<and> f64_finite b then
        f64_signed (a = NegZero \<and> b = Fin 0) (f64_val a - f64_val b)
      else if f64_finite b then a
      else if f64_finite a then (if b = PInf then NInf else PInf)
      else if a = b then NaN else a)"

text \<open>\<open>math.Abs\<close>, \<open>math.Trunc\<close>, \<open>math.Max\<close>.\<close>

fun f64_abs :: "f64 \<Rightarrow> f64" where
  "f64_abs (Fin r) = Fin \<bar>r\<bar>"
| "f64_abs NegZero = Fin 0"
| "f64_abs PInf = PInf"
| "f64_abs NInf = PInf"
| "f64_abs NaN = NaN"

definition rat_trunc :: "rat \<Rightarrow> int" where
  "rat_trunc r = (if r < 0 then - \<lfloor>- r\<rfloor> else \<lfloor>r\<rfloor>)"

fun f64_trunc :: "f64 \<Rightarrow> f64" where
  "f64_trunc (Fin r) =
     (if r < 0 \<and> rat_trunc r = 0 then NegZero else Fin (of_int (rat_trunc r)))"
| "f64_trunc a = a"

definition f64_max :: "f64 \<Rightarrow> f64 \<Rightarrow> f64" where
  "f64_max a b =
     (if a = PInf \<or> b = PInf then PInf
      else if a = NaN \<or> b = NaN then NaN
      else if f64_lt b a then a
      else if f64_lt a b then b
      else if a = NegZero then b else a)"

subsection \<open>Conversions\<close>

definition f64_of_int :: "int \<Rightarrow> f64" where
  "f64_of_int n = f64_round (of_int n)"

text \<open>
  \<open>int64(f)\<close> truncates; for a value outside the range of the type the Go specification leaves
  the result to the implementation, which is the function \<open>oob\<close>.
\<close>

definition f64_to_int64 :: "(f64 \<Rightarrow> int) \<Rightarrow> f64 \<Rightarrow> int" where
  "f64_to_int64 oob a =
     (if f64_finite a \<and> in_int64 (rat_trunc (f64_val a)) then rat_trunc (f64_val a) else oob a)"

subsection \<open>Rounding is monotone, and exact on representable values\<close>

lemma ilog2_bounds: "0 < r \<Longrightarrow> 2 powi ilog2 r \<le> r \<and> r < 2 powi (ilog2 r + 1)"
proof (induction r rule: ilog2.induct)
  case (1 r)
  consider "2 \<le> r" | "r < 1" | "1 \<le> r" "r < 2" by linarith
  then show ?case
  proof cases
    case 1
    with "1.IH"(1) "1.prems"
    have "2 powi ilog2 (r / 2) \<le> r / 2 \<and> r / 2 < 2 powi (ilog2 (r / 2) + 1)" by auto
    with 1 show ?thesis
      by (subst (1 2) ilog2.simps) (auto simp: power_int_add field_simps)
  next
    case 2
    with "1.IH"(2) "1.prems"
    have "2 powi ilog2 (2 * r) \<le> 2 * r \<and> 2 * r < 2 powi (ilog2 (2 * r) + 1)" by auto
    with 2 "1.prems" show ?thesis
      by (subst (1 2) ilog2.simps) (auto simp: power_int_add power_int_diff field_simps)
  next
    case 3
    then show ?thesis by (subst (1 2) ilog2.simps) auto
  qed
qed

lemma ilog2_unique:
  assumes "0 < r" "2 powi k \<le> r" "r < 2 powi (k + 1)"
  shows "ilog2 r = k"
proof (rule ccontr)
  assume ne: "ilog2 r \<noteq> k"
  from ilog2_bounds [OF assms(1)]
  have b: "2 powi ilog2 r \<le> r" "r < 2 powi (ilog2 r + 1)" by auto
  show False
  proof (cases "ilog2 r < k")
    case True
    then have "(2::rat) powi (ilog2 r + 1) \<le> 2 powi k" by (intro power_int_increasing) auto
    with b assms show False by linarith
  next
    case False
    with ne have "(2::rat) powi (k + 1) \<le> 2 powi ilog2 r" by (intro power_int_increasing) auto
    with b assms show False by linarith
  qed
qed

lemma ilog2_mono:
  assumes "0 < r" "r \<le> s"
  shows "ilog2 r \<le> ilog2 s"
proof (rule ccontr)
  assume "\<not> ilog2 r \<le> ilog2 s"
  then have "(2::rat) powi (ilog2 s + 1) \<le> 2 powi ilog2 r" by (intro power_int_increasing) auto
  moreover have "2 powi ilog2 r \<le> r" using ilog2_bounds [OF assms(1)] by blast
  moreover have "s < 2 powi (ilog2 s + 1)" using ilog2_bounds [of s] assms by simp
  ultimately show False using assms by linarith
qed

lemma ulp_pos [simp]: "0 < ulp a"
  by (simp add: ulp_def)

lemma ulp_nz [simp]: "ulp a \<noteq> 0" and ulp_nonneg [simp]: "0 \<le> ulp a"
  using ulp_pos [of a] by linarith+

lemma rhe_of_int [simp]: "rhe (of_int n) = n"
  by (simp add: rhe_def)

lemma rhe_bounds: "of_int (rhe x) \<le> x + 1 / 2 \<and> x - 1 / 2 \<le> of_int (rhe x)"
  unfolding rhe_def Let_def by (auto split: if_splits) linarith+

lemma rhe_floor: "\<lfloor>x\<rfloor> \<le> rhe x \<and> rhe x \<le> \<lfloor>x\<rfloor> + 1"
  unfolding rhe_def Let_def by auto

lemma rhe_mono: "x \<le> y \<Longrightarrow> rhe x \<le> rhe y"
proof (cases "\<lfloor>x\<rfloor> = \<lfloor>y\<rfloor>")
  case True
  assume "x \<le> y"
  with True show ?thesis unfolding rhe_def Let_def by auto
next
  case False
  assume "x \<le> y"
  with False have "\<lfloor>x\<rfloor> + 1 \<le> \<lfloor>y\<rfloor>" using floor_mono [of x y] by linarith
  with rhe_floor [of x] rhe_floor [of y] show ?thesis by linarith
qed

lemma round_mag_nonneg: "0 < a \<Longrightarrow> 0 \<le> round_mag a"
proof -
  assume "0 < a"
  then have "0 \<le> a / ulp a" by (simp add: less_imp_le)
  then have "rhe 0 \<le> rhe (a / ulp a)" by (rule rhe_mono)
  then show ?thesis using rhe_of_int [of 0] by (simp add: round_mag_def)
qed

text \<open>A multiple of the unit in the last place is its own rounding.\<close>

lemma round_mag_exact: "a = of_int n * ulp a \<Longrightarrow> round_mag a = a"
proof -
  assume a: "a = of_int n * ulp a"
  then have "a / ulp a = of_int n" by (metis nonzero_mult_div_cancel_right less_irrefl ulp_pos)
  then show ?thesis using a by (simp add: round_mag_def)
qed

lemma round_mag_same_ulp: "a \<le> b \<Longrightarrow> ulp a = ulp b \<Longrightarrow> round_mag a \<le> round_mag b"
proof -
  assume "a \<le> b" and u: "ulp a = ulp b"
  then have "rhe (a / ulp a) \<le> rhe (b / ulp a)" by (intro rhe_mono divide_right_mono) auto
  then have "of_int (rhe (a / ulp a)) * ulp a \<le> of_int (rhe (b / ulp a)) * ulp a"
    by (intro mult_right_mono) auto
  with u show ?thesis by (simp add: round_mag_def)
qed

text \<open>
  The power of two that closes the binade of \<open>a\<close> is a multiple of the unit used in it, and
  of the unit used above it; this is what separates the roundings of different binades.
\<close>

lemma power_two_multiple:
  assumes "max (e - 52) (- 1074) \<le> k"
  shows "\<exists>n::int. (2::rat) powi k = of_int n * 2 powi (max (e - 52) (- 1074))"
proof -
  let ?m = "max (e - 52) (- 1074)"
  have "(2::rat) powi k = 2 powi (k - ?m) * 2 powi ?m"
    by (simp add: power_int_add [symmetric])
  moreover have "(2::rat) powi (k - ?m) = of_int (2 ^ nat (k - ?m))"
    using assms by (simp add: power_int_def)
  ultimately show ?thesis by metis
qed

lemma round_mag_le_boundary:
  assumes "0 < a" "a \<le> 2 powi k" "max (ilog2 a - 52) (- 1074) \<le> k"
  shows "round_mag a \<le> 2 powi k"
proof -
  obtain n :: int where n: "(2::rat) powi k = of_int n * ulp a"
    using power_two_multiple [OF assms(3)] by (auto simp: ulp_def)
  have "a / ulp a \<le> of_int n"
    using assms(2) n by (metis mult_imp_div_pos_le ulp_pos)
  then have "rhe (a / ulp a) \<le> rhe (of_int n)" by (rule rhe_mono)
  then have "of_int (rhe (a / ulp a)) * ulp a \<le> of_int n * ulp a"
    by (intro mult_right_mono) (auto simp: less_imp_le)
  with n show ?thesis by (simp add: round_mag_def)
qed

lemma round_mag_ge_boundary:
  assumes "0 < a" "2 powi k \<le> a" "max (ilog2 a - 52) (- 1074) \<le> k"
  shows "2 powi k \<le> round_mag a"
proof -
  obtain n :: int where n: "(2::rat) powi k = of_int n * ulp a"
    using power_two_multiple [OF assms(3)] by (auto simp: ulp_def)
  have "of_int n \<le> a / ulp a"
    using assms(2) n by (metis pos_le_divide_eq ulp_pos)
  then have "rhe (of_int n) \<le> rhe (a / ulp a)" by (rule rhe_mono)
  then have "of_int n * ulp a \<le> of_int (rhe (a / ulp a)) * ulp a"
    by (intro mult_right_mono) (auto simp: less_imp_le)
  with n show ?thesis by (simp add: round_mag_def)
qed

lemma round_mag_mono:
  assumes "0 < a" "a \<le> b"
  shows "round_mag a \<le> round_mag b"
proof (cases "ulp a = ulp b")
  case True
  with assms show ?thesis by (intro round_mag_same_ulp)
next
  case False
  from assms have "0 < b" by simp
  have le: "ilog2 a \<le> ilog2 b" using ilog2_mono assms by blast
  have "ilog2 a \<noteq> ilog2 b" using False by (auto simp: ulp_def)
  with le have lt: "ilog2 a < ilog2 b" by simp
  have lt2: "- 1074 < ilog2 b - 52"
    using lt False by (auto simp: ulp_def max_def split: if_splits)
  note lt = lt lt2
  let ?k = "ilog2 b"
  have "a \<le> 2 powi (ilog2 a + 1)" using ilog2_bounds [OF assms(1)] by simp
  also have "(2::rat) powi (ilog2 a + 1) \<le> 2 powi ?k"
    using lt by (intro power_int_increasing) auto
  finally have "a \<le> 2 powi ?k" .
  then have "round_mag a \<le> 2 powi ?k"
    using lt assms by (intro round_mag_le_boundary) auto
  moreover have "2 powi ?k \<le> round_mag b"
    using ilog2_bounds [OF \<open>0 < b\<close>] \<open>0 < b\<close> lt by (intro round_mag_ge_boundary) auto
  ultimately show ?thesis by linarith
qed

lemma round_mag_error: "\<bar>round_mag a - a\<bar> \<le> ulp a / 2"
proof -
  have "round_mag a - a = (of_int (rhe (a / ulp a)) - a / ulp a) * ulp a"
    by (simp add: round_mag_def left_diff_distrib)
  moreover have "\<bar>of_int (rhe (a / ulp a)) - a / ulp a\<bar> \<le> 1 / 2"
    unfolding abs_le_iff using rhe_bounds [of "a / ulp a"] by linarith
  ultimately show ?thesis
    using mult_right_mono [of "\<bar>of_int (rhe (a / ulp a)) - a / ulp a\<bar>" "1 / 2" "ulp a"]
    by (simp add: abs_mult)
qed

lemma f64_round_0 [simp]: "f64_round 0 = Fin 0"
  by (simp add: f64_round_def)

lemma f64_round_pos:
  "0 < x \<Longrightarrow> f64_round x = (if 2 ^ 1024 \<le> round_mag x then PInf else Fin (round_mag x))"
  by (auto simp: f64_round_def Let_def)

lemma f64_round_neg:
  "x < 0 \<Longrightarrow> f64_round x =
     (if round_mag (- x) = 0 then NegZero
      else if 2 ^ 1024 \<le> round_mag (- x) then NInf else Fin (- round_mag (- x)))"
  by (auto simp: f64_round_def Let_def)

lemma f64_round_not_NaN [simp]: "f64_round x \<noteq> NaN"
  by (auto simp: f64_round_def Let_def)

lemma round_mag_zero_int [simp]: "round_mag a \<noteq> 0 \<Longrightarrow> 0 < a \<Longrightarrow> 0 < round_mag a"
  using round_mag_nonneg [of a] by linarith

text \<open>Rounding preserves the order.\<close>

lemma f64_round_mono:
  assumes "x \<le> y"
  shows "f64_le (f64_round x) (f64_round y)"
proof -
  consider "0 < x" | "x = 0" "y = 0" | "x = 0" "0 < y" | "x < 0" "0 < y" | "x < 0" "y = 0" | "y < 0"
    using assms by linarith
  then show ?thesis
  proof cases
    case 1
    with assms round_mag_mono [of x y] show ?thesis
      by (auto simp: f64_round_pos f64_le_def)
  next
    case 3
    with round_mag_nonneg [of y] show ?thesis by (auto simp: f64_round_pos f64_le_def)
  next
    case 4
    with round_mag_nonneg [of y] round_mag_nonneg [of "- x"] show ?thesis
      by (auto simp: f64_round_pos f64_round_neg f64_le_def)
  next
    case 5
    with round_mag_nonneg [of "- x"] show ?thesis by (auto simp: f64_round_neg f64_le_def)
  next
    case 6
    with assms round_mag_mono [of "- y" "- x"] round_mag_nonneg [of "- y"] show ?thesis
      by (auto simp: f64_round_neg f64_le_def)
  qed (simp add: f64_le_def)
qed

text \<open>A numerator of at most 53 bits over (or times) a power of two is representable.\<close>

lemma ulp_divides_dyadic:
  assumes "0 < n" "n \<le> 2 ^ 53" "- 1074 \<le> e"
  shows "\<exists>m::int. of_int n * 2 powi e = of_int m * ulp (of_int n * 2 powi e)"
proof -
  let ?a = "of_int n * 2 powi e :: rat"
  have pos: "0 < ?a" using assms by simp
  have "?a \<le> of_int (2 ^ 53) * 2 powi e"
    using assms by (intro mult_right_mono) (auto simp only: of_int_le_iff zero_le_power_int zero_le_numeral)
  also have "(of_int (2 ^ 53) :: rat) * 2 powi e = 2 powi (53 + e)"
    by (simp add: power_int_add)
  finally have up: "?a \<le> 2 powi (53 + e)" .
  show ?thesis
  proof (cases "?a = 2 powi (53 + e)")
    case True
    have "ilog2 ?a = 53 + e"
      unfolding True by (rule ilog2_unique) (auto intro: power_int_strict_increasing)
    then have "max (ilog2 ?a - 52) (- 1074) \<le> 53 + e" using assms by auto
    from power_two_multiple [OF this] show ?thesis unfolding True [symmetric] ulp_def .
  next
    case False
    with up have "?a < 2 powi (53 + e)" by simp
    moreover have "2 powi ilog2 ?a \<le> ?a" using ilog2_bounds [OF pos] by blast
    ultimately have "(2::rat) powi ilog2 ?a < 2 powi (53 + e)" by linarith
    then have "ilog2 ?a < 53 + e"
      by (metis not_less one_le_numeral power_int_increasing)
    then have "max (ilog2 ?a - 52) (- 1074) \<le> e" using assms by auto
    from power_two_multiple [OF this] obtain m :: int where "(2::rat) powi e = of_int m * ulp ?a"
      by (auto simp: ulp_def)
    then have "?a = of_int (n * m) * ulp ?a" by simp
    then show ?thesis by blast
  qed
qed

lemma round_mag_dyadic:
  "0 < n \<Longrightarrow> n \<le> 2 ^ 53 \<Longrightarrow> - 1074 \<le> e \<Longrightarrow> round_mag (of_int n * 2 powi e) = of_int n * 2 powi e"
  using ulp_divides_dyadic round_mag_exact by blast

lemma f64_round_dyadic:
  assumes "\<bar>n\<bar> \<le> 2 ^ 53" "- 1074 \<le> e" "e \<le> 900"
  shows "f64_round (of_int n * 2 powi e) = Fin (of_int n * 2 powi e)"
proof -
  have small: "(of_int m :: rat) * 2 powi e < 2 ^ 1024" if m: "m \<le> 2 ^ 53" for m :: int
  proof -
    have "(of_int m :: rat) * 2 powi e \<le> of_int (2 ^ 53) * 2 powi e"
      using m by (intro mult_right_mono) (auto simp only: of_int_le_iff zero_le_power_int zero_le_numeral)
    also have "\<dots> = 2 powi (53 + e)" by (simp add: power_int_add)
    also have "(2::rat) powi (53 + e) < 2 powi 1024"
      using assms by (intro power_int_strict_increasing) auto
    finally show ?thesis by simp
  qed
  consider "n = 0" | "0 < n" | "n < 0" by linarith
  then show ?thesis
  proof cases
    case 2
    with assms small [of n] show ?thesis
      by (auto simp: f64_round_pos round_mag_dyadic)
  next
    case 3
    have "round_mag (- (of_int n * 2 powi e)) = - (of_int n * 2 powi e)"
      using round_mag_dyadic [of "- n" e] 3 assms by simp
    moreover have "(of_int n :: rat) * 2 powi e < 0" using 3 by (simp add: mult_less_0_iff)
    ultimately show ?thesis using small [of "- n"] 3 assms by (auto simp: f64_round_neg)
  qed simp
qed

lemma f64_of_int_exact: "\<bar>n\<bar> \<le> 2 ^ 53 \<Longrightarrow> f64_of_int n = Fin (of_int n)"
  using f64_round_dyadic [of n 0] by (simp add: f64_of_int_def)

lemma f64_div_ints:
  assumes "\<bar>p\<bar> \<le> 2 ^ 53" "0 < t" "t \<le> 2 ^ 53" "0 \<le> p"
  shows "f64_div (f64_of_int p) (f64_of_int t) = f64_round (of_int p / of_int t)"
  using assms
  by (simp add: f64_of_int_exact f64_div_def f64_neg_sign_def f64_signed_def Let_def)

text \<open>
  Two quotients below one that differ by more than \<open>2 ^ -52\<close> stay apart after rounding: the
  errors together are below that gap.
\<close>

lemma ulp_le_one: "0 < a \<Longrightarrow> a \<le> 1 \<Longrightarrow> ulp a \<le> 2 powi (- 52)"
proof -
  assume a: "0 < a" "a \<le> 1"
  have "ilog2 (1::rat) = 0" by (rule ilog2_unique) auto
  with ilog2_mono [OF a] have "ilog2 a \<le> 0" by simp
  then show ?thesis unfolding ulp_def by (intro power_int_increasing) auto
qed

lemma f64_round_separates:
  assumes "0 \<le> a" "a + 2 powi (- 52) < c" "c \<le> 1"
  shows "f64_lt (f64_round a) (f64_round c)"
proof -
  have eps: "(0::rat) < 2 powi (- 52)" by simp
  have c0: "0 < c" using assms eps by linarith
  have errc: "\<bar>round_mag c - c\<bar> \<le> 2 powi (- 52) / 2"
    using round_mag_error [of c] ulp_le_one [OF c0 assms(3)] by linarith
  have one: "(2::rat) powi (- 52) / 2 < 1" by (simp add: power_int_def power_divide)
  have big: "(2::rat) < 2 ^ 1024" by simp
  show ?thesis
  proof (cases "a = 0")
    case True
    have "0 < round_mag c" using errc assms(2) eps True by linarith
    then show ?thesis using True c0 by (auto simp: f64_round_pos)
  next
    case False
    then have a0: "0 < a" using assms by simp
    have a1: "a \<le> 1" using assms eps by linarith
    have erra: "\<bar>round_mag a - a\<bar> \<le> 2 powi (- 52) / 2"
      using round_mag_error [of a] ulp_le_one [OF a0 a1] by linarith
    have "round_mag a < round_mag c" using erra errc assms(2) by linarith
    moreover have "round_mag c < 2 ^ 1024" "round_mag a < 2 ^ 1024"
      using errc erra one big assms(3) a1 by linarith+
    ultimately show ?thesis using a0 c0 by (auto simp: f64_round_pos)
  qed
qed

end
