(* ===== verification/Go_Json.thy ===== *)
theory Go_Json
  imports Go_Float
begin

text \<open>
  What the program uses of \<open>encoding/json\<close>, \<open>fmt\<close> and \<open>unicode/utf8\<close>: dynamically typed
  values (\<open>any\<close>), JSON texts parsed to trees whose nodes keep the raw text of their children
  (\<open>json.RawMessage\<close>), \<open>json.Unmarshal\<close> into the target types that occur, \<open>json.Marshal\<close>,
  and \<open>fmt.Sprintf("%v", x)\<close> with the shortest decimal rendering of a \<open>float64\<close>.
\<close>

subsection \<open>UTF-8\<close>

definition byte :: "char \<Rightarrow> nat" where
  "byte c = of_char c"

definition is_cont :: "char \<Rightarrow> bool" where
  "is_cont c \<longleftrightarrow> 128 \<le> byte c \<and> byte c < 192"

text \<open>The size of the valid UTF-8 sequence at the front of a string, 0 when it is invalid.\<close>

fun utf8_size :: "string \<Rightarrow> nat" where
  "utf8_size [] = 0"
| "utf8_size (a # r) =
     (let x = byte a in
      if x < 128 then 1
      else if 194 \<le> x \<and> x < 224 then (case r of b # _ \<Rightarrow> if is_cont b then 2 else 0 | _ \<Rightarrow> 0)
      else if 224 \<le> x \<and> x < 240 then
        (case r of b # c # _ \<Rightarrow>
           if is_cont b \<and> is_cont c \<and> (x = 224 \<longrightarrow> 160 \<le> byte b) \<and> (x = 237 \<longrightarrow> byte b < 160)
           then 3 else 0
         | _ \<Rightarrow> 0)
      else if 240 \<le> x \<and> x < 245 then
        (case r of b # c # d # _ \<Rightarrow>
           if is_cont b \<and> is_cont c \<and> is_cont d \<and> (x = 240 \<longrightarrow> 144 \<le> byte b)
              \<and> (x = 244 \<longrightarrow> byte b < 144)
           then 4 else 0
         | _ \<Rightarrow> 0)
      else 0)"

definition replacement :: string where
  "replacement = [ch 0xEF, ch 0xBF, ch 0xBD]"

definition utf8_encode :: "nat \<Rightarrow> string" where
  "utf8_encode u =
     (if u < 128 then [ch u]
      else if u < 2048 then [ch (192 + u div 64), ch (128 + u mod 64)]
      else if u < 65536 then
        [ch (224 + u div 4096), ch (128 + u div 64 mod 64), ch (128 + u mod 64)]
      else [ch (240 + u div 262144), ch (128 + u div 4096 mod 64),
            ch (128 + u div 64 mod 64), ch (128 + u mod 64)])"

subsection \<open>Dynamically typed values\<close>

text \<open>
  A value of Go's type \<open>any\<close>: what \<open>json.Unmarshal\<close> stores into it (\<open>nil\<close>, \<open>string\<close>,
  \<open>float64\<close>, \<open>bool\<close>, \<open>[]any\<close>, \<open>map[string]any\<close>) and the other dynamic types the program
  tests for (\<open>float32\<close>, the integer types, \<open>json.Number\<close>). \<open>ANilSlice\<close> is the \<open>[]any\<close> without a
  backing array, which reads like an empty one but is encoded as \<open>null\<close>. A map is an association list;
  its order carries no meaning and look-ups take the first binding.
\<close>

datatype intkind = KInt | KInt64 | KInt32

datatype any =
    ANil
  | AStr string
  | AFloat f64
  | ABool bool
  | AArr "any list"
  | AObj "(string \<times> any) list"
  | AFloat32 f64
  | AInt intkind int
  | AJsonNumber string
  | ANilSlice

subsection \<open>Number syntax\<close>

fun span_digits :: "string \<Rightarrow> string \<times> string" where
  "span_digits [] = ([], [])"
| "span_digits (c # s) =
     (if is_digit c then (let (d, r) = span_digits s in (c # d, r)) else ([], c # s))"

text \<open>
  The JSON number grammar: an optional minus, an integer part without a leading zero, an
  optional fraction, an optional exponent. The result is the literal and the rest.
\<close>

definition scan_frac :: "string \<Rightarrow> (string \<times> string) option" where
  "scan_frac s =
     (case s of
        c # t \<Rightarrow>
          if c = CHR ''.'' then (let (d, r) = span_digits t in if d = [] then None else Some (c # d, r))
          else Some ([], s)
      | [] \<Rightarrow> Some ([], s))"

definition scan_exp :: "string \<Rightarrow> (string \<times> string) option" where
  "scan_exp s =
     (case s of
        c # t \<Rightarrow>
          if c = CHR ''e'' \<or> c = CHR ''E'' then
            (let (sg, u) = (case t of
                   x # v \<Rightarrow> if x = CHR ''+'' \<or> x = CHR ''-'' then ([x], v) else ([], t)
                 | [] \<Rightarrow> ([], t));
                 (d, r) = span_digits u
             in if d = [] then None else Some (c # sg @ d, r))
          else Some ([], s)
      | [] \<Rightarrow> Some ([], s))"

definition scan_number :: "string \<Rightarrow> (string \<times> string) option" where
  "scan_number s =
     (let (sg, t) = (case s of c # u \<Rightarrow> if c = CHR ''-'' then ([c], u) else ([], s) | [] \<Rightarrow> ([], s));
          (d, r) = (case t of c # u \<Rightarrow> if c = CHR ''0'' then ([c], u) else span_digits t | [] \<Rightarrow> ([], t))
      in if d = [] then None
         else case scan_frac r of
                None \<Rightarrow> None
              | Some (f, r2) \<Rightarrow>
                  (case scan_exp r2 of
                     None \<Rightarrow> None
                   | Some (e, r3) \<Rightarrow> Some (sg @ d @ f @ e, r3)))"

text \<open>The exact value of a number literal, and \<open>strconv.ParseFloat\<close> of it (an error when it overflows).\<close>

definition lit_value :: "string \<Rightarrow> rat" where
  "lit_value s =
     (let (neg, t) = (case s of c # u \<Rightarrow> if c = CHR ''-'' then (True, u) else (False, s) | [] \<Rightarrow> (False, s));
          (d, r) = span_digits t;
          (f, r2) = (case r of c # u \<Rightarrow> if c = CHR ''.'' then span_digits u else ([], r) | [] \<Rightarrow> ([], r));
          e = (case r2 of c # u \<Rightarrow> (case atoi u of Some k \<Rightarrow> k | None \<Rightarrow> 0) | [] \<Rightarrow> 0);
          v = of_int (int (digits_val (d @ f))) * 10 powi (e - int (length f))
      in if neg then - v else v)"

definition parse_float :: "string \<Rightarrow> f64 option" where
  "parse_float s =
     (let v = f64_signed (hasPrefix s ''-'') (lit_value s)
      in if f64_finite v then Some v else None)"

subsection \<open>JSON texts\<close>

text \<open>
  \<open>Raw t j\<close> is a \<open>json.RawMessage\<close>: the text \<open>t\<close>, and the tree it parses to. Numbers keep
  their literal, objects their fields in textual order (duplicates included).
\<close>

datatype json =
    JNull
  | JBool bool
  | JNum string
  | JStr string
  | JArr "rawmsg list"
  | JObj "field list"
and rawmsg = Raw (raw_text: string) (raw_tree: json)
and field = Field (field_key: string) (field_val: rawmsg)

definition is_ws :: "char \<Rightarrow> bool" where
  "is_ws c \<longleftrightarrow> byte c = 32 \<or> byte c = 9 \<or> byte c = 10 \<or> byte c = 13"

definition skip_ws :: "string \<Rightarrow> string" where
  "skip_ws s = dropWhile is_ws s"

definition hex_val :: "char \<Rightarrow> nat option" where
  "hex_val c =
     (let n = byte c in
      if 48 \<le> n \<and> n \<le> 57 then Some (n - 48)
      else if 97 \<le> n \<and> n \<le> 102 then Some (n - 87)
      else if 65 \<le> n \<and> n \<le> 70 then Some (n - 55) else None)"

fun hex4 :: "string \<Rightarrow> nat option" where
  "hex4 (a # b # c # d # _) =
     (case (hex_val a, hex_val b, hex_val c, hex_val d) of
        (Some w, Some x, Some y, Some z) \<Rightarrow> Some (((w * 16 + x) * 16 + y) * 16 + z)
      | _ \<Rightarrow> None)"
| "hex4 _ = None"

text \<open>The low surrogate that may follow a \<open>\u\<close> escape, as \<open>getu4\<close> reads it.\<close>

definition low_surrogate :: "string \<Rightarrow> nat option" where
  "low_surrogate r =
     (if hasPrefix r [ch 92, CHR ''u''] then
        (case hex4 (drop 2 r) of
           Some v \<Rightarrow> if 0xDC00 \<le> v \<and> v < 0xE000 then Some v else None
         | None \<Rightarrow> None)
      else None)"

definition simple_escape :: "char \<Rightarrow> char option" where
  "simple_escape c =
     map_of [(ch 34, ch 34), (ch 92, ch 92), (ch 47, ch 47), (CHR ''b'', ch 8), (CHR ''f'', ch 12),
             (CHR ''n'', ch 10), (CHR ''r'', ch 13), (CHR ''t'', ch 9)] c"

text \<open>The body of a string literal after the opening quote: the decoded string and the rest.\<close>

function scan_string :: "string \<Rightarrow> (string \<times> string) option" where
  "scan_string [] = None"
| "scan_string (c # cs) =
     (if byte c = 34 then Some ([], cs)
      else if byte c = 92 then
        (case cs of
           [] \<Rightarrow> None
         | e # r \<Rightarrow>
             if e = CHR ''u'' then
               (case hex4 r of
                  None \<Rightarrow> None
                | Some u \<Rightarrow>
                    if 0xD800 \<le> u \<and> u < 0xDC00 then
                      (case low_surrogate (drop 4 r) of
                         Some v \<Rightarrow>
                           map_option (\<lambda>(t, q). (utf8_encode (65536 + (u - 0xD800) * 1024 + (v - 0xDC00)) @ t, q))
                             (scan_string (drop 10 r))
                       | None \<Rightarrow> map_option (\<lambda>(t, q). (replacement @ t, q)) (scan_string (drop 4 r)))
                    else if 0xDC00 \<le> u \<and> u < 0xE000 then
                      map_option (\<lambda>(t, q). (replacement @ t, q)) (scan_string (drop 4 r))
                    else map_option (\<lambda>(t, q). (utf8_encode u @ t, q)) (scan_string (drop 4 r)))
             else (case simple_escape e of
                     None \<Rightarrow> None
                   | Some x \<Rightarrow> map_option (\<lambda>(t, q). (x # t, q)) (scan_string r)))
      else if byte c < 32 then None
      else let n = utf8_size (c # cs) in
        if n = 0 then map_option (\<lambda>(t, q). (replacement @ t, q)) (scan_string cs)
        else map_option (\<lambda>(t, q). (take n (c # cs) @ t, q)) (scan_string (drop (n - 1) cs)))"
  by pat_completeness auto
termination
  by (relation "measure length") auto

text \<open>
  The parser proper. The first argument bounds the recursion (every second call consumes a
  character, so twice the length of the text is enough), the second counts the nesting, which
  the decoder limits to 10000.
\<close>

fun parse_value :: "nat \<Rightarrow> int \<Rightarrow> string \<Rightarrow> (json \<times> string) option"
and parse_elems :: "nat \<Rightarrow> int \<Rightarrow> string \<Rightarrow> (rawmsg list \<times> string) option"
and parse_fields :: "nat \<Rightarrow> int \<Rightarrow> string \<Rightarrow> (field list \<times> string) option" where
  "parse_value 0 d s = None"
| "parse_value (Suc n) d [] = None"
| "parse_value (Suc n) d (c # cs) =
     (if byte c = 123 then
        (if 10000 \<le> d then None
         else case skip_ws cs of
                [] \<Rightarrow> None
              | x # r \<Rightarrow> if byte x = 125 then Some (JObj [], r)
                         else map_option (\<lambda>(fs, q). (JObj fs, q)) (parse_fields n (d + 1) (x # r)))
      else if byte c = 91 then
        (if 10000 \<le> d then None
         else case skip_ws cs of
                [] \<Rightarrow> None
              | x # r \<Rightarrow> if byte x = 93 then Some (JArr [], r)
                         else map_option (\<lambda>(es, q). (JArr es, q)) (parse_elems n (d + 1) (x # r)))
      else if byte c = 34 then map_option (\<lambda>(t, q). (JStr t, q)) (scan_string cs)
      else if hasPrefix (c # cs) ''null'' then Some (JNull, drop 3 cs)
      else if hasPrefix (c # cs) ''true'' then Some (JBool True, drop 3 cs)
      else if hasPrefix (c # cs) ''false'' then Some (JBool False, drop 4 cs)
      else map_option (\<lambda>(l, q). (JNum l, q)) (scan_number (c # cs)))"
| "parse_elems 0 d s = None"
| "parse_elems (Suc n) d s =
     (case parse_value n d s of
        None \<Rightarrow> None
      | Some (v, r) \<Rightarrow>
          let e = Raw (take (length s - length r) s) v in
          (case skip_ws r of
             [] \<Rightarrow> None
           | x # q \<Rightarrow>
               if byte x = 44 then map_option (\<lambda>(es, t). (e # es, t)) (parse_elems n d (skip_ws q))
               else if byte x = 93 then Some ([e], q)
               else None))"
| "parse_fields 0 d s = None"
| "parse_fields (Suc n) d s =
     (case s of
        [] \<Rightarrow> None
      | c # cs \<Rightarrow>
          if byte c \<noteq> 34 then None
          else case scan_string cs of
                 None \<Rightarrow> None
               | Some (k, r) \<Rightarrow>
                   (case skip_ws r of
                      [] \<Rightarrow> None
                    | x # q \<Rightarrow>
                        if byte x \<noteq> 58 then None
                        else let vs = skip_ws q in
                          (case parse_value n d vs of
                             None \<Rightarrow> None
                           | Some (v, t) \<Rightarrow>
                               let f = Field k (Raw (take (length vs - length t) vs) v) in
                               (case skip_ws t of
                                  [] \<Rightarrow> None
                                | y # u \<Rightarrow>
                                    if byte y = 44 then
                                      map_option (\<lambda>(fs, w). (f # fs, w)) (parse_fields n d (skip_ws u))
                                    else if byte y = 125 then Some ([f], u)
                                    else None))))"

text \<open>The syntax check of \<open>json.Unmarshal\<close>: the tree of a well-formed text, \<open>None\<close> otherwise.\<close>

definition json_parse :: "string \<Rightarrow> json option" where
  "json_parse s =
     (let t = skip_ws s in
      case parse_value (2 * length t + 2) 0 t of
        None \<Rightarrow> None
      | Some (v, r) \<Rightarrow> if skip_ws r = [] then Some v else None)"

subsection \<open>json.Unmarshal into the target types of the program\<close>

text \<open>
  The result is \<open>None\<close> where \<open>Unmarshal\<close> reports an error. \<open>null\<close> is accepted by every
  target and leaves its zero value, which the callers' variables hold.
\<close>

fun un_string :: "json \<Rightarrow> string option" where
  "un_string JNull = Some []"
| "un_string (JStr s) = Some s"
| "un_string _ = None"

fun un_bool :: "json \<Rightarrow> bool option" where
  "un_bool JNull = Some False"
| "un_bool (JBool b) = Some b"
| "un_bool _ = None"

fun un_float :: "json \<Rightarrow> f64 option" where
  "un_float JNull = Some (Fin 0)"
| "un_float (JNum l) = parse_float l"
| "un_float _ = None"

fun un_int :: "json \<Rightarrow> int option" where
  "un_int JNull = Some 0"
| "un_int (JNum l) = atoi l"
| "un_int _ = None"

fun un_array :: "json \<Rightarrow> rawmsg list option" where
  "un_array JNull = Some []"
| "un_array (JArr es) = Some es"
| "un_array _ = None"

text \<open>A Go map built from the fields of an object: a repeated key keeps its last value.\<close>

fun go_map :: "field list \<Rightarrow> (string \<times> rawmsg) list" where
  "go_map [] = []"
| "go_map (Field k v # fs) = (if k \<in> field_key ` set fs then go_map fs else (k, v) # go_map fs)"

fun un_object :: "json \<Rightarrow> (string \<times> rawmsg) list option" where
  "un_object JNull = Some []"
| "un_object (JObj fs) = Some (go_map fs)"
| "un_object _ = None"

fun those_list :: "'a option list \<Rightarrow> 'a list option" where
  "those_list [] = Some []"
| "those_list (None # xs) = None"
| "those_list (Some x # xs) = map_option (Cons x) (those_list xs)"

definition un_int_list :: "json \<Rightarrow> int list option" where
  "un_int_list j = (case un_array j of None \<Rightarrow> None | Some es \<Rightarrow> those_list (map (un_int \<circ> raw_tree) es))"

text \<open>\<open>map[string]string\<close>: every field of the text has to decode, also one a later duplicate hides.\<close>

definition un_string_map :: "json \<Rightarrow> (string \<times> string) list option" where
  "un_string_map j =
     (case j of
        JObj fs \<Rightarrow>
          if list_all (\<lambda>f. un_string (raw_tree (field_val f)) \<noteq> None) fs
          then Some (map (\<lambda>(k, v). (k, the (un_string (raw_tree v)))) (go_map fs))
          else None
      | JNull \<Rightarrow> Some []
      | _ \<Rightarrow> None)"

text \<open>
  Decoding into \<open>any\<close>. A number that overflows is an error, which the callers that decode
  responses ignore; the position then holds \<open>nil\<close>.
\<close>

fun any_of_json :: "json \<Rightarrow> any"
and anys_of_raws :: "rawmsg list \<Rightarrow> any list"
and any_fields :: "field list \<Rightarrow> (string \<times> any) list" where
  "any_of_json JNull = ANil"
| "any_of_json (JBool b) = ABool b"
| "any_of_json (JNum l) = (case parse_float l of None \<Rightarrow> ANil | Some x \<Rightarrow> AFloat x)"
| "any_of_json (JStr s) = AStr s"
| "any_of_json (JArr es) = AArr (anys_of_raws es)"
| "any_of_json (JObj fs) = AObj (any_fields fs)"
| "anys_of_raws [] = []"
| "anys_of_raws (Raw t j # es) = any_of_json j # anys_of_raws es"
| "any_fields [] = []"
| "any_fields (Field k (Raw t j) # fs) =
     (if k \<in> field_key ` set fs then any_fields fs else (k, any_of_json j) # any_fields fs)"

text \<open>
  \<open>json.Unmarshal\<close> of a text into a fresh \<open>map[string]any\<close> with the error ignored:
  \<open>None\<close> is the nil map that stays when the text is malformed, \<open>null\<close> or not an object.
\<close>

definition unmarshal_obj :: "string \<Rightarrow> (string \<times> any) list option" where
  "unmarshal_obj s =
     (case json_parse s of Some (JObj fs) \<Rightarrow> Some (any_fields fs) | _ \<Rightarrow> None)"

text \<open>
  The key comparison of encoding/json: equal up to ASCII case, the long s and the Kelvin sign
  counting as the letters they fold to.
\<close>

fun fold_name :: "string \<Rightarrow> string" where
  "fold_name [] = []"
| "fold_name [a] = [lower_char a]"
| "fold_name [a, b] = (if a = ch 0xC5 \<and> b = ch 0xBF then ''s'' else lower_char a # fold_name [b])"
| "fold_name (a # b # c # s) =
     (if a = ch 0xC5 \<and> b = ch 0xBF then CHR ''s'' # fold_name (c # s)
      else if a = ch 0xE2 \<and> b = ch 0x84 \<and> c = ch 0xAA then CHR ''k'' # fold_name s
      else lower_char a # fold_name (b # c # s))"

subsection \<open>Shortest decimal rendering of a float64\<close>

function ilog10 :: "rat \<Rightarrow> int" where
  "ilog10 r =
     (if r \<le> 0 then 0
      else if 10 \<le> r then ilog10 (r / 10) + 1
      else if r < 1 then ilog10 (10 * r) - 1
      else 0)"
  by pat_completeness auto
termination
proof (relation "measure (\<lambda>r. if 1 \<le> r then nat \<lfloor>r\<rfloor> else nat \<lfloor>10 / r\<rfloor> + 10)", goal_cases)
  case 1
  show ?case by simp
next
  case (2 r)
  then have "\<lfloor>r / 10\<rfloor> < \<lfloor>r\<rfloor>" by linarith
  with 2 show ?case by (auto simp: nat_less_eq_zless)
next
  case (3 r)
  then have r: "0 < r" "r < 1" by auto
  show ?case
  proof (cases "1 \<le> 10 * r")
    case True
    have "nat \<lfloor>10 * r\<rfloor> < 10" using r by linarith
    then have "nat \<lfloor>10 * r\<rfloor> < nat \<lfloor>10 / r\<rfloor> + 10" by linarith
    then show ?thesis using True r by auto
  next
    case False
    have "10 \<le> 1 / r" using False r by (simp add: field_simps)
    moreover have "10 / (10 * r) = 1 / r" "10 / r = 10 * (1 / r)" using r by auto
    ultimately have "\<lfloor>10 / (10 * r)\<rfloor> < \<lfloor>10 / r\<rfloor>" "1 \<le> \<lfloor>10 / r\<rfloor>" by linarith+
    then show ?thesis using False r by auto
  qed
qed

declare ilog10.simps [simp del]

text \<open>
  The decimals with \<open>n\<close> significant digits next to \<open>x\<close> that read back as \<open>x\<close>, the
  nearer first; the first \<open>n\<close> for which there is one gives the digits. Seventeen digits are
  always enough for a \<open>float64\<close>.
\<close>

definition dec_unit :: "rat \<Rightarrow> int \<Rightarrow> rat" where
  "dec_unit x n = 10 powi (ilog10 x + 1 - n)"

definition dec_candidates :: "rat \<Rightarrow> int \<Rightarrow> int list" where
  "dec_candidates x n =
     (let q = dec_unit x n; m = \<lfloor>x / q\<rfloor>;
          near = (if x / q - of_int m \<le> 1 / 2 then [m, m + 1] else [m + 1, m])
      in filter (\<lambda>k. f64_round (of_int k * q) = Fin x) near)"

fun shortest_from :: "rat \<Rightarrow> int list \<Rightarrow> int \<times> int" where
  "shortest_from x [] = (\<lfloor>x / dec_unit x 17\<rfloor>, 17)"
| "shortest_from x (n # ns) =
     (case dec_candidates x n of m # _ \<Rightarrow> (m, n) | [] \<Rightarrow> shortest_from x ns)"

definition strip_zeros :: "string \<Rightarrow> string" where
  "strip_zeros s = rev (dropWhile (\<lambda>c. c = CHR ''0'') (rev s))"

text \<open>Digits \<open>d1 d2 \<dots>\<close> and decimal point \<open>p\<close>: the value is \<open>0.d1 d2 \<dots> * 10 ^ p\<close>.\<close>

definition shortest :: "rat \<Rightarrow> string \<times> int" where
  "shortest x =
     (let (m, n) = shortest_from x [1,2,3,4,5,6,7,8,9,10,11,12,13,14,15,16,17];
          s = show_nat (nat m)
      in (strip_zeros s, int (length s) + (ilog10 x + 1 - n)))"

definition fmt_exp :: "int \<Rightarrow> string" where
  "fmt_exp e =
     (let a = show_nat (nat \<bar>e\<bar>)
      in (if e < 0 then ''e-'' else ''e+'') @ (if length a < 2 then CHR ''0'' # a else a))"

definition fmt_e :: "string \<times> int \<Rightarrow> string" where
  "fmt_e dp =
     (let (d, p) = dp
      in take 1 d @ (if length d \<le> 1 then [] else CHR ''.'' # drop 1 d) @ fmt_exp (p - 1))"

definition fmt_f :: "string \<times> int \<Rightarrow> string" where
  "fmt_f dp =
     (let (d, p) = dp
      in if p \<le> 0 then ''0.'' @ replicate (nat (- p)) (CHR ''0'') @ d
         else if int (length d) \<le> p then d @ replicate (nat p - length d) (CHR ''0'')
         else take (nat p) d @ CHR ''.'' # drop (nat p) d)"

text \<open>
  \<open>%v\<close> of a \<open>float64\<close> is \<open>strconv\<close> format \<open>'g'\<close> with the shortest precision: an
  exponent below -4 or of at least 6 is written in scientific notation.
\<close>

definition fmt_pos_g :: "rat \<Rightarrow> string" where
  "fmt_pos_g x =
     (let (d, p) = shortest x
      in if p - 1 < - 4 \<or> 6 \<le> p - 1 then fmt_e (d, p) else fmt_f (d, p))"

fun fmt_float :: "f64 \<Rightarrow> string" where
  "fmt_float (Fin r) = (if r = 0 then ''0'' else if r < 0 then CHR ''-'' # fmt_pos_g (- r) else fmt_pos_g r)"
| "fmt_float NegZero = ''-0''"
| "fmt_float PInf = ''+Inf''"
| "fmt_float NInf = ''-Inf''"
| "fmt_float NaN = ''NaN''"

text \<open>The encoder of \<open>encoding/json\<close> switches to an exponent below 1e-6 and from 1e21 on.\<close>

definition json_pos_float :: "rat \<Rightarrow> string" where
  "json_pos_float x =
     (let (d, p) = shortest x
      in if x < 1 / 10 ^ 6 \<or> 10 ^ 21 \<le> x
         then take 1 d @ (if length d \<le> 1 then [] else CHR ''.'' # drop 1 d)
              @ (if p - 1 < 0 then ''e-'' else ''e+'') @ show_nat (nat \<bar>p - 1\<bar>)
         else fmt_f (d, p))"

fun json_float :: "f64 \<Rightarrow> string option" where
  "json_float (Fin r) =
     Some (if r = 0 then ''0'' else if r < 0 then CHR ''-'' # json_pos_float (- r) else json_pos_float r)"
| "json_float NegZero = Some ''-0''"
| "json_float _ = None"

subsection \<open>fmt.Sprintf("%v") and json.Marshal\<close>

definition sort_fields :: "(string \<times> 'a) list \<Rightarrow> (string \<times> 'a) list" where
  "sort_fields kvs = sort_key fst kvs"

fun fmt_v :: "any \<Rightarrow> string"
and fmt_vs :: "any list \<Rightarrow> string list"
and fmt_kvs :: "(string \<times> any) list \<Rightarrow> (string \<times> string) list" where
  "fmt_v ANil = ''<nil>''"
| "fmt_v (AStr s) = s"
| "fmt_v (AFloat x) = fmt_float x"
| "fmt_v (ABool b) = (if b then ''true'' else ''false'')"
| "fmt_v (AArr xs) = ''['' @ strJoin '' '' (fmt_vs xs) @ '']''"
| "fmt_v (AObj kvs) =
     ''map['' @ strJoin '' '' (map (\<lambda>(k, t). k @ '':'' @ t) (sort_fields (fmt_kvs kvs))) @ '']''"
| "fmt_v (AFloat32 x) = fmt_float x"
| "fmt_v (AInt k n) = show_int n"
| "fmt_v (AJsonNumber s) = s"
| "fmt_v ANilSlice = ''[]''"
| "fmt_vs [] = []"
| "fmt_vs (x # xs) = fmt_v x # fmt_vs xs"
| "fmt_kvs [] = []"
| "fmt_kvs ((k, x) # kvs) = (k, fmt_v x) # fmt_kvs kvs"

definition hex_digit :: "nat \<Rightarrow> char" where
  "hex_digit n = (if n < 10 then char_of (48 + n) else char_of (87 + n))"

text \<open>
  String encoding with HTML escaping, as \<open>json.Marshal\<close> does it: control characters, quotes,
  backslashes, angle brackets and ampersands, the two JavaScript line separators, and invalid
  UTF-8 are escaped.
\<close>

definition json_escape_byte :: "char \<Rightarrow> string" where
  "json_escape_byte c =
     (let n = byte c in
      if n = 34 \<or> n = 92 then [ch 92, c]
      else if n = 8 then [ch 92, CHR ''b''] else if n = 12 then [ch 92, CHR ''f'']
      else if n = 10 then [ch 92, CHR ''n''] else if n = 13 then [ch 92, CHR ''r'']
      else if n = 9 then [ch 92, CHR ''t'']
      else if n < 32 \<or> n = 60 \<or> n = 62 \<or> n = 38
        then [ch 92] @ ''u00'' @ [hex_digit (n div 16), hex_digit (n mod 16)]
      else [c])"

function json_escape :: "string \<Rightarrow> string" where
  "json_escape [] = []"
| "json_escape (c # cs) =
     (if byte c < 128 then json_escape_byte c @ json_escape cs
      else let n = utf8_size (c # cs) in
        if n = 0 then [ch 92] @ ''ufffd'' @ json_escape cs
        else (if take n (c # cs) = [ch 0xE2, ch 0x80, ch 0xA8] then [ch 92] @ ''u2028''
              else if take n (c # cs) = [ch 0xE2, ch 0x80, ch 0xA9] then [ch 92] @ ''u2029''
              else take n (c # cs)) @ json_escape (drop (n - 1) cs))"
  by pat_completeness auto
termination
  by (relation "measure length") auto

definition json_quote :: "string \<Rightarrow> string" where
  "json_quote s = [ch 34] @ json_escape s @ [ch 34]"

fun marshal :: "any \<Rightarrow> string option"
and marshal_list :: "any list \<Rightarrow> string list option"
and marshal_kvs :: "(string \<times> any) list \<Rightarrow> (string \<times> string) list option" where
  "marshal ANil = Some ''null''"
| "marshal (AStr s) = Some (json_quote s)"
| "marshal (AFloat x) = json_float x"
| "marshal (ABool b) = Some (if b then ''true'' else ''false'')"
| "marshal (AArr xs) = map_option (\<lambda>ts. ''['' @ strJoin '','' ts @ '']'') (marshal_list xs)"
| "marshal (AObj kvs) =
     map_option (\<lambda>ts. [ch 123] @ strJoin '','' (map (\<lambda>(k, t). json_quote k @ '':'' @ t) (sort_fields ts)) @ [ch 125])
       (marshal_kvs kvs)"
| "marshal (AFloat32 x) = json_float x"
| "marshal (AInt k n) = Some (show_int n)"
| "marshal (AJsonNumber s) = Some s"
| "marshal ANilSlice = Some ''null''"
| "marshal_list [] = Some []"
| "marshal_list (x # xs) =
     (case (marshal x, marshal_list xs) of (Some t, Some ts) \<Rightarrow> Some (t # ts) | _ \<Rightarrow> None)"
| "marshal_kvs [] = Some []"
| "marshal_kvs ((k, x) # kvs) =
     (case (marshal x, marshal_kvs kvs) of (Some t, Some ts) \<Rightarrow> Some ((k, t) # ts) | _ \<Rightarrow> None)"

subsection \<open>Trimming printed numbers\<close>

definition space_like :: "string list \<Rightarrow> bool" where
  "space_like ws \<longleftrightarrow> list_all (\<lambda>w. w \<noteq> [] \<and> (byte (hd w) \<le> 32 \<or> 128 \<le> byte (hd w))) ws"

lemma unicode_space_like: "space_like unicode_spaces" "space_like (map rev unicode_spaces)"
  by (simp_all add: space_like_def unicode_spaces_def byte_def ch_def)

lemma trimSpacesLeft_id:
  assumes "space_like ws" "s \<noteq> []" "32 < byte (hd s)" "byte (hd s) < 128"
  shows "trimSpacesLeft n ws s = s"
proof -
  have "\<not> hasPrefix s w" if "w \<in> set ws" for w
    using assms that by (cases w; cases s) (auto simp: space_like_def list_all_iff hasPrefix_def)
  then have "find (\<lambda>w. hasPrefix s w) ws = None" by (auto simp: find_None_iff)
  then show ?thesis by (cases n) simp_all
qed

lemma trimSpace_id:
  assumes "s \<noteq> []" "\<forall>c \<in> set s. 32 < byte c \<and> byte c < 128"
  shows "trimSpace s = s"
proof -
  have "hd s \<in> set s" "hd (rev s) \<in> set s" using assms(1) by (simp_all add: hd_rev)
  with assms have "trimSpacesLeft n unicode_spaces s = s"
    "trimSpacesLeft n (map rev unicode_spaces) (rev s) = rev s" for n
    by (auto intro!: trimSpacesLeft_id unicode_space_like)
  then show ?thesis by (simp only: trimSpace_def Let_def rev_rev_ident)
qed

lemma show_int_bytes: "c \<in> set (show_int n) \<Longrightarrow> 32 < byte c \<and> byte c < 128"
  by (auto simp: show_int_def byte_def is_digit_def split: if_splits dest!: show_nat_chars)

lemma show_int_nonempty [simp]: "show_int n \<noteq> []"
  by (simp add: show_int_def)

lemma trimSpace_show_int [simp]: "trimSpace (show_int n) = show_int n"
  by (intro trimSpace_id) (auto dest: show_int_bytes)

lemma blank_eq_ch: "CHR '' '' = ch n \<longleftrightarrow> n mod 256 = 32" "ch n = CHR '' '' \<longleftrightarrow> n mod 256 = 32"
proof -
  have "ch n = c \<longleftrightarrow> n mod 256 = of_char c" for c
  proof -
    have "(of_char (ch n) :: nat) = of_char c \<longleftrightarrow> n mod 256 = of_char c" by (simp add: ch_def del: of_char_eq_iff)
    then show ?thesis by (simp only: of_char_eq_iff)
  qed
  from this [of "CHR '' ''"] show "ch n = CHR '' '' \<longleftrightarrow> n mod 256 = 32" by simp
  then show "CHR '' '' = ch n \<longleftrightarrow> n mod 256 = 32" by (metis (no_types))
qed

lemma trimSpace_blank_show_int: "trimSpace (CHR '' '' # show_int n) = show_int n"
proof -
  have b: "32 < byte c \<and> byte c < 128" if "c \<in> set (show_int n)" for c
    using that by (rule show_int_bytes)
  have hd: "hd (show_int n) \<in> set (show_int n)" "hd (rev (show_int n)) \<in> set (show_int n)"
    by (simp_all add: hd_rev)
  have "find (\<lambda>w. hasPrefix (CHR '' '' # show_int n) w) unicode_spaces = Some '' ''"
    by (simp add: unicode_spaces_def hasPrefix_def blank_eq_ch)
  then have "trimSpacesLeft (Suc k) unicode_spaces (CHR '' '' # show_int n) = trimSpacesLeft k unicode_spaces (show_int n)" for k
    by simp
  moreover have "trimSpacesLeft k unicode_spaces (show_int n) = show_int n"
    "trimSpacesLeft k (map rev unicode_spaces) (rev (show_int n)) = rev (show_int n)" for k
    using b hd by (auto intro!: trimSpacesLeft_id unicode_space_like)
  ultimately show ?thesis by (simp only: trimSpace_def Let_def rev_rev_ident list.size add_Suc_right add_0_right)
qed

subsection \<open>Reading printed numbers\<close>

lemma parse_float_finite: "parse_float l = Some x \<Longrightarrow> f64_finite x"
  by (auto simp: parse_float_def Let_def split: if_splits)

lemma span_digits_all: "list_all is_digit ds \<Longrightarrow> span_digits ds = (ds, [])"
  by (induction ds) auto

lemma lit_value_digits: "list_all is_digit ds \<Longrightarrow> ds \<noteq> [] \<Longrightarrow> lit_value ds = of_int (int (digits_val ds))"
  by (cases ds) (auto simp: lit_value_def span_digits_all dest: is_digit_not_sign)

lemma hasPrefix_digits: "list_all is_digit ds \<Longrightarrow> \<not> is_digit c \<Longrightarrow> \<not> hasPrefix ds [c]"
  by (cases ds) (auto simp: hasPrefix_def)

lemma lit_value_show_int: "lit_value (show_int n) = of_int n"
proof (cases "n < 0")
  case True
  then show ?thesis
    by (simp add: show_int_def lit_value_def span_digits_all show_nat_digits)
next
  case False
  then show ?thesis by (simp add: show_int_def lit_value_digits show_nat_digits)
qed

lemma show_int_sign: "hasPrefix (show_int n) ''-'' \<longleftrightarrow> n < 0"
  using hasPrefix_digits [OF show_nat_digits, of "CHR ''-''" "nat n"]
  by (auto simp: show_int_def is_digit_def hasPrefix_def)

lemma parse_float_show_int: "\<bar>n\<bar> \<le> 2 ^ 53 \<Longrightarrow> parse_float (show_int n) = Some (Fin (of_int n))"
  using f64_of_int_exact [of n]
  by (simp add: parse_float_def lit_value_show_int show_int_sign f64_of_int_def f64_signed_def)

lemma parse_float_show_nat: "int n \<le> 2 ^ 53 \<Longrightarrow> parse_float (show_nat n) = Some (Fin (of_int (int n)))"
  using parse_float_show_int [of "int n"] by (simp add: show_int_def)

end
