(* ===== verification/Matchers.thy ===== *)
theory Matchers
  imports Go_Json
begin

text \<open>
  The assertion matchers of lib/assertions.go: \<open>MatchAssertion\<close> and the functions it
  dispatches to. A matcher is a \<open>json.RawMessage\<close> (\<open>rawmsg\<close>: its text and its tree), the
  value under test an \<open>any\<close>; the result is Go's \<open>error\<close>, \<open>None\<close> when the assertion passes.
  The error values keep the data the code's messages interpolate, not the English text.
\<close>

subsection \<open>What the code takes from its environment\<close>

text \<open>
  \<open>re_compile\<close> is \<open>regexp.Compile\<close> followed by \<open>MatchString\<close> for the patterns that test
  files supply (the package's own patterns are spelled out below). \<open>map_iter\<close> is the order in
  which \<open>range\<close> visits the keys of a map, which Go leaves open, and \<open>conv_oob\<close> the value of
  an integer conversion out of range, which Go leaves to the implementation.
\<close>

record go_env =
  re_compile :: "string \<Rightarrow> (string \<Rightarrow> bool) option"
  map_iter :: "string list \<Rightarrow> string list"
  conv_oob :: "f64 \<Rightarrow> int"

definition wf_env :: "go_env \<Rightarrow> bool" where
  "wf_env env \<longleftrightarrow> (\<forall>ks. set (map_iter env ks) = set ks)"

datatype merr =
    WrongType string any
  | Mismatch string any
  | BadMatcher string string
  | UnknownMatcher string
  | MissingField string
  | UnexpectedField string any
  | AtIndex nat merr
  | AtField string merr

subsection \<open>Type assertions\<close>

fun as_string :: "any \<Rightarrow> string option" where
  "as_string (AStr s) = Some s"
| "as_string _ = None"

fun as_array :: "any \<Rightarrow> any list option" where
  "as_array (AArr xs) = Some xs"
| "as_array ANilSlice = Some []"
| "as_array _ = None"

fun as_object :: "any \<Rightarrow> (string \<times> any) list option" where
  "as_object (AObj kvs) = Some kvs"
| "as_object _ = None"

fun toFloat64 :: "any \<Rightarrow> f64 option" where
  "toFloat64 (AFloat x) = Some x"
| "toFloat64 (AFloat32 x) = Some x"
| "toFloat64 (AInt k n) = Some (f64_of_int n)"
| "toFloat64 (AJsonNumber s) = parse_float s"
| "toFloat64 _ = None"

fun jsonType :: "any \<Rightarrow> string" where
  "jsonType (AStr s) = ''string''"
| "jsonType (AFloat x) = ''number''"
| "jsonType (ABool b) = ''boolean''"
| "jsonType ANil = ''null''"
| "jsonType (AArr xs) = ''array''"
| "jsonType ANilSlice = ''array''"
| "jsonType (AObj kvs) = ''object''"
| "jsonType (AFloat32 x) = ''float32''"
| "jsonType (AInt KInt n) = ''int''"
| "jsonType (AInt KInt64 n) = ''int64''"
| "jsonType (AInt KInt32 n) = ''int32''"
| "jsonType (AJsonNumber s) = ''json.Number''"

subsection \<open>The package's regular expressions\<close>

definition hex_lower :: "char \<Rightarrow> bool" where
  "hex_lower c \<longleftrightarrow> is_digit c \<or> (97 \<le> byte c \<and> byte c \<le> 102)"

text \<open>A pattern of fixed length is a list of character classes.\<close>

definition classes_match :: "(char \<Rightarrow> bool) list \<Rightarrow> string \<Rightarrow> bool" where
  "classes_match cls s \<longleftrightarrow> list_all2 (\<lambda>p c. p c) cls s"

definition lit :: "string \<Rightarrow> (char \<Rightarrow> bool) list" where
  "lit s = map (\<lambda>c x. x = c) s"

definition uuidPattern :: "(char \<Rightarrow> bool) list" where
  "uuidPattern =
     replicate 8 hex_lower @ lit ''-'' @ replicate 4 hex_lower @ lit ''-'' @ replicate 4 hex_lower
     @ lit ''-'' @ replicate 4 hex_lower @ lit ''-'' @ replicate 12 hex_lower"

definition uuidV7Pattern :: "(char \<Rightarrow> bool) list" where
  "uuidV7Pattern =
     replicate 8 hex_lower @ lit ''-'' @ replicate 4 hex_lower @ lit ''-7'' @ replicate 3 hex_lower
     @ lit ''-'' @ [\<lambda>c. c \<in> set ''89ab''] @ replicate 3 hex_lower @ lit ''-'' @ replicate 12 hex_lower"

definition dateTimePrefix :: "(char \<Rightarrow> bool) list" where
  "dateTimePrefix =
     replicate 4 is_digit @ lit ''-'' @ replicate 2 is_digit @ lit ''-'' @ replicate 2 is_digit @ lit ''T''
     @ replicate 2 is_digit @ lit '':'' @ replicate 2 is_digit @ lit '':'' @ replicate 2 is_digit"

text \<open>The zone that ends a date-time: \<open>Z\<close> or a signed hour and minute offset.\<close>

definition zone_match :: "string \<Rightarrow> bool" where
  "zone_match s \<longleftrightarrow>
     s = ''Z'' \<or> classes_match ([\<lambda>c. c \<in> set ''+-''] @ replicate 2 is_digit @ lit '':'' @ replicate 2 is_digit) s"

definition datetimePattern :: "string \<Rightarrow> bool" where
  "datetimePattern s \<longleftrightarrow>
     classes_match dateTimePrefix (take 19 s) \<and>
     (case drop 19 s of
        c # t \<Rightarrow>
          if c = CHR ''.'' then (let (d, r) = span_digits t in d \<noteq> [] \<and> zone_match r)
          else zone_match (c # t)
      | [] \<Rightarrow> False)"

text \<open>A decimal \<open>\d+(\.\d+)?\<close> at the front of a string; with \<open>signed\<close> also a leading minus.\<close>

definition scan_decimal :: "bool \<Rightarrow> string \<Rightarrow> (string \<times> string) option" where
  "scan_decimal signed s =
     (let (sg, t) = (case s of c # u \<Rightarrow> if signed \<and> c = CHR ''-'' then ([c], u) else ([], s) | [] \<Rightarrow> ([], s));
          (d, r) = span_digits t
      in if d = [] then None
         else case r of
                c # u \<Rightarrow>
                  if c = CHR ''.'' then
                    (let (f, q) = span_digits u in
                     if f = [] then Some (sg @ d, r) else Some (sg @ d @ c # f, q))
                  else Some (sg @ d, r)
              | [] \<Rightarrow> Some (sg @ d, r))"

definition is_re_space :: "char \<Rightarrow> bool" where
  "is_re_space c \<longleftrightarrow> byte c = 32 \<or> byte c = 9 \<or> byte c = 10 \<or> byte c = 12 \<or> byte c = 13"

definition rangePattern :: "string \<Rightarrow> (string \<times> string) option" where
  "rangePattern s =
     (case cutPrefix s ''number:range('' of
        None \<Rightarrow> None
      | Some t \<Rightarrow>
          (case scan_decimal True t of
             None \<Rightarrow> None
           | Some (a, u) \<Rightarrow>
               (case cutPrefix u '','' of
                  None \<Rightarrow> None
                | Some v \<Rightarrow>
                    (case scan_decimal True (dropWhile is_re_space v) of
                       None \<Rightarrow> None
                     | Some (b, w) \<Rightarrow> if w = '')'' then Some (a, b) else None))))"

definition lengthPattern :: "string \<Rightarrow> string option" where
  "lengthPattern s =
     (case cutPrefix s ''array:length('' of
        None \<Rightarrow> None
      | Some t \<Rightarrow> (let (d, r) = span_digits t in if d \<noteq> [] \<and> r = '')'' then Some d else None))"

definition approxPattern :: "string \<Rightarrow> string option" where
  "approxPattern s =
     (case cutPrefix s ''~'' of
        None \<Rightarrow> None
      | Some t \<Rightarrow> (case scan_decimal False t of Some (d, r) \<Rightarrow> if r = [] then Some d else None | None \<Rightarrow> None))"

text \<open>\<open>strconv.ParseFloat\<close> with its error dropped: an overflowing literal is an infinity.\<close>

definition parse_float_noerr :: "string \<Rightarrow> f64" where
  "parse_float_noerr s = f64_signed (hasPrefix s ''-'') (lit_value s)"

text \<open>\<open>strconv.Atoi\<close> of decimal digits with its error dropped: the value is clamped.\<close>

definition atoi_noerr :: "string \<Rightarrow> int" where
  "atoi_noerr ds = min (int (digits_val ds)) int64_max"

subsection \<open>String matchers\<close>

text \<open>The checks on an array's length that three prefixed matchers share.\<close>

definition matchLength :: "string \<Rightarrow> any \<Rightarrow> (nat \<Rightarrow> bool) \<Rightarrow> merr option" where
  "matchLength what a ok =
     (case as_array a of
        None \<Rightarrow> Some (WrongType what a)
      | Some arr \<Rightarrow> if ok (length arr) then None else Some (Mismatch what a))"

definition matchPattern :: "string \<Rightarrow> any \<Rightarrow> (string \<Rightarrow> bool) \<Rightarrow> merr option" where
  "matchPattern what a ok =
     (case as_string a of
        None \<Rightarrow> Some (WrongType what a)
      | Some s \<Rightarrow> if ok s then None else Some (Mismatch what a))"

definition matchNumeric :: "string \<Rightarrow> any \<Rightarrow> (f64 \<Rightarrow> bool) \<Rightarrow> merr option" where
  "matchNumeric what a ok =
     (case toFloat64 a of
        None \<Rightarrow> Some (WrongType what a)
      | Some n \<Rightarrow> if ok n then None else Some (Mismatch what a))"

definition matchRegexString :: "go_env \<Rightarrow> string \<Rightarrow> any \<Rightarrow> merr option" where
  "matchRegexString env pat a =
     (case as_string a of
        None \<Rightarrow> Some (WrongType pat a)
      | Some s \<Rightarrow>
          (case re_compile env pat of
             None \<Rightarrow> Some (BadMatcher ''regex'' pat)
           | Some re \<Rightarrow> if re s then None else Some (Mismatch pat a)))"

definition DefaultTimingTolerancePct :: int where
  "DefaultTimingTolerancePct = 50"

text \<open>The matchers with an argument, and the comparison with a literal string.\<close>

definition matchParametric :: "go_env \<Rightarrow> string \<Rightarrow> any \<Rightarrow> merr option" where
  "matchParametric env m a =
     (if hasPrefix m ''array:min_length:'' then
        (case atoi (drop 17 m) of
           None \<Rightarrow> Some (BadMatcher ''array:min_length'' (drop 17 m))
         | Some n \<Rightarrow> matchLength m a (\<lambda>k. \<not> int k < n))
      else if hasPrefix m ''array:min:'' then
        (case atoi (drop 10 m) of
           None \<Rightarrow> Some (BadMatcher ''array:min'' (drop 10 m))
         | Some n \<Rightarrow> matchLength m a (\<lambda>k. \<not> int k < n))
      else if hasPrefix m ''array:length:'' then
        (case atoi (drop 13 m) of
           None \<Rightarrow> Some (BadMatcher ''array:length'' (drop 13 m))
         | Some n \<Rightarrow> matchLength m a (\<lambda>k. int k = n))
      else if hasPrefix m ''contains:'' then
        (case as_array a of
           None \<Rightarrow> Some (WrongType m a)
         | Some arr \<Rightarrow> if list_ex (\<lambda>x. fmt_v x = drop 9 m) arr then None else Some (Mismatch m a))
      else if hasPrefix m ''not_contains:'' then
        (case as_array a of
           None \<Rightarrow> Some (WrongType m a)
         | Some arr \<Rightarrow> if list_ex (\<lambda>x. fmt_v x = drop 13 m) arr then Some (Mismatch m a) else None)
      else if hasPrefix m ''string:contains:'' then
        matchPattern m a (\<lambda>s. strContains s (drop 16 m))
      else case rangePattern m of
        Some (lo, hi) \<Rightarrow>
          matchNumeric m a
            (\<lambda>n. \<not> (f64_lt n (parse_float_noerr lo) \<or> f64_gt n (parse_float_noerr hi)))
      | None \<Rightarrow>
        (case lengthPattern m of
           Some ds \<Rightarrow> matchLength m a (\<lambda>k. int k = atoi_noerr ds)
         | None \<Rightarrow>
           (case approxPattern m of
              Some ds \<Rightarrow>
                (let expected = parse_float_noerr ds;
                     tolerance = f64_div (f64_mult expected (f64_of_int DefaultTimingTolerancePct)) (Fin 100)
                 in matchNumeric m a (\<lambda>n. \<not> f64_gt (f64_abs (f64_sub n expected)) tolerance))
            | None \<Rightarrow>
                if hasPrefix m ''string:pattern('' \<and> hasSuffix m '')'' then
                  matchRegexString env (drop 15 (butlast m)) a
                else matchPattern m a (\<lambda>s. s = m))))"

definition matchStringAssertion :: "go_env \<Rightarrow> string \<Rightarrow> any \<Rightarrow> merr option" where
  "matchStringAssertion env m a =
     (if m = ''any'' then None
      else if m = ''absent'' then (if a \<noteq> ANil then Some (Mismatch ''absent'' a) else None)
      else if m = ''exists'' then (if a = ANil then Some (Mismatch ''exists'' a) else None)
      else if m = ''string:nonempty'' \<or> m = ''string:non_empty'' then
        matchPattern ''non-empty string'' a (\<lambda>s. s \<noteq> [])
      else if m = ''string:uuid'' then matchPattern ''UUID'' a (classes_match uuidPattern)
      else if m = ''string:uuidv7'' then matchPattern ''UUIDv7'' a (classes_match uuidV7Pattern)
      else if m = ''string:datetime'' then matchPattern ''RFC 3339 datetime'' a datetimePattern
      else if m = ''number:positive'' then
        matchNumeric ''positive number'' a (\<lambda>n. \<not> f64_le n (Fin 0))
      else if m = ''number:non_negative'' then
        matchNumeric ''non-negative number'' a (\<lambda>n. \<not> f64_lt n (Fin 0))
      else if m = ''array:nonempty'' then matchLength ''non-empty array'' a (\<lambda>k. k \<noteq> 0)
      else if m = ''array:empty'' then matchLength ''empty array'' a (\<lambda>k. k = 0)
      else matchParametric env m a)"

subsection \<open>Number, range and size matchers\<close>

definition f64_is_integral :: "f64 \<Rightarrow> bool" where
  "f64_is_integral x \<longleftrightarrow> f64_eq x (f64_trunc x)"

text \<open>The constant \<open>1e-9\<close>.\<close>

definition epsilon :: f64 where
  "epsilon = f64_round (1 / 10 ^ 9)"

definition matchNumberAssertion :: "go_env \<Rightarrow> f64 \<Rightarrow> any \<Rightarrow> merr option" where
  "matchNumberAssertion env expected a =
     (case toFloat64 a of
        None \<Rightarrow> Some (WrongType ''number'' a)
      | Some n \<Rightarrow>
          if f64_is_integral expected \<and> f64_is_integral n then
            (if f64_to_int64 (conv_oob env) expected \<noteq> f64_to_int64 (conv_oob env) n
             then Some (Mismatch ''number'' a) else None)
          else if f64_gt (f64_abs (f64_sub expected n)) epsilon then Some (Mismatch ''number'' a)
          else None)"

definition matchExistsAssertion :: "(string \<times> rawmsg) list \<Rightarrow> any \<Rightarrow> merr option" where
  "matchExistsAssertion expected a =
     (case map_of expected ''$exists'' of
        None \<Rightarrow> Some (BadMatcher ''$exists'' [])
      | Some raw \<Rightarrow>
          (case un_bool (raw_tree raw) of
             None \<Rightarrow> Some (BadMatcher ''$exists'' (raw_text raw))
           | Some ex \<Rightarrow>
               if ex \<and> a = ANil then Some (Mismatch ''exists'' a)
               else if \<not> ex \<and> a \<noteq> ANil then Some (Mismatch ''not exists'' a)
               else case map_of expected ''$type'' of
                      None \<Rightarrow> None
                    | Some ty \<Rightarrow>
                        (case un_string (raw_tree ty) of
                           None \<Rightarrow> None
                         | Some expectedType \<Rightarrow>
                             if jsonType a \<noteq> expectedType then Some (WrongType expectedType a) else None)))"

definition matchRegexAssertion :: "go_env \<Rightarrow> (string \<times> rawmsg) list \<Rightarrow> any \<Rightarrow> merr option" where
  "matchRegexAssertion env expected a =
     (case map_of expected ''$match'' of
        None \<Rightarrow> Some (BadMatcher ''$match'' [])
      | Some raw \<Rightarrow>
          (case un_string (raw_tree raw) of
             None \<Rightarrow> Some (BadMatcher ''$match'' (raw_text raw))
           | Some pat \<Rightarrow> matchRegexString env pat a))"

definition matchSizeAssertion :: "(string \<times> rawmsg) list \<Rightarrow> any \<Rightarrow> merr option" where
  "matchSizeAssertion expected a =
     (case as_array a of
        None \<Rightarrow> Some (WrongType ''array for $size'' a)
      | Some arr \<Rightarrow>
          (case map_of expected ''$size'' of
             None \<Rightarrow> Some (BadMatcher ''$size'' [])
           | Some raw \<Rightarrow>
               (case un_int (raw_tree raw) of
                  Some sizeInt \<Rightarrow> if int (length arr) \<noteq> sizeInt then Some (Mismatch ''$size'' a) else None
                | None \<Rightarrow>
                    (case un_object (raw_tree raw) of
                       None \<Rightarrow> Some (BadMatcher ''$size'' (raw_text raw))
                     | Some sizeObj \<Rightarrow>
                         (case map_of sizeObj ''$gte'' of
                            None \<Rightarrow> Some (BadMatcher ''$size'' (raw_text raw))
                          | Some gteRaw \<Rightarrow>
                              (case un_int (raw_tree gteRaw) of
                                 None \<Rightarrow> Some (BadMatcher ''$size'' (raw_text raw))
                               | Some gte \<Rightarrow>
                                   if int (length arr) < gte then Some (Mismatch ''$size'' a) else None))))))"

definition range_bound :: "(string \<times> rawmsg) list \<Rightarrow> string \<Rightarrow> f64 option" where
  "range_bound obj k = (case map_of obj k of None \<Rightarrow> None | Some raw \<Rightarrow> un_float (raw_tree raw))"

definition matchRangeAssertion :: "rawmsg \<Rightarrow> any \<Rightarrow> merr option" where
  "matchRangeAssertion rangeRaw a =
     (case un_object (raw_tree rangeRaw) of
        None \<Rightarrow> Some (BadMatcher ''range'' (raw_text rangeRaw))
      | Some rangeObj \<Rightarrow>
          (case toFloat64 a of
             None \<Rightarrow> Some (WrongType ''number for range check'' a)
           | Some n \<Rightarrow>
               if (case range_bound rangeObj ''min'' of Some lo \<Rightarrow> f64_lt n lo | None \<Rightarrow> False)
               then Some (Mismatch ''range min'' a)
               else if (case range_bound rangeObj ''max'' of Some hi \<Rightarrow> f64_gt n hi | None \<Rightarrow> False)
               then Some (Mismatch ''range max'' a)
               else None))"

subsection \<open>MatchAssertion\<close>

text \<open>
  The first failing check in the order in which \<open>range\<close> visits the keys. The checks are pure
  and always return, so computing all of them and then choosing is what the early return does.
\<close>

fun firstError :: "(string \<times> merr option) list \<Rightarrow> string list \<Rightarrow> merr option" where
  "firstError kvs [] = None"
| "firstError kvs (k # ks) =
     (case map_of kvs k of Some (Some e) \<Rightarrow> Some e | _ \<Rightarrow> firstError kvs ks)"

definition has_key :: "field list \<Rightarrow> string \<Rightarrow> bool" where
  "has_key fs k \<longleftrightarrow> k \<in> field_key ` set fs"

text \<open>
  One function per loop of the code: \<open>matchElems\<close> is the positional loop of
  \<open>matchArrayAssertion\<close>, \<open>matchSome\<close> the loop over alternatives of \<open>matchInAssertion\<close> and
  \<open>matchOrAssertion\<close>, \<open>matchListKey\<close> their decoding of the list under \<open>$in\<close> or \<open>$or\<close>, and
  \<open>matchFields\<close> the loop of \<open>matchObjectAssertion\<close>.
\<close>

function (sequential) MatchAssertion :: "go_env \<Rightarrow> rawmsg \<Rightarrow> any \<Rightarrow> merr option"
and matchArrayAssertion :: "go_env \<Rightarrow> rawmsg list \<Rightarrow> any \<Rightarrow> merr option"
and matchElems :: "go_env \<Rightarrow> nat \<Rightarrow> rawmsg list \<Rightarrow> any list \<Rightarrow> merr option"
and matchSome :: "go_env \<Rightarrow> rawmsg list \<Rightarrow> any \<Rightarrow> bool"
and matchListKey :: "go_env \<Rightarrow> string \<Rightarrow> field list \<Rightarrow> any \<Rightarrow> merr option"
and matchObjectAssertion :: "go_env \<Rightarrow> field list \<Rightarrow> any \<Rightarrow> merr option"
and matchFields :: "go_env \<Rightarrow> field list \<Rightarrow> (string \<times> any) list \<Rightarrow> (string \<times> merr option) list" where
  "MatchAssertion env (Raw t j) a =
     (if t = ''null'' then (if a \<noteq> ANil then Some (Mismatch ''null'' a) else None)
      else case j of
        JNull \<Rightarrow> matchStringAssertion env [] a
      | JStr s \<Rightarrow> matchStringAssertion env s a
      | JNum l \<Rightarrow>
          (case parse_float l of
             Some x \<Rightarrow> matchNumberAssertion env x a
           | None \<Rightarrow> Some (UnknownMatcher t))
      | JBool b \<Rightarrow>
          (case a of
             ABool b' \<Rightarrow> if b' \<noteq> b then Some (Mismatch ''boolean'' a) else None
           | _ \<Rightarrow> Some (WrongType ''boolean'' a))
      | JArr es \<Rightarrow> matchArrayAssertion env es a
      | JObj fs \<Rightarrow> matchObjectAssertion env fs a)"
| "matchArrayAssertion env es a =
     (case as_array a of
        Some arr \<Rightarrow>
          if length arr \<noteq> length es then Some (Mismatch ''array length'' a)
          else matchElems env 0 es arr
      | None \<Rightarrow> Some (WrongType ''array'' a))"
| "matchElems env i [] arr = None"
| "matchElems env i (e # es) arr =
     (case arr of
        [] \<Rightarrow> None
      | x # xs \<Rightarrow>
          (case MatchAssertion env e x of
             Some err \<Rightarrow> Some (AtIndex i err)
           | None \<Rightarrow> matchElems env (Suc i) es xs))"
| "matchSome env [] a = False"
| "matchSome env (e # es) a = (MatchAssertion env e a = None \<or> matchSome env es a)"
| "matchListKey env k [] a = Some (BadMatcher k [])"
| "matchListKey env k (Field k' (Raw t j) # fs) a =
     (if k' = k \<and> \<not> has_key fs k then
        (case j of
           JArr es \<Rightarrow> if matchSome env es a then None else Some (Mismatch k a)
         | JNull \<Rightarrow> Some (Mismatch k a)
         | _ \<Rightarrow> Some (BadMatcher k t))
      else matchListKey env k fs a)"
| "matchObjectAssertion env fs a =
     (if has_key fs ''$exists'' then matchExistsAssertion (go_map fs) a
      else if has_key fs ''$match'' then matchRegexAssertion env (go_map fs) a
      else if has_key fs ''$in'' then matchListKey env ''$in'' fs a
      else if has_key fs ''$size'' then matchSizeAssertion (go_map fs) a
      else if has_key fs ''$or'' then matchListKey env ''$or'' fs a
      else if has_key fs ''$empty'' then None
      else case map_of (go_map fs) ''range'' of
        Some rangeRaw \<Rightarrow> matchRangeAssertion rangeRaw a
      | None \<Rightarrow>
          (case a of
             AObj obj \<Rightarrow>
               (let checks = matchFields env fs obj
                in firstError checks (map_iter env (map fst checks)))
           | _ \<Rightarrow> Some (WrongType ''object'' a)))"
| "matchFields env [] obj = []"
| "matchFields env (Field k e # fs) obj =
     (if has_key fs k then matchFields env fs obj
      else (k, case map_of obj k of
                 Some v \<Rightarrow>
                   if un_string (raw_tree e) = Some ''absent'' then Some (UnexpectedField k v)
                   else map_option (AtField k) (MatchAssertion env e v)
               | None \<Rightarrow>
                   if un_string (raw_tree e) = Some ''absent'' then None else Some (MissingField k))
           # matchFields env fs obj)"
  by pat_completeness auto
termination
proof (relation "measure (\<lambda>x. case x of
        Inl (Inl (e, r, a)) \<Rightarrow> 3 * size r
      | Inl (Inr (Inl (e, rs, a))) \<Rightarrow> 3 * size_list size rs + 2
      | Inl (Inr (Inr (e, i, rs, a))) \<Rightarrow> 3 * size_list size rs + 1
      | Inr (Inl (Inl (e, rs, a))) \<Rightarrow> 3 * size_list size rs + 1
      | Inr (Inl (Inr (e, k, fs, a))) \<Rightarrow> 3 * size_list size fs + 1
      | Inr (Inr (Inl (e, fs, a))) \<Rightarrow> 3 * size_list size fs + 2
      | Inr (Inr (Inr (e, fs, a))) \<Rightarrow> 3 * size_list size fs + 1)", goal_cases)
qed auto

text \<open>The entry point on a raw text: a text that is not JSON has no matcher format.\<close>

definition MatchAssertionText :: "go_env \<Rightarrow> string \<Rightarrow> any \<Rightarrow> merr option" where
  "MatchAssertionText env t a =
     (if t = ''null'' then (if a \<noteq> ANil then Some (Mismatch ''null'' a) else None)
      else case json_parse t of
        None \<Rightarrow> Some (UnknownMatcher t)
      | Some j \<Rightarrow> MatchAssertion env (Raw t j) a)"

end
