(* ===== verification/Matcher_Facts.thy ===== *)
theory Matcher_Facts
  imports Matchers
begin

text \<open>
  What the matchers of lib/assertions.go guarantee: a verdict never depends on Go's map
  iteration order; on literal documents (no matcher strings, no \<open>$\<close> operators) the verdict is
  the relation \<open>conforms\<close>, which every document has to its own decoding and whose rule for numbers
  is stated over the rationals (\<open>numbers_agree\<close>); the numeric,
  approximate, length and containment matchers mean what their names say, within the bounds
  the lemmas state.
\<close>

subsection \<open>The loops as quantifiers\<close>

lemma firstError_None [verdicts]:
  "firstError kvs ks = None \<longleftrightarrow> (\<forall>k \<in> set ks. \<forall>v. map_of kvs k = Some v \<longrightarrow> v = None)"
  by (induction ks) (auto split: option.splits)

lemma go_map_keys: "fst ` set (go_map fs) = field_key ` set fs"
  by (induction fs rule: go_map.induct) auto

lemma go_map_distinct [simp]: "distinct (map fst (go_map fs))"
proof (induction fs rule: go_map.induct)
  case (2 k v fs)
  then show ?case using go_map_keys [of fs] by (auto simp: image_iff)
qed simp

text \<open>The verdicts of the fields, one per key of the Go map.\<close>

definition field_check :: "go_env \<Rightarrow> (string \<times> any) list \<Rightarrow> string \<Rightarrow> rawmsg \<Rightarrow> merr option" where
  "field_check env obj k e =
     (case map_of obj k of
        Some v \<Rightarrow>
          if un_string (raw_tree e) = Some ''absent'' then Some (UnexpectedField k v)
          else map_option (AtField k) (MatchAssertion env e v)
      | None \<Rightarrow> if un_string (raw_tree e) = Some ''absent'' then None else Some (MissingField k))"

lemma matchFields_eq:
  "matchFields env fs obj = map (\<lambda>(k, e). (k, field_check env obj k e)) (go_map fs)"
  by (induction fs rule: go_map.induct) (auto simp: has_key_def field_check_def)

lemma matchFields_keys [simp]: "map fst (matchFields env fs obj) = map fst (go_map fs)"
  by (simp add: matchFields_eq case_prod_unfold comp_def)

lemma firstError_matchFields [verdicts]:
  assumes "wf_env env"
  shows "firstError (matchFields env fs obj) (map_iter env (map fst (matchFields env fs obj))) = None
     \<longleftrightarrow> (\<forall>(k, e) \<in> set (go_map fs). field_check env obj k e = None)"
proof -
  have "map_of (matchFields env fs obj) k = Some v \<longleftrightarrow> (\<exists>e. (k, e) \<in> set (go_map fs) \<and> v = field_check env obj k e)" for k v
    unfolding matchFields_eq
    by (subst map_of_eq_Some_iff) (auto simp: case_prod_unfold comp_def image_iff intro: rev_bexI)
  then show ?thesis
    using assms by (auto simp: firstError_None wf_env_def image_iff) (metis fst_conv)+
qed

lemma matchElems_None [verdicts]:
  "length es = length xs \<Longrightarrow>
   matchElems env i es xs = None \<longleftrightarrow> list_all2 (\<lambda>e x. MatchAssertion env e x = None) es xs"
proof (induction es arbitrary: i xs)
  case (Cons e es)
  then show ?case by (cases xs) (auto split: option.splits)
qed simp

lemma matchArray_None [verdicts]:
  "matchArrayAssertion env es a = None \<longleftrightarrow>
     (\<exists>xs. as_array a = Some xs \<and> list_all2 (\<lambda>e x. MatchAssertion env e x = None) es xs)"
  by (auto simp: matchElems_None list_all2_lengthD split: option.splits if_splits)

lemma matchSome_iff [verdicts]: "matchSome env es a \<longleftrightarrow> (\<exists>e \<in> set es. MatchAssertion env e a = None)"
  by (induction es) auto

lemma matchListKey_go_map:
  "matchListKey env k fs a =
     (case map_of (go_map fs) k of
        None \<Rightarrow> Some (BadMatcher k [])
      | Some r \<Rightarrow>
          (case raw_tree r of
             JArr es \<Rightarrow> if matchSome env es a then None else Some (Mismatch k a)
           | JNull \<Rightarrow> Some (Mismatch k a)
           | _ \<Rightarrow> Some (BadMatcher k (raw_text r))))"
proof (induction fs rule: go_map.induct)
  case (2 k' v fs)
  obtain t j where v: "v = Raw t j" by (cases v)
  have "map_of (go_map fs) k = None \<longleftrightarrow> \<not> has_key fs k"
    by (simp add: has_key_def map_of_eq_None_iff go_map_keys)
  with 2 show ?case by (cases j) (auto simp: v has_key_def)
qed simp

lemma wf_env_update: "wf_env env \<Longrightarrow> (\<And>ks. set (it ks) = set ks) \<Longrightarrow> wf_env (env\<lparr>map_iter := it\<rparr>)"
  by (simp add: wf_env_def)

lemma matchRegexString_iter: "matchRegexString (env\<lparr>map_iter := it\<rparr>) m a = matchRegexString env m a"
  by (simp add: matchRegexString_def split: option.splits)

lemma matchString_iter: "matchStringAssertion (env\<lparr>map_iter := it\<rparr>) m a = matchStringAssertion env m a"
  unfolding matchStringAssertion_def matchParametric_def matchRegexString_iter ..

lemma firstError_cong:
  assumes "map (\<lambda>(k, v). (k, v = None)) kvs = map (\<lambda>(k, v). (k, v = None)) kvs'" "set ks = set ks'"
  shows "(firstError kvs ks = None) = (firstError kvs' ks' = None)"
proof -
  have e: "map_option (\<lambda>v. v = None) (map_of kvs k) = map_option (\<lambda>v. v = None) (map_of kvs' k)" for k
    using arg_cong [OF assms(1), of "\<lambda>xs. map_of xs k"] by (simp add: map_of_map comp_def)
  have "(\<forall>v. map_of kvs k = Some v \<longrightarrow> v = None) = (\<forall>v. map_of kvs' k = Some v \<longrightarrow> v = None)" for k
    using e [of k] by (cases "map_of kvs k"; cases "map_of kvs' k") auto
  with assms(2) show ?thesis by (simp add: firstError_None)
qed

lemma matchNumber_iter: "matchNumberAssertion (env\<lparr>map_iter := it\<rparr>) x a = matchNumberAssertion env x a"
  by (simp add: matchNumberAssertion_def split: option.splits)

lemma matchRegex_iter: "matchRegexAssertion (env\<lparr>map_iter := it\<rparr>) fs a = matchRegexAssertion env fs a"
  unfolding matchRegexAssertion_def matchRegexString_iter ..


lemma matchObject_None:
  assumes "wf_env env" "\<not> has_key fs ''$exists''" "\<not> has_key fs ''$match''" "\<not> has_key fs ''$in''"
    "\<not> has_key fs ''$size''" "\<not> has_key fs ''$or''" "\<not> has_key fs ''$empty''" "\<not> has_key fs ''range''"
  shows "matchObjectAssertion env fs a = None \<longleftrightarrow>
     (\<exists>obj. a = AObj obj \<and> (\<forall>(k, e) \<in> set (go_map fs). field_check env obj k e = None))"
proof -
  have "map_of (go_map fs) ''range'' = None"
    using assms(8) by (simp add: has_key_def map_of_eq_None_iff go_map_keys)
  with assms show ?thesis
    by (auto simp: Let_def firstError_matchFields [simplified] split: any.splits)
qed

text \<open>
  The verdict of a matcher does not depend on the order in which Go ranges over a map.
\<close>

lemma MatchAssertion_iter_aux:
  fixes it :: "string list \<Rightarrow> string list"
  assumes it: "\<And>ks. set (it ks) = set ks"
  shows "wf_env env \<Longrightarrow> (MatchAssertion (env\<lparr>map_iter := it\<rparr>) r a = None) = (MatchAssertion env r a = None)"
    and "wf_env env \<Longrightarrow> (matchArrayAssertion (env\<lparr>map_iter := it\<rparr>) es a = None) = (matchArrayAssertion env es a = None)"
    and "wf_env env \<Longrightarrow> (matchElems (env\<lparr>map_iter := it\<rparr>) i es xs = None) = (matchElems env i es xs = None)"
    and "wf_env env \<Longrightarrow> matchSome (env\<lparr>map_iter := it\<rparr>) es a = matchSome env es a"
    and "wf_env env \<Longrightarrow> (matchListKey (env\<lparr>map_iter := it\<rparr>) k fs a = None) = (matchListKey env k fs a = None)"
    and "wf_env env \<Longrightarrow> (matchObjectAssertion (env\<lparr>map_iter := it\<rparr>) fs a = None) = (matchObjectAssertion env fs a = None)"
    and "wf_env env \<Longrightarrow> map (\<lambda>(k, v). (k, v = None)) (matchFields (env\<lparr>map_iter := it\<rparr>) fs obj)
           = map (\<lambda>(k, v). (k, v = None)) (matchFields env fs obj)"
proof (induction env r a and env es a and env i es xs and env es a and env k fs a and env fs a and env fs obj
    rule: MatchAssertion_matchArrayAssertion_matchElems_matchSome_matchListKey_matchObjectAssertion_matchFields.induct)
  case (1 env t j a)
  then show ?case
    by (cases j) (auto simp: matchString_iter matchNumber_iter split: option.splits)
next
  case (2 env es a)
  then show ?case by (cases "as_array a") auto
next
  case (4 env i e es arr)
  then show ?case by (auto split: list.splits option.splits)
next
  case (8 env k k' t j fs a)
  then show ?case by (cases j) auto
next
  case (9 env fs a)
  have fe: "(firstError (matchFields (env\<lparr>map_iter := it\<rparr>) fs obj)
        (it (map fst (go_map fs))) = None) =
      (firstError (matchFields env fs obj) (map_iter env (map fst (go_map fs))) = None)"
    if "map (\<lambda>(k, v). (k, v = None)) (matchFields (env\<lparr>map_iter := it\<rparr>) fs obj)
           = map (\<lambda>(k, v). (k, v = None)) (matchFields env fs obj)" for obj
    using firstError_cong [OF that] it 9(4) by (simp add: wf_env_def)
  show ?case
    using 9 by (auto simp: matchRegex_iter Let_def fe split: any.splits option.splits)
next
  case (11 env k e fs obj)
  then show ?case by (auto split: option.splits)
qed (auto)


subsection \<open>Literal documents\<close>

definition plain_string :: "string \<Rightarrow> bool" where
  "plain_string s \<longleftrightarrow>
     CHR '':'' \<notin> set s \<and> s \<notin> {''any'', ''absent'', ''exists''} \<and> \<not> hasPrefix s ''~''"

lemma plain_no_prefix: "CHR '':'' \<notin> set s \<Longrightarrow> CHR '':'' \<in> set p \<Longrightarrow> \<not> hasPrefix s p"
  by (auto simp: hasPrefix_iff)

lemma matchString_plain:
  assumes "plain_string s"
  shows "matchStringAssertion env s a = matchPattern s a (\<lambda>x. x = s)"
proof -
  have c: "CHR '':'' \<notin> set s" using assms by (simp add: plain_string_def)
  note np = plain_no_prefix [OF c]
  have "\<not> hasPrefix s ''array:min_length:''" "\<not> hasPrefix s ''array:min:''"
    "\<not> hasPrefix s ''array:length:''" "\<not> hasPrefix s ''contains:''" "\<not> hasPrefix s ''not_contains:''"
    "\<not> hasPrefix s ''string:contains:''" "\<not> hasPrefix s ''string:pattern(''"
    by (rule np; simp)+
  moreover have "rangePattern s = None" "lengthPattern s = None"
    using np by (simp_all add: rangePattern_def lengthPattern_def cutPrefix_def)
  moreover have "approxPattern s = None"
    using assms by (simp add: approxPattern_def cutPrefix_def plain_string_def)
  moreover have "s \<noteq> ''string:nonempty''" "s \<noteq> ''string:non_empty''" "s \<noteq> ''string:uuid''"
    "s \<noteq> ''string:uuidv7''" "s \<noteq> ''string:datetime''" "s \<noteq> ''number:positive''"
    "s \<noteq> ''number:non_negative''" "s \<noteq> ''array:nonempty''" "s \<noteq> ''array:empty''"
    using c by auto
  ultimately show ?thesis
    using assms by (simp add: matchStringAssertion_def matchParametric_def plain_string_def)
qed

lemma matchPattern_eq_None: "matchPattern w a (\<lambda>x. x = s) = None \<longleftrightarrow> a = AStr s"
  by (cases a) (auto simp: matchPattern_def)

definition plain_key :: "string \<Rightarrow> bool" where
  "plain_key k \<longleftrightarrow> \<not> hasPrefix k ''$'' \<and> k \<noteq> ''range''"

fun plain :: "json \<Rightarrow> bool"
and plain_raw :: "rawmsg \<Rightarrow> bool"
and plain_raws :: "rawmsg list \<Rightarrow> bool"
and plain_fields :: "field list \<Rightarrow> bool" where
  "plain JNull = True"
| "plain (JBool b) = True"
| "plain (JNum l) = (parse_float l \<noteq> None)"
| "plain (JStr s) = plain_string s"
| "plain (JArr es) = plain_raws es"
| "plain (JObj fs) = plain_fields fs"
| "plain_raw (Raw t j) = ((t = ''null'') = (j = JNull) \<and> plain j)"
| "plain_raws [] = True"
| "plain_raws (e # es) = (plain_raw e \<and> plain_raws es)"
| "plain_fields [] = True"
| "plain_fields (Field k e # fs) = (plain_key k \<and> plain_raw e \<and> plain_fields fs)"

subsection \<open>Agreement of numbers\<close>

text \<open>
  When a number of the document and a number of the value agree. Two whole numbers inside the range of
  int64 have to be equal. A whole number outside it counts as whatever its conversion to int64 yields,
  \<open>oob\<close>, which Go leaves to the platform. If one of the numbers is not whole they may differ
  by 1e-9; in double precision that is a distance below the midpoint between the \<open>float64\<close> nearest
  to 1e-9 and its successor, \<open>9671406556917035 / 2 ^ 83\<close>.
\<close>

definition tolerance :: rat where
  "tolerance = 9671406556917035 / 2 ^ 83"

definition whole :: "f64 \<Rightarrow> bool" where
  "whole x \<longleftrightarrow> x \<noteq> NaN \<and> (f64_finite x \<longrightarrow> f64_val x \<in> \<int>)"

definition in_int64_range :: "f64 \<Rightarrow> bool" where
  "in_int64_range x \<longleftrightarrow> f64_finite x \<and> - (2 ^ 63) \<le> f64_val x \<and> f64_val x < 2 ^ 63"

definition numbers_agree :: "(f64 \<Rightarrow> int) \<Rightarrow> f64 \<Rightarrow> f64 \<Rightarrow> bool" where
  "numbers_agree oob x y \<longleftrightarrow>
     (if whole x \<and> whole y then
        (if in_int64_range x \<and> in_int64_range y then f64_val x = f64_val y
         else if in_int64_range x then f64_val x = of_int (oob y)
         else if in_int64_range y then of_int (oob x) = f64_val y
         else oob x = oob y)
      else y = NaN \<or> (f64_finite y \<and> \<bar>f64_val x - f64_val y\<bar> < tolerance))"

lemma ilog2_tolerance: "2 powi (- 30) \<le> a \<Longrightarrow> a < 2 powi (- 29) \<Longrightarrow> ilog2 a = - 30"
  by (rule ilog2_unique) auto

lemma round_mag_tolerance:
  assumes "2 powi (- 30) \<le> a" "a < 2 powi (- 29)"
  shows "round_mag a = of_int (rhe (a * 2 ^ 82)) / 2 ^ 82"
proof -
  have "max (- 30 - 52) (- 1074) = (- 82 :: int)" by simp
  then have "ulp a = 2 powi (- 82)" unfolding ulp_def ilog2_tolerance [OF assms] by metis
  also have "\<dots> = 1 / 2 ^ 82" unfolding power_int_minus_divide by simp
  finally show ?thesis by (simp only: round_mag_def divide_divide_eq_right div_by_1 times_divide_eq_right mult_1_right)
qed

lemma nano_bounds: "2 powi (- 30) \<le> (1 / 10 ^ 9 :: rat)" "tolerance < 2 powi (- 29)" "(1 / 10 ^ 9 :: rat) < tolerance"
  by (simp_all add: power_int_minus_divide tolerance_def)

lemma epsilon_value: "epsilon = Fin (4835703278458517 / 2 ^ 82)"
proof -
  have "\<lfloor>1 / 10 ^ 9 * 2 ^ 82 :: rat\<rfloor> = 4835703278458516"
    by (rule floor_unique) simp_all
  then have "rhe (1 / 10 ^ 9 * 2 ^ 82) = 4835703278458517" by (simp add: rhe_def Let_def)
  moreover have "(1 / 10 ^ 9 :: rat) < 2 powi (- 29)" using nano_bounds by linarith
  ultimately have "round_mag (1 / 10 ^ 9) = 4835703278458517 / 2 ^ 82"
    using round_mag_tolerance [OF nano_bounds(1)] by simp
  then show ?thesis by (simp add: epsilon_def f64_round_pos)
qed

text \<open>A distance is at most \<open>epsilon\<close> after rounding exactly if it is below the midpoint between \<open>epsilon\<close> and the next \<open>float64\<close>.\<close>

lemma round_mag_le_epsilon:
  assumes "0 < a"
  shows "round_mag a \<le> 4835703278458517 / 2 ^ 82 \<longleftrightarrow> a < tolerance"
proof
  assume "a < tolerance"
  show "round_mag a \<le> 4835703278458517 / 2 ^ 82"
  proof (cases "a < 2 powi (- 30)")
    case True
    then have "round_mag a \<le> round_mag (1 / 10 ^ 9)"
      using nano_bounds by (intro round_mag_mono assms) linarith
    with epsilon_value show ?thesis by (simp add: epsilon_def f64_round_pos split: if_splits)
  next
    case False
    have "a < 2 powi (- 29)" using \<open>a < tolerance\<close> nano_bounds by linarith
    with False have r: "round_mag a = of_int (rhe (a * 2 ^ 82)) / 2 ^ 82" by (intro round_mag_tolerance) auto
    have "of_int (rhe (a * 2 ^ 82)) < (4835703278458518 :: rat)"
      using rhe_bounds [of "a * 2 ^ 82"] \<open>a < tolerance\<close> by (simp add: tolerance_def)
    then have "rhe (a * 2 ^ 82) \<le> 4835703278458517" by linarith
    then have "of_int (rhe (a * 2 ^ 82)) \<le> (of_int 4835703278458517 :: rat)" by (simp only: of_int_le_iff)
    then show ?thesis unfolding r by simp
  qed
next
  assume le: "round_mag a \<le> 4835703278458517 / 2 ^ 82"
  show "a < tolerance"
  proof (rule ccontr)
    assume "\<not> a < tolerance"
    then have "round_mag tolerance \<le> round_mag a" using nano_bounds by (intro round_mag_mono) (auto simp: tolerance_def)
    moreover have "round_mag tolerance = 4835703278458518 / 2 ^ 82"
    proof -
      have "\<lfloor>tolerance * 2 ^ 82\<rfloor> = 4835703278458517"
        by (rule floor_unique) (simp_all add: tolerance_def)
      then have "rhe (tolerance * 2 ^ 82) = 4835703278458518" by (simp add: rhe_def Let_def tolerance_def)
      moreover have "2 powi (- 30) \<le> tolerance" using nano_bounds by linarith
      ultimately show ?thesis using round_mag_tolerance [OF _ nano_bounds(2)] by simp
    qed
    ultimately show False using le by simp
  qed
qed

lemma round_le_epsilon: "\<not> f64_gt (f64_abs (f64_round d)) epsilon \<longleftrightarrow> \<bar>d\<bar> < tolerance"
proof -
  define e where "e = (4835703278458517 / 2 ^ 82 :: rat)"
  define huge where "huge = (2 ^ 1024 :: rat)"
  have big: "0 \<le> e" "e < huge" by (simp_all add: e_def huge_def)
  note mag = round_mag_le_epsilon [folded e_def]
  note eps = epsilon_value [folded e_def]
  note pos = f64_round_pos [folded huge_def] and neg = f64_round_neg [folded huge_def]
  consider "d = 0" | "0 < d" | "d < 0" by linarith
  then show ?thesis
  proof cases
    case 1
    have "0 < tolerance" by (simp add: tolerance_def)
    with 1 big show ?thesis by (simp add: f64_gt_def eps)
  next
    case 2
    with mag [of d] round_mag_nonneg [of d] big show ?thesis
      by (auto simp: pos f64_gt_def eps)
  next
    case 3
    with mag [of "- d"] round_mag_nonneg [of "- d"] big show ?thesis
      by (auto simp: neg f64_gt_def eps)
  qed
qed

lemma f64_integral_whole: "f64_is_integral x \<longleftrightarrow> whole x"
proof (cases x)
  case (Fin r)
  have "of_int (rat_trunc r) = r \<longleftrightarrow> r \<in> \<int>"
    by (auto simp: rat_trunc_def elim!: Ints_cases) (metis Ints_of_int minus_minus Ints_minus)+
  then show ?thesis
    by (auto simp: Fin f64_is_integral_def whole_def f64_eq_def f64_le_def)
qed (auto simp: f64_is_integral_def whole_def f64_eq_def f64_le_def)

lemma rat_trunc_of_int [simp]: "rat_trunc (of_int n) = n"
  by (simp add: rat_trunc_def)

lemma whole_to_int64:
  assumes "whole x"
  shows "of_int (f64_to_int64 oob x) = (if in_int64_range x then f64_val x else (of_int (oob x) :: rat))"
proof (cases "f64_finite x")
  case True
  then obtain n where "f64_val x = of_int n" using assms by (auto simp: whole_def elim: Ints_cases)
  moreover have "- (2 ^ 63) \<le> (of_int n :: rat) \<longleftrightarrow> - (2 ^ 63) \<le> n" "(of_int n :: rat) < 2 ^ 63 \<longleftrightarrow> n < 2 ^ 63"
    using of_int_le_iff [of "- (2 ^ 63)" n, where 'a = rat] by simp_all
  ultimately show ?thesis using True
    by (auto simp: f64_to_int64_def in_int64_range_def in_int64_def int64_min_def int64_max_def)
qed (simp add: f64_to_int64_def in_int64_range_def)

text \<open>The number matcher decides agreement.\<close>

lemma matchNumber_agree:
  assumes "f64_finite x" "toFloat64 a = Some y"
  shows "matchNumberAssertion env x a = None \<longleftrightarrow> numbers_agree (conv_oob env) x y"
proof -
  have int: "f64_to_int64 oob x = f64_to_int64 oob y \<longleftrightarrow>
      (if in_int64_range x then f64_val x else of_int (oob x)) =
      (if in_int64_range y then f64_val y else (of_int (oob y) :: rat))" if "whole x" "whole y" for oob
    using whole_to_int64 [OF that(1), of oob] whole_to_int64 [OF that(2), of oob]
    by (metis of_int_eq_iff)
  have sub: "\<not> f64_gt (f64_abs (f64_sub x y)) epsilon \<longleftrightarrow>
      y = NaN \<or> (f64_finite y \<and> \<bar>f64_val x - f64_val y\<bar> < tolerance)"
  proof (cases "f64_finite y")
    case True
    have "f64_abs (f64_signed b d) = f64_abs (f64_round d)" for b d
      by (simp add: f64_signed_def)
    with True assms(1) round_le_epsilon show ?thesis
      by (cases y) (auto simp: f64_sub_def)
  next
    case False
    then show ?thesis using assms(1)
      by (cases y) (auto simp: f64_sub_def f64_gt_def epsilon_value)
  qed
  show ?thesis
    using int sub assms(2) unfolding matchNumberAssertion_def numbers_agree_def f64_integral_whole
    by auto
qed

lemma matchNumber_not_number: "toFloat64 a = None \<Longrightarrow> matchNumberAssertion env x a \<noteq> None"
  by (simp add: matchNumberAssertion_def)

subsection \<open>Conformance to a literal document\<close>

text \<open>
  What a literal document asks of a value: the same null, boolean or string, a number that agrees, an array
  of the same length that conforms element by element, an object with at least these fields.
\<close>

inductive conforms :: "go_env \<Rightarrow> json \<Rightarrow> any \<Rightarrow> bool" for env where
  c_null: "conforms env JNull ANil"
| c_bool: "conforms env (JBool b) (ABool b)"
| c_num: "parse_float l = Some x \<Longrightarrow> toFloat64 a = Some y \<Longrightarrow> numbers_agree (conv_oob env) x y
    \<Longrightarrow> conforms env (JNum l) a"
| c_str: "conforms env (JStr s) (AStr s)"
| c_arr: "list_all2 (\<lambda>e x. conforms env (raw_tree e) x) es xs \<Longrightarrow> as_array a = Some xs
    \<Longrightarrow> conforms env (JArr es) a"
| c_obj: "(\<And>k e. (k, e) \<in> set (go_map fs) \<Longrightarrow> \<exists>v. map_of obj k = Some v \<and> conforms env (raw_tree e) v)
    \<Longrightarrow> conforms env (JObj fs) (AObj obj)"

inductive_simps conforms_simps:
  "conforms env JNull a" "conforms env (JBool b) a" "conforms env (JNum l) a"
  "conforms env (JStr s) a" "conforms env (JArr es) a" "conforms env (JObj fs) a"

lemma plain_raws_mem: "plain_raws es \<Longrightarrow> e \<in> set es \<Longrightarrow> plain_raw e"
  by (induction es) auto

lemma plain_fields_keys: "plain_fields fs \<Longrightarrow> k \<in> field_key ` set fs \<Longrightarrow> plain_key k"
  by (induction fs rule: go_map.induct) auto

lemma plain_fields_go_map: "plain_fields fs \<Longrightarrow> (k, e) \<in> set (go_map fs) \<Longrightarrow> plain_key k \<and> plain_raw e"
  by (induction fs rule: go_map.induct) (auto split: if_splits)

lemma plain_not_absent: "plain_raw e \<Longrightarrow> un_string (raw_tree e) \<noteq> Some ''absent''"
  by (cases e; cases "raw_tree e") (auto simp: plain_string_def)

lemma go_map_size: "(k, e) \<in> set (go_map fs) \<Longrightarrow> size e < size_list size fs"
  by (induction fs rule: go_map.induct) (auto split: if_splits)

text \<open>On a literal document the matcher decides conformance.\<close>

lemma MatchAssertion_plain:
  assumes "wf_env env"
  shows "plain_raw r \<Longrightarrow> MatchAssertion env r a = None \<longleftrightarrow> conforms env (raw_tree r) a"
proof (induction "size r" arbitrary: r a rule: less_induct)
  case less
  obtain t j where r: "r = Raw t j" by (cases r)
  have IH: "MatchAssertion env e x = None \<longleftrightarrow> conforms env (raw_tree e) x"
    if "size e < size r" "plain_raw e" for e x
    using less.hyps that by blast
  show ?case
  proof (cases j)
    case JNull
    then show ?thesis using less.prems by (simp add: r conforms_simps)
  next
    case (JBool b)
    then show ?thesis using less.prems by (auto simp: r conforms_simps split: any.splits)
  next
    case (JNum l)
    then obtain x where x: "parse_float l = Some x" using less.prems by (auto simp: r)
    then have "matchNumberAssertion env x a = None \<longleftrightarrow> (\<exists>y. toFloat64 a = Some y \<and> numbers_agree (conv_oob env) x y)"
      using matchNumber_agree [OF parse_float_finite [OF x]]
      by (cases "toFloat64 a") (auto simp: matchNumber_not_number)
    with x show ?thesis using less.prems JNum by (simp add: r conforms_simps split: option.splits)
  next
    case (JStr s)
    then show ?thesis
      using less.prems by (simp add: r conforms_simps matchString_plain matchPattern_eq_None)
  next
    case (JArr es)
    have "MatchAssertion env e x = None \<longleftrightarrow> conforms env (raw_tree e) x" if "e \<in> set es" for e x
    proof (rule IH)
      show "size e < size r" using size_list_estimation' [OF that, of "size e" size] by (simp add: r JArr)
      show "plain_raw e" using less.prems that by (auto simp: r JArr intro: plain_raws_mem)
    qed
    then have "list_all2 (\<lambda>e x. MatchAssertion env e x = None) es xs \<longleftrightarrow>
        list_all2 (\<lambda>e x. conforms env (raw_tree e) x) es xs" for xs
      by (intro list.rel_cong) auto
    then show ?thesis using less.prems by (auto simp: r JArr conforms_simps matchArray_None simp del: matchArrayAssertion.simps)
  next
    case (JObj fs)
    have pf: "plain_fields fs" and t: "t \<noteq> ''null''" using less.prems by (auto simp: r JObj)
    have nokey: "\<not> has_key fs k" if "\<not> plain_key k" for k
      using plain_fields_keys [OF pf] that by (auto simp: has_key_def)
    have fc: "field_check env obj k e = None \<longleftrightarrow> (\<exists>v. map_of obj k = Some v \<and> conforms env (raw_tree e) v)"
      if "(k, e) \<in> set (go_map fs)" for obj k e
    proof -
      have pe: "plain_raw e" using plain_fields_go_map [OF pf that] by simp
      have "size e < size r" using go_map_size [OF that] by (simp add: r JObj)
      then show ?thesis
        using IH pe plain_not_absent [OF pe] by (auto simp: field_check_def split: option.splits)
    qed
    define fields_ok where "fields_ok obj = (\<forall>(k, e) \<in> set (go_map fs). field_check env obj k e = None)" for obj
    have obj: "matchObjectAssertion env fs a = None \<longleftrightarrow> (\<exists>obj. a = AObj obj \<and> fields_ok obj)"
      unfolding fields_ok_def
      using assms by (intro matchObject_None nokey) (simp_all add: plain_key_def hasPrefix_def)
    have ok: "fields_ok obj \<longleftrightarrow> (\<forall>k e. (k, e) \<in> set (go_map fs) \<longrightarrow> field_check env obj k e = None)" for obj
      by (auto simp: fields_ok_def)
    have "(\<exists>obj. a = AObj obj \<and> fields_ok obj) \<longleftrightarrow> conforms env (JObj fs) a"
      unfolding conforms_simps ok using fc by (simp cong: imp_cong)
    with obj show ?thesis using t by (simp add: r JObj del: matchObjectAssertion.simps)
  qed
qed

lemma numbers_agree_self: "f64_finite x \<Longrightarrow> numbers_agree oob x x"
  by (auto simp: numbers_agree_def tolerance_def)

lemma anys_of_raws_map: "anys_of_raws es = map (\<lambda>e. any_of_json (raw_tree e)) es"
proof (induction es)
  case (Cons e es)
  then show ?case by (cases e) simp
qed simp

lemma any_fields_map: "any_fields fs = map (\<lambda>(k, e). (k, any_of_json (raw_tree e))) (go_map fs)"
proof (induction fs rule: go_map.induct)
  case (2 k v fs)
  then show ?case by (cases v) simp
qed simp

lemma map_of_any_fields: "(k, e) \<in> set (go_map fs) \<Longrightarrow> map_of (any_fields fs) k = Some (any_of_json (raw_tree e))"
proof -
  assume "(k, e) \<in> set (go_map fs)"
  then have "map_of (go_map fs) k = Some e" by simp
  then show ?thesis by (simp add: any_fields_map map_of_map)
qed

lemma conforms_self: "plain_raw r \<Longrightarrow> conforms env (raw_tree r) (any_of_json (raw_tree r))"
proof (induction "size r" arbitrary: r rule: less_induct)
  case less
  obtain t j where r: "r = Raw t j" by (cases r)
  show ?case
  proof (cases j)
    case (JNum l)
    then obtain x where x: "parse_float l = Some x" using less.prems by (auto simp: r)
    with x show ?thesis by (simp add: r JNum conforms_simps numbers_agree_self parse_float_finite)
  next
    case (JArr es)
    have "conforms env (raw_tree e) (any_of_json (raw_tree e))" if "e \<in> set es" for e
    proof (rule less.hyps)
      show "size e < size r" using size_list_estimation' [OF that, of "size e" size] by (simp add: r JArr)
      show "plain_raw e" using less.prems that by (auto simp: r JArr intro: plain_raws_mem)
    qed
    then show ?thesis
      by (auto simp: r JArr conforms_simps anys_of_raws_map list_all2_conv_all_nth)
  next
    case (JObj fs)
    have "conforms env (raw_tree e) (any_of_json (raw_tree e))" if "(k, e) \<in> set (go_map fs)" for k e
    proof (rule less.hyps)
      show "size e < size r" using go_map_size [OF that] by (simp add: r JObj)
      show "plain_raw e" using less.prems that by (auto simp: r JObj dest: plain_fields_go_map)
    qed
    then show ?thesis by (auto simp: r JObj conforms_simps dest: map_of_any_fields)
  qed (auto simp: r conforms_simps)
qed

subsection \<open>Numbers\<close>

lemma integral_Fin_of_int [simp]: "f64_is_integral (Fin (of_int n))"
  by (simp add: f64_is_integral_def f64_eq_def f64_le_def)

lemma in_int64_small: "\<bar>n\<bar> \<le> 2 ^ 53 \<Longrightarrow> in_int64 n"
  by (simp add: in_int64_def int64_min_def int64_max_def abs_le_iff)

lemma matchNumber_ints:
  assumes "\<bar>p\<bar> \<le> 2 ^ 53" "\<bar>q\<bar> \<le> 2 ^ 53"
  shows "matchNumberAssertion env (f64_of_int p) (AFloat (f64_of_int q)) = None \<longleftrightarrow> p = q"
  using assms
  by (simp add: matchNumberAssertion_def f64_of_int_exact f64_to_int64_def in_int64_small)

lemma matchNumber_oob:
  assumes "f64_is_integral x" "f64_is_integral y" "conv_oob env = (\<lambda>_. c)"
    "\<not> in_int64 (rat_trunc (f64_val x))" "\<not> in_int64 (rat_trunc (f64_val y))"
  shows "matchNumberAssertion env x (AFloat y) = None"
  using assms by (simp add: matchNumberAssertion_def f64_to_int64_def)

subsection \<open>Approximate matches and aliases\<close>

lemma span_digits_stop:
  "list_all is_digit ds \<Longrightarrow> \<not> is_digit c \<Longrightarrow> span_digits (ds @ c # r) = (ds, c # r)"
  by (induction ds) auto

lemma approxPattern_show: "approxPattern (''~'' @ show_nat n) = Some (show_nat n)"
proof -
  have "scan_decimal False (show_nat n) = Some (show_nat n, [])"
    using show_nat_digits [of n]
    by (cases "show_nat n") (auto simp: scan_decimal_def span_digits_all)
  then show ?thesis by (simp add: approxPattern_def cutPrefix_def hasPrefix_def)
qed

lemma tilde_dispatch:
  assumes "m = CHR ''~'' # ds"
  shows "matchStringAssertion env m a =
    (case approxPattern m of
       Some ds \<Rightarrow>
         (let expected = parse_float_noerr ds;
              tolerance = f64_div (f64_mult expected (f64_of_int DefaultTimingTolerancePct)) (Fin 100)
          in matchNumeric m a (\<lambda>n. \<not> f64_gt (f64_abs (f64_sub n expected)) tolerance))
     | None \<Rightarrow> matchPattern m a (\<lambda>s. s = m))"
  unfolding matchStringAssertion_def matchParametric_def
  by (simp add: assms hasPrefix_def rangePattern_def lengthPattern_def cutPrefix_def)


text \<open>For a natural number the tolerance of \<open>~\<close> is exactly half of it.\<close>

lemma f64_half:
  assumes "0 \<le> e" "e \<le> 2 ^ 46"
  shows "f64_div (f64_mult (Fin (of_int e)) (Fin 50)) (Fin 100) = Fin (of_int e / 2)"
proof -
  have "f64_round (of_int e * 50) = Fin (of_int (e * 50))"
    using f64_of_int_exact [of "e * 50"] assms by (simp add: f64_of_int_def)
  moreover have "f64_round (of_int e / 2) = Fin (of_int e / 2)"
    using f64_round_dyadic [of e "-1"] assms by simp
  moreover have "(of_int e * 50) / 100 = (of_int e / 2 :: rat)" by simp
  ultimately show ?thesis
    using assms by (simp add: f64_mult_def f64_div_def f64_neg_sign_def f64_signed_def Let_def)
qed

lemma approx_iff:
  assumes "int e \<le> 2 ^ 46" "\<bar>x\<bar> \<le> 2 ^ 52"
  shows "matchStringAssertion env (''~'' @ show_nat e) (AFloat (f64_of_int x)) = None
    \<longleftrightarrow> 2 * \<bar>x - int e\<bar> \<le> int e"
proof -
  have pf: "parse_float_noerr (show_nat e) = Fin (of_int (int e))"
    using assms f64_of_int_exact [of "int e"]
    by (simp add: parse_float_noerr_def lit_value_digits show_nat_digits f64_of_int_def
        hasPrefix_digits is_digit_def f64_signed_def)
  have half: "f64_div (f64_mult (Fin (of_int (int e))) (f64_of_int DefaultTimingTolerancePct)) (Fin 100)
      = Fin (of_int (int e) / 2)"
    using f64_half [of "int e"] f64_of_int_exact [of 50] assms by (simp add: DefaultTimingTolerancePct_def)
  have fx: "f64_of_int x = Fin (of_int x)" using f64_of_int_exact [of x] assms by simp
  have sub: "f64_sub (Fin (of_int x)) (Fin (of_int (int e))) = Fin (of_int (x - int e))"
    using f64_of_int_exact [of "x - int e"] assms
    by (simp add: f64_sub_def f64_signed_def f64_of_int_def)
  have "matchStringAssertion env (''~'' @ show_nat e) (AFloat (f64_of_int x)) = None
     \<longleftrightarrow> \<bar>of_int (x - int e)\<bar> \<le> (of_int (int e) / 2 :: rat)"
    using approxPattern_show [of e]
    by (simp add: tilde_dispatch pf half [simplified] Let_def matchNumeric_def fx sub [simplified] f64_gt_def not_less)
  also have "\<dots> \<longleftrightarrow> (of_int (2 * \<bar>x - int e\<bar>) :: rat) \<le> of_int (int e)"
    by (simp add: field_simps)
  also have "\<dots> \<longleftrightarrow> 2 * \<bar>x - int e\<bar> \<le> int e"
    by (rule of_int_le_iff)
  finally show ?thesis .
qed



subsection \<open>Properties\<close>

definition sample_env :: go_env where
  "sample_env = \<lparr>re_compile = (\<lambda>_. None), map_iter = (\<lambda>ks. ks), conv_oob = (\<lambda>_. int64_min)\<rparr>"

lemma wf_sample_env [simp]: "wf_env sample_env"
  by (simp add: wf_env_def sample_env_def)

definition sample_doc :: rawmsg where
  "sample_doc = Raw ''{...}'' (JObj [Field ''id'' (Raw ''7'' (JNum ''7'')),
     Field ''tags'' (Raw ''[...]'' (JArr [Raw ''...'' (JStr ''a''), Raw ''null'' JNull]))])"

lemma parse_float_7: "parse_float ''7'' = Some (Fin 7)"
  using parse_float_show_nat [of 7] by (simp add: go_strings)

lemma plain_sample_doc: "plain_raw sample_doc"
  by (simp add: sample_doc_def plain_key_def plain_string_def hasPrefix_def parse_float_7)

definition sample_value :: "rat \<Rightarrow> any" where
  "sample_value q = AObj [(''id'', AFloat (Fin q)), (''tags'', AArr [AStr ''a'', ANil])]"

lemma sample_not_whole: "\<not> whole (Fin (7 + 1 / 2 ^ 31))" "\<not> whole (Fin (7 + 1 / 2 ^ 29))"
proof -
  have no: "(7 + d :: rat) \<notin> \<int>" if "0 < d" "d < 1" for d :: rat
  proof
    assume "7 + d \<in> \<int>"
    then obtain n where "7 + d = of_int n" by (rule Ints_cases)
    with that have "(7 :: rat) < of_int n" "(of_int n :: rat) < 8" by linarith+
    then show False by simp
  qed
  show "\<not> whole (Fin (7 + 1 / 2 ^ 31))" "\<not> whole (Fin (7 + 1 / 2 ^ 29))"
    unfolding whole_def f64_val.simps using no [of "1 / 2 ^ 31"] no [of "1 / 2 ^ 29"] by auto
qed

lemma sample_numbers_agree:
  "numbers_agree oob (Fin 7) (Fin (7 + 1 / 2 ^ 31))" "\<not> numbers_agree oob (Fin 7) (Fin (7 + 1 / 2 ^ 29))"
  unfolding numbers_agree_def using sample_not_whole by (simp_all only: tolerance_def) simp_all

lemma sample_doc_conforms:
  "conforms env (raw_tree sample_doc) (sample_value q) \<longleftrightarrow> numbers_agree (conv_oob env) (Fin 7) (Fin q)"
  "\<not> conforms env (raw_tree sample_doc) (AObj [])"
  by (auto simp: sample_doc_def sample_value_def conforms_simps parse_float_7)

text \<open>C4. Go visits the entries of a map in an unspecified order; the verdict of a matcher does not depend
  on it, although the error it reports does.\<close>

theorem match_order_independent:
  assumes "wf_env env" "\<And>ks. set (it ks) = set ks"
  shows "MatchAssertion (env\<lparr>map_iter := it\<rparr>) r a = None \<longleftrightarrow> MatchAssertion env r a = None"
  using MatchAssertion_iter_aux(1) [of it env r a] assms by simp

theorem match_order_independent_witness:
  "(MatchAssertion (sample_env\<lparr>map_iter := rev\<rparr>) sample_doc (AObj []) = None) =
   (MatchAssertion sample_env sample_doc (AObj []) = None)"
  by (rule match_order_independent) simp_all

text \<open>C2. On a literal matcher document (no operator keys and no matcher strings) the matcher refines its
  specification: it accepts exactly the values that conform to the document. Null, booleans and
  strings have to be the same, arrays conform element by element at the same length, objects have
  at least the listed fields with values that conform. Two whole numbers inside the range of int64
  have to be equal, a whole number outside it counts as whatever the platform converts it to, and
  if one of two numbers is not whole they have to be less than 9671406556917035 / 2^83 apart,
  which is 1e-9 as double precision rounds it (a NaN, which no JSON text denotes, agrees with
  every number).\<close>

theorem match_literal_iff_conforms:
  assumes "wf_env env" "plain_raw r"
  shows "MatchAssertion env r a = None \<longleftrightarrow> conforms env (raw_tree r) a"
  using assms by (rule MatchAssertion_plain)

theorem match_literal_iff_conforms_witness:
  "MatchAssertion sample_env sample_doc (sample_value (7 + 1 / 2 ^ 31)) = None
   \<and> MatchAssertion sample_env sample_doc (sample_value (7 + 1 / 2 ^ 29)) \<noteq> None
   \<and> MatchAssertion sample_env sample_doc (AObj []) \<noteq> None"
  unfolding match_literal_iff_conforms [OF wf_sample_env plain_sample_doc] sample_doc_conforms(1)
  using sample_numbers_agree sample_doc_conforms(2) by blast

theorem match_literal_self:
  assumes "wf_env env" "plain_raw r"
  shows "MatchAssertion env r (any_of_json (raw_tree r)) = None"
  by (simp add: MatchAssertion_plain conforms_self assms)

theorem match_literal_self_witness:
  "MatchAssertion sample_env sample_doc
     (AObj [(''id'', AFloat (Fin 7)), (''tags'', AArr [AStr ''a'', ANil])]) = None"
  using match_literal_self [OF wf_sample_env plain_sample_doc]
  by (simp add: sample_doc_def parse_float_7)

text \<open>C37. Integers up to 2^53 in magnitude, which a float64 represents exactly, match exactly if they are
  equal.\<close>

theorem match_integers_exact:
  assumes "\<bar>p\<bar> \<le> 2 ^ 53" "\<bar>q\<bar> \<le> 2 ^ 53"
  shows "matchNumberAssertion env (f64_of_int p) (AFloat (f64_of_int q)) = None \<longleftrightarrow> p = q"
  using assms by (rule matchNumber_ints)

theorem match_integers_exact_witness:
  "(matchNumberAssertion sample_env (f64_of_int 9007199254740992) (AFloat (f64_of_int 9007199254740991)) = None)
    = ((9007199254740992 :: int) = 9007199254740991)"
  by (rule match_integers_exact) simp_all

theorem match_huge_integers_collide:
  assumes "f64_is_integral x" "f64_is_integral y" "conv_oob env = (\<lambda>_. int64_min)"
    "\<not> in_int64 (rat_trunc (f64_val x))" "\<not> in_int64 (rat_trunc (f64_val y))"
  shows "matchNumberAssertion env x (AFloat y) = None"
  using assms by (rule matchNumber_oob)

theorem match_huge_integers_collide_witness:
  "matchNumberAssertion sample_env (Fin (of_int (10 ^ 19))) (AFloat (Fin (of_int (- (10 ^ 25))))) = None"
  by (rule match_huge_integers_collide [OF integral_Fin_of_int integral_Fin_of_int])
    (simp_all only: f64_val.simps rat_trunc_of_int, simp_all add: sample_env_def in_int64_def int64_min_def int64_max_def)

theorem match_approx_within_half:
  assumes "int e \<le> 2 ^ 46" "\<bar>x\<bar> \<le> 2 ^ 52"
  shows "matchStringAssertion env (''~'' @ show_nat e) (AFloat (f64_of_int x)) = None
    \<longleftrightarrow> 2 * \<bar>x - int e\<bar> \<le> int e"
  using assms by (rule approx_iff)

theorem match_approx_within_half_witness:
  "(matchStringAssertion sample_env (''~'' @ show_nat 1000) (AFloat (f64_of_int 1500)) = None)
     = (2 * \<bar>1500 - int 1000\<bar> \<le> int 1000)"
  by (rule match_approx_within_half) simp_all

lemma hex_digit_lower: "is_digit c \<Longrightarrow> hex_lower c"
  by (simp add: hex_lower_def)

lemma classes_match_mono:
  "classes_match ps s \<Longrightarrow> list_all2 (\<lambda>p q. \<forall>c. p c \<longrightarrow> q c) ps qs \<Longrightarrow> classes_match qs s"
  unfolding classes_match_def
  by (auto simp: list_all2_conv_all_nth)

lemma uuidV7_is_uuid: "classes_match uuidV7Pattern s \<Longrightarrow> classes_match uuidPattern s"
  by (erule classes_match_mono)
    (auto simp: uuidV7Pattern_def uuidPattern_def lit_def numeral_eq_Suc hex_lower_def is_digit_def byte_def)

lemma matchString_uuid [verdicts]:
  "matchStringAssertion env ''string:uuid'' a = matchPattern ''UUID'' a (classes_match uuidPattern)"
  "matchStringAssertion env ''string:uuidv7'' a = matchPattern ''UUIDv7'' a (classes_match uuidV7Pattern)"
  by (simp_all add: matchStringAssertion_def matchParametric_def)

lemma matchPattern_None [verdicts]: "matchPattern w a ok = None \<longleftrightarrow> (\<exists>s. a = AStr s \<and> ok s)"
  by (cases a) (auto simp: matchPattern_def)

lemma matchLength_None [verdicts]: "matchLength w a ok = None \<longleftrightarrow> (\<exists>xs. as_array a = Some xs \<and> ok (length xs))"
  by (cases a) (auto simp: matchLength_def)

theorem match_uuidv7_is_uuid:
  assumes "matchStringAssertion env ''string:uuidv7'' a = None"
  shows "matchStringAssertion env ''string:uuid'' a = None"
  using assms by (auto simp: verdicts intro: uuidV7_is_uuid)

theorem match_uuidv7_is_uuid_witness:
  "matchStringAssertion sample_env ''string:uuid'' (AStr ''0190a5c0-0000-7abc-8def-0123456789ab'') = None"
proof (rule match_uuidv7_is_uuid)
  show "matchStringAssertion sample_env ''string:uuidv7'' (AStr ''0190a5c0-0000-7abc-8def-0123456789ab'') = None"
    by (simp add: matchString_uuid matchPattern_def classes_match_def uuidV7Pattern_def lit_def
        numeral_eq_Suc hex_lower_def is_digit_def byte_def)
qed

lemma cutPrefix_append [simp]: "cutPrefix (p @ s) p = Some s"
  by (simp add: cutPrefix_def)

lemma in_int64_nat: "int n \<le> int64_max \<Longrightarrow> in_int64 (int n)"
  by (simp add: in_int64_def int64_min_def)

lemma atoi_show_nat: "int n \<le> int64_max \<Longrightarrow> atoi (show_nat n) = Some (int n)"
  by (simp add: atoi_digits show_nat_digits in_int64_nat)

lemma matchString_array_prefixed:
  "matchStringAssertion env (''array:length:'' @ ds) a =
     (case atoi ds of None \<Rightarrow> Some (BadMatcher ''array:length'' ds)
      | Some n \<Rightarrow> matchLength (''array:length:'' @ ds) a (\<lambda>k. int k = n))"
  "matchStringAssertion env (''array:min:'' @ ds) a =
     (case atoi ds of None \<Rightarrow> Some (BadMatcher ''array:min'' ds)
      | Some n \<Rightarrow> matchLength (''array:min:'' @ ds) a (\<lambda>k. \<not> int k < n))"
  "matchStringAssertion env (''array:min_length:'' @ ds) a =
     (case atoi ds of None \<Rightarrow> Some (BadMatcher ''array:min_length'' ds)
      | Some n \<Rightarrow> matchLength (''array:min_length:'' @ ds) a (\<lambda>k. \<not> int k < n))"
  by (simp_all add: matchStringAssertion_def matchParametric_def hasPrefix_def split: option.split)

lemma span_digits_show_nat: "\<not> is_digit c \<Longrightarrow> span_digits (show_nat n @ [c]) = (show_nat n, [c])"
  using span_digits_stop [of "show_nat n" c "[]"] by (simp add: show_nat_digits)

lemma matchString_array_length_paren:
  assumes "int n \<le> int64_max"
  shows "matchStringAssertion env (''array:length('' @ show_nat n @ '')'') a =
     matchLength (''array:length('' @ show_nat n @ '')'') a (\<lambda>k. k = n)"
proof -
  have "lengthPattern (''array:length('' @ show_nat n @ '')'') = Some (show_nat n)"
    unfolding lengthPattern_def cutPrefix_append
    by (simp add: span_digits_show_nat is_digit_def)
  moreover have "rangePattern (''array:length('' @ show_nat n @ '')'') = None"
    by (simp add: rangePattern_def cutPrefix_def hasPrefix_def)
  ultimately show ?thesis
    using assms unfolding matchStringAssertion_def matchParametric_def
    by (simp add: hasPrefix_def atoi_noerr_def)
qed

theorem match_array_length:
  assumes "int n \<le> int64_max"
  shows "(matchStringAssertion env (''array:length:'' @ show_nat n) a = None \<longleftrightarrow>
           (\<exists>xs. as_array a = Some xs \<and> length xs = n))
    \<and> (matchStringAssertion env (''array:length('' @ show_nat n @ '')'') a = None \<longleftrightarrow>
           (\<exists>xs. as_array a = Some xs \<and> length xs = n))
    \<and> (matchStringAssertion env (''array:min_length:'' @ show_nat n) a = None \<longleftrightarrow>
           (\<exists>xs. as_array a = Some xs \<and> n \<le> length xs))
    \<and> (matchStringAssertion env (''array:min:'' @ show_nat n) a = None \<longleftrightarrow>
           (\<exists>xs. as_array a = Some xs \<and> n \<le> length xs))"
  using assms
  by (simp_all only: matchString_array_prefixed matchString_array_length_paren atoi_show_nat
      option.case verdicts) (auto simp: not_less)

theorem match_array_length_witness:
  "matchStringAssertion sample_env (''array:length('' @ show_nat 2 @ '')'') (AArr [ANil, ABool True]) = None
   \<and> matchStringAssertion sample_env (''array:min:'' @ show_nat 3) (AArr [ANil, ABool True]) \<noteq> None"
  using match_array_length [of 2 sample_env "AArr [ANil, ABool True]"]
    match_array_length [of 3 sample_env "AArr [ANil, ABool True]"]
  by (simp add: int64_max_def)

lemma matchString_contains:
  "matchStringAssertion env (''contains:'' @ e) a =
     (case as_array a of None \<Rightarrow> Some (WrongType (''contains:'' @ e) a)
      | Some arr \<Rightarrow> if list_ex (\<lambda>x. fmt_v x = e) arr then None else Some (Mismatch (''contains:'' @ e) a))"
  "matchStringAssertion env (''not_contains:'' @ e) a =
     (case as_array a of None \<Rightarrow> Some (WrongType (''not_contains:'' @ e) a)
      | Some arr \<Rightarrow> if list_ex (\<lambda>x. fmt_v x = e) arr then Some (Mismatch (''not_contains:'' @ e) a) else None)"
  by (simp_all add: matchStringAssertion_def matchParametric_def hasPrefix_def split: option.split)

theorem match_contains_complement:
  "(matchStringAssertion env (''contains:'' @ e) a = None \<longleftrightarrow>
     (\<exists>xs. as_array a = Some xs \<and> e \<in> fmt_v ` set xs))
   \<and> (matchStringAssertion env (''not_contains:'' @ e) a = None \<longleftrightarrow>
     (\<exists>xs. as_array a = Some xs \<and> matchStringAssertion env (''contains:'' @ e) a \<noteq> None))"
  unfolding matchString_contains by (cases a; auto simp: list_ex_iff image_iff)+

lemma f64_round_small_int: "\<bar>n\<bar> \<le> 2 ^ 53 \<Longrightarrow> f64_round (of_int n) = Fin (of_int n)"
  using f64_of_int_exact by (simp add: f64_of_int_def)

lemma ilog10_samples: "ilog10 1000000 = 6" "ilog10 100000 = 5"
  by (simp_all add: ilog10.simps)

lemmas decimal_defs = shortest_def dec_candidates_def dec_unit_def ilog10_samples strip_zeros_def
  fmt_pos_g_def fmt_e_def fmt_f_def fmt_exp_def

lemma fmt_v_million: "fmt_v (AFloat (Fin 1000000)) = ''1e+06''"
proof -
  have "f64_round 1000000 = Fin 1000000" "f64_round 2000000 = Fin 2000000"
    using f64_round_small_int [of 1000000] f64_round_small_int [of 2000000] by simp_all
  then show ?thesis by (simp add: decimal_defs Let_def go_strings)
qed

lemma fmt_v_100k: "fmt_v (AFloat (Fin 100000)) = ''100000''"
proof -
  have "f64_round 100000 = Fin 100000" "f64_round 200000 = Fin 200000"
    using f64_round_small_int [of 100000] f64_round_small_int [of 200000] by simp_all
  then show ?thesis by (simp add: decimal_defs Let_def go_strings)
qed

theorem contains_number_forms:
  "matchStringAssertion env (''contains:'' @ ''1000000'') (AArr [AFloat (Fin 1000000)]) \<noteq> None
   \<and> matchStringAssertion env (''contains:'' @ ''1e+06'') (AArr [AFloat (Fin 1000000)]) = None
   \<and> matchStringAssertion env (''contains:'' @ ''100000'') (AArr [AFloat (Fin 100000)]) = None"
  unfolding matchString_contains by (simp add: fmt_v_million fmt_v_100k del: fmt_v.simps)

theorem match_in_or_disjunction:
  assumes "op \<in> {''$in'', ''$or''}" "t \<noteq> ''null''"
  shows "MatchAssertion env (Raw t (JObj [Field op (Raw u (JArr es))])) a = None \<longleftrightarrow>
           (\<exists>e \<in> set es. MatchAssertion env e a = None)"
  using assms by (auto simp: has_key_def matchSome_iff)

theorem match_in_or_disjunction_witness:
  "MatchAssertion sample_env (Raw ''{}'' (JObj [Field ''$or''
      (Raw ''[]'' (JArr [Raw ''x'' (JStr ''absent''), Raw ''y'' (JBool True)]))])) (ABool True) = None"
  using match_in_or_disjunction [of "''$or''" "''{}''" sample_env "''[]''"
      "[Raw ''x'' (JStr ''absent''), Raw ''y'' (JBool True)]" "ABool True"]
  by simp

theorem match_empty_operator_vacuous:
  "MatchAssertion env (Raw t (JObj [Field ''$empty'' v])) a = None \<longleftrightarrow> t \<noteq> ''null'' \<or> a = ANil"
  by (simp add: has_key_def)

theorem match_nested_absent:
  assumes "wf_env env" "plain_key k" "t \<noteq> ''null''"
  shows "MatchAssertion env (Raw t (JObj [Field k (Raw u (JStr ''absent''))])) a = None
      \<longleftrightarrow> (\<exists>obj. a = AObj obj \<and> map_of obj k = None)"
proof -
  have "\<not> has_key [Field k (Raw u (JStr ''absent''))] k'" if "\<not> plain_key k'" for k'
    using that assms(2) by (auto simp: has_key_def)
  then have "matchObjectAssertion env [Field k (Raw u (JStr ''absent''))] a = None \<longleftrightarrow>
      (\<exists>obj. a = AObj obj \<and> field_check env obj k (Raw u (JStr ''absent'')) = None)"
    by (subst matchObject_None [OF assms(1)]) (simp_all add: plain_key_def hasPrefix_def)
  then show ?thesis
    using assms(3) by (auto simp: field_check_def split: option.splits simp del: matchObjectAssertion.simps)
qed

theorem match_nested_absent_witness:
  "MatchAssertion sample_env (Raw ''{}'' (JObj [Field ''error'' (Raw ''a'' (JStr ''absent''))]))
      (AObj [(''error'', ANil)]) \<noteq> None"
  by (subst match_nested_absent) (simp_all add: plain_key_def hasPrefix_def)

end
