(* ===== verification/JsonPath.thy ===== *)
theory JsonPath
  imports Matchers
begin

text \<open>
  \<open>ResolveJSONPath\<close> and \<open>splitJSONPath\<close> of lib/assertions.go. The paths are decoded JSON
  strings, hence valid UTF-8, so the scan by runes is a scan by bytes. A nil
  \<open>map[string]any\<close> reads like an empty one and is written \<open>AObj []\<close>. The function returns
  an error (\<open>Inl\<close>) or a value (\<open>Inr\<close>); "not there" is the value \<open>ANil\<close>.
\<close>

datatype jerr =
    ExpectedObject string any
  | UnclosedFilter string
  | UnsupportedFilter string
  | ExpectedFilterArray string any
  | UnexpectedChars string string
  | UnclosedBracket string
  | ExpectedWildcardArray string any
  | InvalidIndex string string
  | ExpectedArray string any
  | OutOfBounds int nat string

subsection \<open>Splitting a path\<close>

text \<open>The loop of \<open>splitJSONPath\<close>: bracket depth, the builder's content, the rest of the path.\<close>

fun split_loop :: "int \<Rightarrow> string \<Rightarrow> string \<Rightarrow> string list" where
  "split_loop d cur [] = (if cur = [] then [] else [cur])"
| "split_loop d cur (c # s) =
     (if c = CHR ''['' then split_loop (d + 1) (cur @ [c]) s
      else if c = CHR '']'' then split_loop (d - 1) (cur @ [c]) s
      else if c = CHR ''.'' \<and> d = 0 then cur # split_loop d [] s
      else split_loop d (cur @ [c]) s)"

definition splitJSONPath :: "string \<Rightarrow> string list" where
  "splitJSONPath path = split_loop 0 [] path"

text \<open>The parts of a path after its optional \<open>$.\<close>.\<close>

definition path_parts :: "string \<Rightarrow> string list" where
  "path_parts path = splitJSONPath (if hasPrefix path ''$.'' then drop 2 path else path)"

subsection \<open>One part of a path\<close>

text \<open>The field in front of a bracket: a missing field is \<open>nil\<close>.\<close>

definition step_field :: "string \<Rightarrow> any \<Rightarrow> jerr + any" where
  "step_field field cur =
     (if field = [] then Inr cur
      else case as_object cur of
        None \<Rightarrow> Inl (ExpectedObject field cur)
      | Some obj \<Rightarrow> Inr (case map_of obj field of Some v \<Rightarrow> v | None \<Rightarrow> ANil))"

text \<open>A filter \<open>[?(@.key==value)]\<close>: the matched element and the text after the filter.\<close>

definition filter_matches :: "string \<Rightarrow> string \<Rightarrow> any \<Rightarrow> bool" where
  "filter_matches key v item =
     (case as_object item of
        None \<Rightarrow> False
      | Some obj \<Rightarrow> (case map_of obj key of None \<Rightarrow> False | Some x \<Rightarrow> fmt_v x = v))"

definition filter_step :: "string \<Rightarrow> string \<Rightarrow> any \<Rightarrow> jerr + (any \<times> string)" where
  "filter_step part rest cur =
     (case strIndex rest '')]'' of
        None \<Rightarrow> Inl (UnclosedFilter part)
      | Some closeBracket \<Rightarrow>
          (let filterExpr = drop 5 (take closeBracket rest);
               rest' = drop (closeBracket + 2) rest
           in case strIndex filterExpr ''=='' of
                None \<Rightarrow> Inl (UnsupportedFilter part)
              | Some eqIdx \<Rightarrow>
                  (let filterKey = take eqIdx filterExpr;
                       filterVal = trimSet (drop (eqIdx + 2) filterExpr) [ch 39, ch 34]
                   in case as_array cur of
                        None \<Rightarrow> Inl (ExpectedFilterArray part cur)
                      | Some arr \<Rightarrow>
                          Inr (case find (filter_matches filterKey filterVal) arr of
                                 Some item \<Rightarrow> item | None \<Rightarrow> ANil,
                               rest'))))"

text \<open>The chain of indices: an error, the value reached, or a wildcard with what is left.\<close>

datatype walk = WErr jerr | WDone any | WWild string "any list"

function walk_indices :: "string \<Rightarrow> string \<Rightarrow> any \<Rightarrow> walk" where
  "walk_indices part [] cur = WDone cur"
| "walk_indices part (c # s) cur =
     (if c \<noteq> CHR ''['' then WErr (UnexpectedChars part (c # s))
      else case strIndex (c # s) '']'' of
        None \<Rightarrow> WErr (UnclosedBracket part)
      | Some closeBracket \<Rightarrow>
          (let indexStr = drop 1 (take closeBracket (c # s));
               rest = drop (closeBracket + 1) (c # s)
           in if indexStr = ''*'' then
                (case as_array cur of
                   None \<Rightarrow> WErr (ExpectedWildcardArray part cur)
                 | Some arr \<Rightarrow> WWild rest arr)
              else case atoi indexStr of
                None \<Rightarrow> WErr (InvalidIndex part indexStr)
              | Some index \<Rightarrow>
                  (case as_array cur of
                     None \<Rightarrow> WErr (ExpectedArray part cur)
                   | Some arr \<Rightarrow>
                       if index < 0 \<or> int (length arr) \<le> index
                       then WErr (OutOfBounds index (length arr) part)
                       else walk_indices part rest (arr ! nat index))))"
  by pat_completeness auto
termination
  by (relation "measure (\<lambda>(part, rest, cur). length rest)") auto

text \<open>
  A slice declared without elements and filled by \<open>append\<close>, and the path that a wildcard
  leaves for the elements.
\<close>

definition any_slice :: "any list \<Rightarrow> any" where
  "any_slice xs = (if xs = [] then ANilSlice else AArr xs)"

lemma any_slice_simps [simp]: "any_slice [] = ANilSlice" "any_slice (x # xs) = AArr (x # xs)"
  by (simp_all add: any_slice_def)

definition remaining_path :: "string \<Rightarrow> string list \<Rightarrow> string" where
  "remaining_path rest ps = trimPrefix (strJoin ''.'' ((if rest \<noteq> [] then [rest] else []) @ ps)) ''.''"

fun keep_values :: "(jerr + any) list \<Rightarrow> any list" where
  "keep_values [] = []"
| "keep_values (Inl e # rs) = keep_values rs"
| "keep_values (Inr v # rs) = (if v = ANil then keep_values rs else v # keep_values rs)"

subsection \<open>ResolveJSONPath\<close>

definition parts_size :: "string list \<Rightarrow> nat" where
  "parts_size ps = sum_list (map (\<lambda>p. length p + 1) ps)"

lemma parts_size_simps [simp]:
  "parts_size [] = 0" "parts_size (p # ps) = length p + 1 + parts_size ps"
  by (simp_all add: parts_size_def)

lemma split_loop_size: "parts_size (split_loop d cur s) \<le> length cur + length s + 1"
proof (induction d cur s rule: split_loop.induct)
  case (2 d cur c s)
  then show ?case by (auto split: if_splits)
qed simp

lemma path_parts_size: "parts_size (path_parts s) \<le> length s + 1"
  using split_loop_size [of 0 "[]" "drop 2 s"] split_loop_size [of 0 "[]" s]
  by (auto simp: path_parts_def splitJSONPath_def)

lemma strJoin_size: "length (strJoin ''.'' ps) + 1 \<le> parts_size ps + 1"
  by (induction "''.''" ps rule: strJoin.induct) auto

lemma strJoin_size_strict: "ps \<noteq> [] \<Longrightarrow> length (strJoin ''.'' ps) + 1 = parts_size ps"
  by (induction "''.''" ps rule: strJoin.induct) auto

lemma trimPrefix_size: "length (trimPrefix s p) \<le> length s"
  by (simp add: trimPrefix_def)

lemma remaining_path_size:
  assumes "remaining_path rest ps \<noteq> []"
  shows "parts_size (path_parts (remaining_path rest ps)) \<le> length rest + 1 + parts_size ps"
proof -
  let ?segs = "(if rest \<noteq> [] then [rest] else []) @ ps"
  have ne: "?segs \<noteq> []" using assms by (auto simp: remaining_path_def trimPrefix_def hasPrefix_def)
  have "parts_size (path_parts (remaining_path rest ps)) \<le> length (strJoin ''.'' ?segs) + 1"
    using path_parts_size [of "remaining_path rest ps"] trimPrefix_size [of "strJoin ''.'' ?segs" "''.''"]
    by (simp add: remaining_path_def)
  also have "\<dots> = parts_size ?segs" using ne by (rule strJoin_size_strict)
  also have "\<dots> \<le> length rest + 1 + parts_size ps" by simp
  finally show ?thesis .
qed

lemma walk_wild_size: "walk_indices part rest cur = WWild rest' arr \<Longrightarrow> length rest' < length rest"
proof (induction part rest cur rule: walk_indices.induct)
  case (2 part c s cur)
  then show ?case by (fastforce simp: Let_def split: if_splits option.splits)
qed simp

lemma filter_step_size:
  assumes "filter_step part rest cur = Inr (m, rest')"
  shows "length rest' < length rest"
  using assms strIndex_nonempty_less [of rest "'')]''"]
  by (auto simp: filter_step_def Let_def split: option.splits)

function resolve_parts :: "string list \<Rightarrow> any \<Rightarrow> jerr + any" where
  "resolve_parts [] cur = Inr cur"
| "resolve_parts (p # ps) cur =
     (if p = [] then resolve_parts ps cur
      else case strIndex p ''['' of
        Some idx \<Rightarrow>
          (case step_field (take idx p) cur of
             Inl e \<Rightarrow> Inl e
           | Inr cur' \<Rightarrow>
               (if hasPrefix (drop idx p) ''[?(@.'' then
                  (case filter_step p (drop idx p) cur' of
                     Inl e \<Rightarrow> Inl e
                   | Inr (matched, rest) \<Rightarrow>
                       if matched \<noteq> ANil \<and> hasPrefix rest ''.''
                       then resolve_parts (path_parts (drop 1 rest)) matched
                       else resolve_parts ps matched)
                else
                  (case walk_indices p (drop idx p) cur' of
                     WErr e \<Rightarrow> Inl e
                   | WDone v \<Rightarrow> resolve_parts ps v
                   | WWild rest arr \<Rightarrow>
                       if remaining_path rest ps = [] then Inr (any_slice arr)
                       else Inr (any_slice (keep_values
                              (map (resolve_parts (path_parts (remaining_path rest ps))) arr))))))
      | None \<Rightarrow>
          (case as_object cur of
             None \<Rightarrow> Inl (ExpectedObject p cur)
           | Some obj \<Rightarrow>
               (case map_of obj p of
                  None \<Rightarrow> Inr ANil
                | Some v \<Rightarrow> resolve_parts ps v)))"
  by pat_completeness auto
termination
proof (relation "measure (\<lambda>(ps, cur). parts_size ps)", goal_cases)
  case (4 p ps cur idx cur' mr matched rest)
  then have "length rest < length (drop idx p)" using filter_step_size by metis
  then have "parts_size (path_parts (drop 1 rest)) < length p + 1 + parts_size ps"
    using path_parts_size [of "drop 1 rest"] by (simp del: One_nat_def)
  then show ?case by simp
next
  case (7 p ps cur idx cur' rest arr x)
  then have "length rest < length (drop idx p)" using walk_wild_size by metis
  then show ?case using remaining_path_size [OF 7(6)] by simp
qed auto

definition ResolveJSONPath :: "string \<Rightarrow> any \<Rightarrow> jerr + any" where
  "ResolveJSONPath path data = resolve_parts (path_parts path) data"

subsection \<open>Splitting and joining\<close>

definition plain_seg :: "string \<Rightarrow> bool" where
  "plain_seg k \<longleftrightarrow> CHR ''.'' \<notin> set k \<and> CHR ''['' \<notin> set k \<and> CHR '']'' \<notin> set k"

lemma split_loop_plain: "plain_seg k \<Longrightarrow> split_loop d cur (k @ s) = split_loop d (cur @ k) s"
  by (induction k arbitrary: cur) (auto simp: plain_seg_def)

lemma split_loop_inside:
  "CHR ''['' \<notin> set c \<Longrightarrow> CHR '']'' \<notin> set c \<Longrightarrow> d \<noteq> 0 \<Longrightarrow>
   split_loop d cur (c @ s) = split_loop d (cur @ c) s"
  by (induction c arbitrary: cur) auto

lemma split_loop_bracket:
  assumes "CHR ''['' \<notin> set c" "CHR '']'' \<notin> set c"
  shows "split_loop 0 cur (''['' @ c @ '']'' @ s) = split_loop 0 (cur @ ''['' @ c @ '']'') s"
  using split_loop_inside [of c 1 "cur @ ''[''" "CHR '']'' # s"] assms by simp

definition join_dots :: "string list \<Rightarrow> string" where
  "join_dots ks = concat (map (\<lambda>k. ''.'' @ k) ks)"

lemma join_dots_simps [simp]: "join_dots [] = []" "join_dots (k # ks) = CHR ''.'' # k @ join_dots ks"
  by (simp_all add: join_dots_def)

lemma split_loop_dots:
  "cur \<noteq> [] \<Longrightarrow> list_all (\<lambda>k. plain_seg k \<and> k \<noteq> []) ks \<Longrightarrow> split_loop 0 cur (join_dots ks) = cur # ks"
  by (induction ks arbitrary: cur) (auto simp: split_loop_plain)

lemma strJoin_dots: "strJoin ''.'' (k # ks) = k @ join_dots ks"
  by (induction ks arbitrary: k) auto

lemma split_join_plain:
  assumes "list_all (\<lambda>k. plain_seg k \<and> k \<noteq> []) ks"
  shows "splitJSONPath (strJoin ''.'' ks) = ks"
proof (cases ks)
  case Nil
  then show ?thesis by (simp add: splitJSONPath_def)
next
  case (Cons k ks')
  then show ?thesis
    using assms split_loop_plain [of k 0 "[]"] split_loop_dots [of k ks']
    by (simp only: splitJSONPath_def strJoin_dots) simp
qed

lemma path_parts_dollar [simp]: "path_parts (CHR ''$'' # CHR ''.'' # s) = splitJSONPath s"
  by (simp add: path_parts_def hasPrefix_def)

subsection \<open>Nested look-up\<close>

text \<open>What a path of plain keys means: \<open>nil\<close> from the first missing key on.\<close>

fun lookup_path :: "string list \<Rightarrow> any \<Rightarrow> jerr + any" where
  "lookup_path [] v = Inr v"
| "lookup_path (k # ks) v =
     (case as_object v of
        None \<Rightarrow> Inl (ExpectedObject k v)
      | Some obj \<Rightarrow> (case map_of obj k of None \<Rightarrow> Inr ANil | Some x \<Rightarrow> lookup_path ks x))"

lemma resolve_plain:
  "list_all (\<lambda>k. plain_seg k \<and> k \<noteq> []) ks \<Longrightarrow> resolve_parts ks v = lookup_path ks v"
proof (induction ks arbitrary: v)
  case (Cons k ks)
  then have "strIndex k ''['' = None" by (simp add: plain_seg_def strIndex_None_notin)
  with Cons show ?case by (simp split: option.splits)
qed simp

subsection \<open>Brackets\<close>

lemma strIndex_append_sub:
  "c \<notin> set s \<Longrightarrow> strIndex (s @ c # p @ t) (c # p) = Some (length s)"
  by (induction s) (auto simp: hasPrefix_def)

lemma step_field_found [simp]: "map_of obj k = Some v \<Longrightarrow> k \<noteq> [] \<Longrightarrow> step_field k (AObj obj) = Inr v"
  by (simp add: step_field_def)

lemma split_bracket_path:
  assumes "plain_seg k" "k \<noteq> []" "CHR ''['' \<notin> set c" "CHR '']'' \<notin> set c"
    "list_all (\<lambda>k. plain_seg k \<and> k \<noteq> []) ks"
  shows "splitJSONPath (k @ ''['' @ c @ '']'' @ join_dots ks) = (k @ ''['' @ c @ '']'') # ks"
  using assms split_loop_bracket [of c k "join_dots ks"] split_loop_plain [of k 0 "[]"]
    split_loop_dots [of "k @ ''['' @ c @ '']''" ks]
  by (simp add: splitJSONPath_def)

text \<open>One bracket after a field, as the loop body sees it.\<close>

lemma resolve_bracket:
  assumes "plain_seg k" "k \<noteq> []" "map_of obj k = Some v" "\<not> hasPrefix (''['' @ c @ '']'') ''[?(@.''"
  shows "resolve_parts ((k @ ''['' @ c @ '']'') # ps) (AObj obj) =
     (case walk_indices (k @ ''['' @ c @ '']'') (''['' @ c @ '']'') v of
        WErr e \<Rightarrow> Inl e
      | WDone v \<Rightarrow> resolve_parts ps v
      | WWild rest arr \<Rightarrow>
          if remaining_path rest ps = [] then Inr (any_slice arr)
          else Inr (any_slice (keep_values (map (resolve_parts (path_parts (remaining_path rest ps))) arr))))"
proof -
  have "strIndex (k @ ''['' @ c @ '']'') ''['' = Some (length k)"
    using assms(1) strIndex_append_char [of "CHR ''[''" k] by (simp add: plain_seg_def)
  with assms show ?thesis by simp
qed

lemma walk_one:
  assumes "CHR '']'' \<notin> set c"
  shows "walk_indices part (''['' @ c @ '']'') cur =
    (if c = ''*'' then
       (case as_array cur of None \<Rightarrow> WErr (ExpectedWildcardArray part cur) | Some arr \<Rightarrow> WWild [] arr)
     else case atoi c of
       None \<Rightarrow> WErr (InvalidIndex part c)
     | Some i \<Rightarrow>
         (case as_array cur of
            None \<Rightarrow> WErr (ExpectedArray part cur)
          | Some arr \<Rightarrow>
              if i < 0 \<or> int (length arr) \<le> i then WErr (OutOfBounds i (length arr) part)
              else WDone (arr ! nat i)))"
proof -
  have "strIndex (CHR ''['' # c @ '']'') '']'' = Some (Suc (length c))"
    using strIndex_append_char [of "CHR '']''" "CHR ''['' # c" "[]"] assms by simp
  then show ?thesis by (simp add: Let_def split: option.splits)
qed

lemma show_int_no_bracket: "CHR ''['' \<notin> set (show_int i)" "CHR '']'' \<notin> set (show_int i)" "CHR ''?'' \<notin> set (show_int i)"
    "CHR ''*'' \<notin> set (show_int i)"
  by (auto simp: show_int_def is_digit_def dest!: show_nat_chars)

lemma show_int_not_star: "show_int i \<noteq> ''*''"
  using show_int_no_bracket(4) [of i] by (metis list.set_intros(1))


text \<open>C3. Resolving a path of plain field names, with or without many segments, is the field-by-field
  look-up: a missing field gives nil and a value that is not an object gives an error.\<close>

theorem resolve_plain_path:
  assumes "list_all (\<lambda>k. plain_seg k \<and> k \<noteq> []) ks"
  shows "ResolveJSONPath (''$.'' @ strJoin ''.'' ks) data = lookup_path ks data"
  using assms by (simp add: ResolveJSONPath_def split_join_plain resolve_plain)

lemma plain_seg_samples: "plain_seg ''job''" "plain_seg ''state''" "plain_seg ''jobs''" "plain_seg ''id''"
  by (simp_all add: plain_seg_def)

theorem resolve_plain_path_witness:
  "ResolveJSONPath (''$.'' @ strJoin ''.'' [''job'', ''state'']) (AObj [(''job'', AObj [(''state'', AStr ''active'')])])
     = Inr (AStr ''active'')"
  by (subst resolve_plain_path) (simp_all add: plain_seg_samples)

subsection \<open>Indices\<close>

text \<open>A segment of a path: a field and the indices behind it, as \<open>args[0][1]\<close>.\<close>

type_synonym segment = "string \<times> int list"

definition brackets :: "int list \<Rightarrow> string" where
  "brackets ns = concat (map (\<lambda>n. ''['' @ show_int n @ '']'') ns)"

definition segment_text :: "segment \<Rightarrow> string" where
  "segment_text g = fst g @ brackets (snd g)"

definition segment_ok :: "segment \<Rightarrow> bool" where
  "segment_ok g \<longleftrightarrow> plain_seg (fst g) \<and> (fst g \<noteq> [] \<or> snd g \<noteq> []) \<and> list_all in_int64 (snd g)"

text \<open>What the indices select, one after the other; \<open>part\<close> is named in the errors.\<close>

fun select_indices :: "string \<Rightarrow> int list \<Rightarrow> any \<Rightarrow> jerr + any" where
  "select_indices part [] v = Inr v"
| "select_indices part (n # ns) v =
     (case as_array v of
        None \<Rightarrow> Inl (ExpectedArray part v)
      | Some xs \<Rightarrow>
          if 0 \<le> n \<and> n < int (length xs) then select_indices part ns (xs ! nat n)
          else Inl (OutOfBounds n (length xs) part))"

text \<open>
  What a path selects: a missing field ends the look-up with nil when it has no index and is no array
  when it has one; a segment without a field applies its indices to the value itself.
\<close>

fun select_path :: "segment list \<Rightarrow> any \<Rightarrow> jerr + any" where
  "select_path [] v = Inr v"
| "select_path ((k, ns) # gs) v =
     (if k = [] then
        (case select_indices (segment_text (k, ns)) ns v of Inl e \<Rightarrow> Inl e | Inr x \<Rightarrow> select_path gs x)
      else case as_object v of
        None \<Rightarrow> Inl (ExpectedObject k v)
      | Some obj \<Rightarrow>
          (case map_of obj k of
             None \<Rightarrow> if ns = [] then Inr ANil else Inl (ExpectedArray (segment_text (k, ns)) ANil)
           | Some x \<Rightarrow>
               (case select_indices (segment_text (k, ns)) ns x of Inl e \<Rightarrow> Inl e | Inr y \<Rightarrow> select_path gs y)))"

lemma brackets_simps [simp]: "brackets [] = []" "brackets (n # ns) = CHR ''['' # show_int n @ CHR '']'' # brackets ns"
  by (simp_all add: brackets_def)

lemma split_loop_brackets: "split_loop 0 cur (brackets ns @ s) = split_loop 0 (cur @ brackets ns) s"
proof (induction ns arbitrary: cur)
  case (Cons n ns)
  then show ?case
    using split_loop_bracket [OF show_int_no_bracket(1,2) [of n], of cur "brackets ns @ s"] by simp
qed simp

lemma split_loop_segment:
  "segment_ok g \<Longrightarrow> split_loop 0 cur (segment_text g @ s) = split_loop 0 (cur @ segment_text g) s"
  using split_loop_plain [of "fst g" 0 cur "brackets (snd g) @ s"] split_loop_brackets [of "cur @ fst g" "snd g" s]
  by (simp add: segment_ok_def segment_text_def)

lemma segment_text_nonempty: "segment_ok g \<Longrightarrow> segment_text g \<noteq> []"
  by (cases "snd g") (auto simp: segment_ok_def segment_text_def)

lemma split_loop_segments:
  "cur \<noteq> [] \<Longrightarrow> list_all segment_ok gs \<Longrightarrow> split_loop 0 cur (join_dots (map segment_text gs)) = cur # map segment_text gs"
proof (induction gs arbitrary: cur)
  case (Cons g gs)
  then show ?case
    using split_loop_segment [of g "[]" "join_dots (map segment_text gs)"] segment_text_nonempty [of g] by simp
qed simp

lemma split_segments:
  assumes "list_all segment_ok gs"
  shows "splitJSONPath (strJoin ''.'' (map segment_text gs)) = map segment_text gs"
proof (cases gs)
  case Nil
  then show ?thesis by (simp add: splitJSONPath_def)
next
  case (Cons g gs')
  then show ?thesis
    using assms split_loop_segment [of g "[]" "join_dots (map segment_text gs')"]
      split_loop_segments [of "segment_text g" gs'] segment_text_nonempty [of g]
    by (simp only: splitJSONPath_def list.map strJoin_dots) simp
qed

lemma walk_brackets:
  "list_all in_int64 ns \<Longrightarrow> walk_indices part (brackets ns) v =
     (case select_indices part ns v of Inl e \<Rightarrow> WErr e | Inr x \<Rightarrow> WDone x)"
proof (induction ns arbitrary: v)
  case (Cons n ns)
  have "strIndex (CHR ''['' # show_int n @ CHR '']'' # brackets ns) '']'' = Some (Suc (length (show_int n)))"
    using strIndex_append_char [of "CHR '']''" "CHR ''['' # show_int n" "brackets ns"] show_int_no_bracket(2) [of n] by simp
  with Cons show ?case
    by (simp add: Let_def atoi_show_int show_int_not_star not_less split: option.split)
qed simp

lemma no_filter: "\<not> hasPrefix (brackets (n # ns)) ''[?(@.''"
  using show_int_no_bracket(3) [of n] by (cases "show_int n") (auto simp: hasPrefix_def)

lemma resolve_segments:
  "list_all segment_ok gs \<Longrightarrow> resolve_parts (map segment_text gs) v = select_path gs v"
proof (induction gs arbitrary: v)
  case (Cons g gs)
  obtain k ns where g: "g = (k, ns)" by (cases g)
  have ok: "plain_seg k" "list_all in_int64 ns" "k \<noteq> [] \<or> ns \<noteq> []" using Cons.prems by (auto simp: g segment_ok_def)
  have IH: "resolve_parts (map segment_text gs) x = select_path gs x" for x using Cons by simp
  show ?case
  proof (cases ns)
    case Nil
    then have "strIndex k ''['' = None" using ok by (simp add: plain_seg_def strIndex_None_notin)
    moreover have "segment_text (k, []) = k" by (simp add: segment_text_def)
    ultimately show ?thesis using ok Nil by (simp add: g IH split: option.split)
  next
    case (Cons n ns')
    have idx: "strIndex (segment_text (k, ns)) ''['' = Some (length k)"
      using ok strIndex_append_char [of "CHR ''[''" k] by (simp add: segment_text_def Cons plain_seg_def)
    have "hasPrefix (brackets ns) ''[?(@.'' = False" unfolding Cons using no_filter by blast
    moreover have "drop (length k) (segment_text (k, ns)) = brackets ns" "take (length k) (segment_text (k, ns)) = k"
      "segment_text (k, ns) \<noteq> []"
      by (simp_all add: segment_text_def Cons)
    ultimately have "resolve_parts (segment_text (k, ns) # map segment_text gs) v =
        (case step_field k v of Inl e \<Rightarrow> Inl e
         | Inr x \<Rightarrow> (case select_indices (segment_text (k, ns)) ns x of Inl e \<Rightarrow> Inl e | Inr y \<Rightarrow> select_path gs y))"
      by (simp add: idx walk_brackets [OF ok(2)] IH split: sum.split)
    then show ?thesis using Cons by (auto simp: g step_field_def split: option.split)
  qed
qed simp

text \<open>C38. Resolving a path of fields with any number of numeric indices behind each, as
  $.job.args[0][1].id, is a step-by-step look-up: an index selects that element of an array when
  it is within its bounds and gives the out-of-bounds error otherwise, for negative indices too,
  and an error for a value that is no array; a segment without a field applies its indices to the
  value itself. A missing field gives nil, or with an index behind it the error for no array. The
  fields contain no dots and brackets and the indices fit in 64 bits; filters and wildcards are
  not among these paths.\<close>

theorem resolve_index_path:
  assumes "list_all segment_ok gs"
  shows "ResolveJSONPath (''$.'' @ strJoin ''.'' (map segment_text gs)) data = select_path gs data"
  using assms by (simp add: ResolveJSONPath_def split_segments resolve_segments)

lemma segment_samples: "segment_ok (''job'', [])" "segment_ok (''jobs'', [n])" "segment_ok (''id'', [n, k])"
    if "in_int64 n" "in_int64 k"
  using that by (simp_all add: segment_ok_def plain_seg_samples)

text \<open>\<open>$.jobs[1].id[0][1]\<close>, and an index out of bounds behind two fields.\<close>

theorem resolve_index_path_witness:
  "ResolveJSONPath (''$.'' @ strJoin ''.'' (map segment_text [(''jobs'', [1]), (''id'', [0, 1])]))
     (AObj [(''jobs'', AArr [ANil, AObj [(''id'', AArr [AArr [ANil, AStr ''x'']])]])]) = Inr (AStr ''x'')
   \<and> ResolveJSONPath (''$.'' @ strJoin ''.'' (map segment_text [(''job'', []), (''jobs'', [-1])]))
     (AObj [(''job'', AObj [(''jobs'', AArr [ANil])])]) = Inl (OutOfBounds (-1) 1 (segment_text (''jobs'', [-1])))"
proof -
  have "in_int64 0" "in_int64 1" "in_int64 (-1)" by (simp_all add: in_int64_def int64_min_def int64_max_def)
  note ok = segment_samples [OF this(2,2)] segment_samples [OF this(1,2)] segment_samples [OF this(3,3)]
  show ?thesis
    using resolve_index_path [of "[(''jobs'', [1]), (''id'', [0, 1])]"] resolve_index_path [of "[(''job'', []), (''jobs'', [-1])]"] ok
    by simp
qed

theorem resolve_wildcard_path:
  assumes "plain_seg k" "k \<noteq> []" "list_all (\<lambda>k. plain_seg k \<and> k \<noteq> []) ks" "ks \<noteq> []" "hd ks \<noteq> ''$''"
    "map_of obj k = Some (AArr xs)"
  shows "ResolveJSONPath (''$.'' @ k @ ''[*]'' @ join_dots ks) (AObj obj) =
     Inr (any_slice (keep_values (map (lookup_path ks) xs)))"
proof -
  note rb = resolve_bracket [OF assms(1,2,6), of "''*''" ks]
  have sp: "splitJSONPath (k @ ''['' @ ''*'' @ '']'' @ join_dots ks) = (k @ ''['' @ ''*'' @ '']'') # ks"
    using assms by (intro split_bracket_path) simp_all
  obtain k' ks' where ks: "ks = k' # ks'" using assms(4) by (cases ks) auto
  have k': "k' \<noteq> []" "plain_seg k'" using assms(3) ks by auto
  have nd: "\<not> hasPrefix (strJoin ''.'' ks) ''.''"
    using k' by (cases k') (auto simp: ks strJoin_dots hasPrefix_def plain_seg_def simp del: strJoin.simps)
  have nd2: "\<not> hasPrefix (strJoin ''.'' ks) ''$.''"
  proof (cases k')
    case (Cons c cs)
    then show ?thesis using k' assms(5)
      by (cases cs) (auto simp: ks strJoin_dots hasPrefix_def plain_seg_def simp del: strJoin.simps)
  qed (use k' in simp)
  have ne: "strJoin ''.'' ks \<noteq> []"
    using k' by (simp add: ks strJoin_dots del: strJoin.simps)
  have "path_parts (strJoin ''.'' ks) = ks"
    using nd2 assms(3) by (simp add: path_parts_def split_join_plain)
  moreover have "remaining_path [] ks = strJoin ''.'' ks"
    using nd by (simp add: remaining_path_def trimPrefix_def)
  moreover have "resolve_parts ks = lookup_path ks"
    using assms(3) by (intro ext resolve_plain)
  moreover have "ResolveJSONPath (''$.'' @ k @ ''[*]'' @ join_dots ks) (AObj obj)
      = resolve_parts ((k @ ''['' @ ''*'' @ '']'') # ks) (AObj obj)"
    using sp by (simp add: ResolveJSONPath_def)
  ultimately show ?thesis
    using rb ne walk_one [of "''*''" "k @ ''['' @ ''*'' @ '']''" "AArr xs"]
    by (simp add: hasPrefix_def del: resolve_parts.simps walk_indices.simps)
qed

theorem resolve_wildcard_path_witness:
  "ResolveJSONPath (''$.'' @ ''jobs'' @ ''[*]'' @ join_dots [''id''])
     (AObj [(''jobs'', AArr [AObj [(''id'', AStr ''a'')], AStr ''b'', AObj [], AObj [(''id'', AStr ''c'')]])])
     = Inr (AArr [AStr ''a'', AStr ''c''])"
  by (subst resolve_wildcard_path [where xs = "[AObj [(''id'', AStr ''a'')], AStr ''b'', AObj [], AObj [(''id'', AStr ''c'')]]"])
    (simp_all add: plain_seg_samples)

subsection \<open>Filters\<close>

definition plain_filter :: "string \<Rightarrow> bool" where
  "plain_filter s \<longleftrightarrow> set s \<inter> set [CHR ''['', CHR '']'', CHR '')'', CHR ''='', ch 39, ch 34] = {}"

definition filter_part :: "string \<Rightarrow> string \<Rightarrow> string" where
  "filter_part fk v = ''[?(@.'' @ fk @ ''=='' @ [ch 39] @ v @ [ch 39] @ '')]''"

lemma dropWhile_none:
  "list_all (\<lambda>c. \<not> P c) w \<Longrightarrow> dropWhile P (w @ u) = (if w = [] then dropWhile P u else w @ u)"
  by (cases w) auto

lemma trimSet_quoted:
  assumes "plain_filter v"
  shows "trimSet ([ch 39] @ v @ [ch 39]) [ch 39, ch 34] = v"
proof -
  have v: "list_all (\<lambda>c. \<not> c \<in> set [ch 39, ch 34]) v" and
    r: "list_all (\<lambda>c. \<not> c \<in> set [ch 39, ch 34]) (rev v)"
    using assms by (auto simp: plain_filter_def list_all_iff)
  show ?thesis
    using dropWhile_none [OF v, of "[ch 39]"] dropWhile_none [OF r, of "[]"]
    by (simp add: trimSet_def trimLeftSet_def trimRightSet_def)
qed

lemma quote_chars: "CHR '')'' \<noteq> ch 39" "CHR ''['' \<noteq> ch 39" "CHR '']'' \<noteq> ch 39"
  by (simp_all add: ch_def char_of_def bit_Suc_0_iff)

lemma filter_step_part:
  assumes "plain_filter fk" "plain_filter v"
  shows "filter_step part (filter_part fk v @ t) (AArr xs) =
     Inr (case find (filter_matches fk v) xs of Some item \<Rightarrow> item | None \<Rightarrow> ANil, t)"
proof -
  let ?e = "fk @ ''=='' @ [ch 39] @ v @ [ch 39]"
  have n: "CHR '')'' \<notin> set (''[?(@.'' @ ?e)" 
    using assms quote_chars by (auto simp: plain_filter_def)
  have s: "filter_part fk v @ t = (''[?(@.'' @ ?e) @ CHR '')'' # '']'' @ t"
    by (simp add: filter_part_def)
  have "strIndex (filter_part fk v @ t) '')]'' = Some (length (''[?(@.'' @ ?e))"
    unfolding s using n by (rule strIndex_append_sub)
  moreover have "take (length a) (a @ b) = a" "drop (length a + 2) (a @ CHR '')'' # '']'' @ t) = t" for a b :: string
    by simp_all
  then have "take (length (''[?(@.'' @ ?e)) (filter_part fk v @ t) = ''[?(@.'' @ ?e"
    "drop (length (''[?(@.'' @ ?e) + 2) (filter_part fk v @ t) = t"
    unfolding s by blast+
  moreover have "strIndex ?e ''=='' = Some (length fk)"
    using assms strIndex_append_sub [of "CHR ''=''" fk "''=''"] by (simp add: plain_filter_def)
  moreover have "drop 5 (''[?(@.'' @ ?e) = ?e" by simp
  ultimately show ?thesis
    using trimSet_quoted [OF assms(2)]
    unfolding filter_step_def by (simp add: Let_def)
qed

lemma split_filter_path:
  assumes "plain_seg k" "k \<noteq> []" "plain_filter fk" "plain_filter v"
    "list_all (\<lambda>k. plain_seg k \<and> k \<noteq> []) ks"
  shows "splitJSONPath (k @ filter_part fk v @ join_dots ks) = (k @ filter_part fk v) # ks"
proof -
  let ?c = "''?(@.'' @ fk @ ''=='' @ [ch 39] @ v @ [ch 39] @ '')''"
  have c: "CHR ''['' \<notin> set ?c" "CHR '']'' \<notin> set ?c"
    using assms quote_chars by (auto simp: plain_filter_def)
  have f: "filter_part fk v = ''['' @ ?c @ '']''" by (simp add: filter_part_def)
  show ?thesis
    using split_bracket_path [OF assms(1,2) c assms(5)] by (simp add: f)
qed

theorem resolve_filter_path:
  assumes "plain_seg k" "k \<noteq> []" "plain_filter fk" "plain_filter v"
    "list_all (\<lambda>k. plain_seg k \<and> k \<noteq> []) ks" "map_of obj k = Some (AArr xs)"
  shows "ResolveJSONPath (''$.'' @ k @ filter_part fk v @ join_dots ks) (AObj obj) =
     lookup_path ks (case find (filter_matches fk v) xs of Some item \<Rightarrow> item | None \<Rightarrow> ANil)"
proof -
  let ?p = "k @ filter_part fk v"
  have i: "strIndex ?p ''['' = Some (length k)"
    using assms(1) strIndex_append_char [of "CHR ''[''" k] by (simp add: plain_seg_def filter_part_def)
  have d: "drop (length k) ?p = filter_part fk v @ []" "take (length k) ?p = k" by simp_all
  have f: "step_field k (AObj obj) = Inr (AArr xs)" using assms(2,6) by simp
  have h: "hasPrefix (filter_part fk v @ []) ''[?(@.''" by (simp add: filter_part_def hasPrefix_def)
  have "resolve_parts (?p # ks) (AObj obj) =
      lookup_path ks (case find (filter_matches fk v) xs of Some item \<Rightarrow> item | None \<Rightarrow> ANil)"
    using assms(2) filter_step_part [OF assms(3,4), of ?p "[]" xs] resolve_plain [OF assms(5)]
    unfolding resolve_parts.simps i d option.case f sum.case
    by (simp only: h if_True d f) (simp add: hasPrefix_def)
  then show ?thesis
    using split_filter_path [OF assms(1-5)] by (simp add: ResolveJSONPath_def)
qed

definition sample_workers :: "any list" where
  "sample_workers = [AObj [(''id'', AStr ''w1''), (''state'', AStr ''running'')],
     AObj [(''id'', AStr ''w2''), (''state'', AStr ''quiet'')]]"

theorem resolve_filter_path_witness:
  "ResolveJSONPath (''$.'' @ ''workers'' @ filter_part ''id'' ''w2'' @ join_dots [''state''])
     (AObj [(''workers'', AArr sample_workers)]) = Inr (AStr ''quiet'')"
  by (subst resolve_filter_path [where xs = sample_workers])
    (simp_all add: plain_seg_def plain_filter_def ch_def char_of_def bit_Suc_0_iff sample_workers_def filter_matches_def)

lemma split_filter_index_path:
  assumes "plain_seg k" "k \<noteq> []" "plain_filter fk" "plain_filter v" "CHR ''['' \<notin> set c" "CHR '']'' \<notin> set c"
    "list_all (\<lambda>k. plain_seg k \<and> k \<noteq> []) ks"
  shows "splitJSONPath (k @ filter_part fk v @ ''['' @ c @ '']'' @ join_dots ks)
     = (k @ filter_part fk v @ ''['' @ c @ '']'') # ks"
proof -
  let ?c = "''?(@.'' @ fk @ ''=='' @ [ch 39] @ v @ [ch 39] @ '')''"
  have c: "CHR ''['' \<notin> set ?c" "CHR '']'' \<notin> set ?c"
    using assms quote_chars by (auto simp: plain_filter_def)
  have f: "filter_part fk v = ''['' @ ?c @ '']''" by (simp add: filter_part_def)
  show ?thesis
    unfolding f splitJSONPath_def
    using assms(1,2,7) split_loop_bracket [OF c, of k "''['' @ c @ '']'' @ join_dots ks"]
      split_loop_bracket [OF assms(5,6), of "k @ ''['' @ ?c @ '']''" "join_dots ks"]
      split_loop_plain [of k 0 "[]"] split_loop_dots [of "k @ ''['' @ ?c @ '']'' @ ''['' @ c @ '']''" ks]
    by simp
qed

theorem filter_index_ignored:
  assumes "plain_seg k" "k \<noteq> []" "plain_filter fk" "plain_filter v" "CHR ''['' \<notin> set c" "CHR '']'' \<notin> set c"
    "list_all (\<lambda>k. plain_seg k \<and> k \<noteq> []) ks" "map_of obj k = Some (AArr xs)"
  shows "ResolveJSONPath (''$.'' @ k @ filter_part fk v @ ''['' @ c @ '']'' @ join_dots ks) (AObj obj) =
     lookup_path ks (case find (filter_matches fk v) xs of Some item \<Rightarrow> item | None \<Rightarrow> ANil)"
proof -
  let ?p = "k @ filter_part fk v @ ''['' @ c @ '']''"
  have i: "strIndex ?p ''['' = Some (length k)"
    using assms(1) strIndex_append_char [of "CHR ''[''" k] by (simp add: plain_seg_def filter_part_def)
  have d: "drop (length k) ?p = filter_part fk v @ ''['' @ c @ '']''" "take (length k) ?p = k" by simp_all
  have f: "step_field k (AObj obj) = Inr (AArr xs)" using assms(2,8) by simp
  have h: "hasPrefix (filter_part fk v @ ''['' @ c @ '']'') ''[?(@.''"
    by (simp add: filter_part_def hasPrefix_def)
  have "resolve_parts (?p # ks) (AObj obj) =
      lookup_path ks (case find (filter_matches fk v) xs of Some item \<Rightarrow> item | None \<Rightarrow> ANil)"
    using assms(2) filter_step_part [OF assms(3,4), of ?p "''['' @ c @ '']''" xs] resolve_plain [OF assms(7)]
    unfolding resolve_parts.simps i d option.case f sum.case
    by (simp only: h if_True d f) (simp add: hasPrefix_def)
  then show ?thesis
    using split_filter_index_path [OF assms(1-7)] by (simp add: ResolveJSONPath_def)
qed

theorem filter_index_ignored_witness:
  "ResolveJSONPath (''$.'' @ ''workers'' @ filter_part ''id'' ''w2'' @ ''['' @ ''99'' @ '']'' @ join_dots [''state''])
     (AObj [(''workers'', AArr sample_workers)]) = Inr (AStr ''quiet'')"
  by (subst filter_index_ignored [where xs = sample_workers])
    (simp_all add: plain_seg_def plain_filter_def ch_def char_of_def bit_Suc_0_iff sample_workers_def filter_matches_def)

end
