(* ===== verification/Timing.thy ===== *)
theory Timing
  imports Matcher_Facts
begin

text \<open>
  Timing assertions and polling, lib/timing.go. A \<open>time.Duration\<close> is its number of
  nanoseconds, a 64-bit integer; \<open>Milliseconds\<close> divides towards zero. The clock, the sleep
  and the polled check of \<open>WaitForCondition\<close> are operations on a world \<open>'w\<close>; the loop may
  not end (a stopped clock), so it is a partial function whose result is \<open>None\<close> then.
\<close>

definition millisecond :: int where "millisecond = 1000000"

definition quot_trunc :: "int \<Rightarrow> int \<Rightarrow> int" where
  "quot_trunc a b = (if a < 0 then - (- a div b) else a div b)"

definition Milliseconds :: "int \<Rightarrow> int" where
  "Milliseconds d = quot_trunc d millisecond"

record TimingConfig =
  TolerancePct :: f64
  MinToleranceMs :: f64
  MaxWaitMs :: int

definition DefaultTimingConfig :: TimingConfig where
  "DefaultTimingConfig = \<lparr>TolerancePct = Fin 50, MinToleranceMs = Fin 100, MaxWaitMs = 30000\<rparr>"

datatype terr =
    NotApproximate f64 f64
  | NotLess int int
  | NotGreater int int

definition AssertApproximateMs :: "TimingConfig \<Rightarrow> f64 \<Rightarrow> f64 \<Rightarrow> terr option" where
  "AssertApproximateMs tc expectedMs actualMs =
     (let tolerance = f64_max (f64_div (f64_mult expectedMs (TolerancePct tc)) (Fin 100)) (MinToleranceMs tc);
          diff = f64_abs (f64_sub actualMs expectedMs)
      in if f64_gt diff tolerance then Some (NotApproximate expectedMs actualMs) else None)"

definition AssertApproximateDuration :: "TimingConfig \<Rightarrow> int \<Rightarrow> int \<Rightarrow> terr option" where
  "AssertApproximateDuration tc expected actual =
     (let expectedMs = f64_of_int (Milliseconds expected);
          actualMs = f64_of_int (Milliseconds actual);
          tolerance = f64_max (f64_div (f64_mult expectedMs (TolerancePct tc)) (Fin 100)) (MinToleranceMs tc);
          diff = f64_abs (f64_sub actualMs expectedMs)
      in if f64_gt diff tolerance then Some (NotApproximate expectedMs actualMs) else None)"

definition AssertLessThan :: "int \<Rightarrow> int \<Rightarrow> terr option" where
  "AssertLessThan threshold actual =
     (if threshold \<le> actual then Some (NotLess (Milliseconds threshold) (Milliseconds actual)) else None)"

definition AssertGreaterThan :: "int \<Rightarrow> int \<Rightarrow> terr option" where
  "AssertGreaterThan threshold actual =
     (if actual \<le> threshold then Some (NotGreater (Milliseconds threshold) (Milliseconds actual)) else None)"

subsection \<open>WaitForCondition\<close>

text \<open>\<open>now\<close> is \<open>time.Now\<close>, \<open>check\<close> the polled function, \<open>sleep\<close> \<open>time.Sleep\<close>.\<close>

record ('w, 'e) poll_env =
  now :: "'w \<Rightarrow> int \<times> 'w"
  check :: "'w \<Rightarrow> 'e option \<times> 'w"
  sleep :: "int \<Rightarrow> 'w \<Rightarrow> 'w"

datatype 'e wait_err = ConditionNotMet int "'e option"

partial_function (option) wait_loop ::
    "('w, 'e) poll_env \<Rightarrow> int \<Rightarrow> int \<Rightarrow> int \<Rightarrow> 'e option \<Rightarrow> 'w \<Rightarrow> ('e wait_err option \<times> 'w) option" where
  "wait_loop env timeout interval deadline lastErr w =
     (let (t, w1) = now env w in
      if t < deadline then
        (let (e, w2) = check env w1 in
         case e of
           None \<Rightarrow> Some (None, w2)
         | Some err \<Rightarrow> wait_loop env timeout interval deadline (Some err) (sleep env interval w2))
      else Some (Some (ConditionNotMet timeout lastErr), w1))"

definition WaitForCondition ::
    "('w, 'e) poll_env \<Rightarrow> int \<Rightarrow> int \<Rightarrow> 'w \<Rightarrow> ('e wait_err option \<times> 'w) option" where
  "WaitForCondition env timeout interval w =
     (let (t, w1) = now env w in wait_loop env timeout interval (t + timeout) None w1)"

subsection \<open>Tolerances\<close>

lemma f64_max_Fin [simp]: "f64_max (Fin a) (Fin b) = Fin (max a b)"
  by (simp add: f64_max_def max_def)

lemma approx_ms_iff:
  assumes "0 \<le> e" "e \<le> 2 ^ 46" "\<bar>a\<bar> \<le> 2 ^ 52"
  shows "AssertApproximateMs DefaultTimingConfig (f64_of_int e) (f64_of_int a) = None
     \<longleftrightarrow> 2 * \<bar>a - e\<bar> \<le> max e 200"
proof -
  have fe: "f64_of_int e = Fin (of_int e)" "f64_of_int a = Fin (of_int a)"
    using assms f64_of_int_exact [of e] f64_of_int_exact [of a] by simp_all
  have sub: "f64_sub (Fin (of_int a)) (Fin (of_int e)) = Fin (of_int (a - e))"
    using f64_of_int_exact [of "a - e"] assms by (simp add: f64_sub_def f64_signed_def f64_of_int_def)
  have "AssertApproximateMs DefaultTimingConfig (f64_of_int e) (f64_of_int a) = None
     \<longleftrightarrow> \<bar>of_int (a - e)\<bar> \<le> max (of_int e / 2) (100 :: rat)"
    using f64_half [of e] assms
    by (simp add: AssertApproximateMs_def DefaultTimingConfig_def fe sub [simplified] Let_def f64_gt_def not_less le_max_iff_disj)
  also have "\<dots> \<longleftrightarrow> (of_int (2 * \<bar>a - e\<bar>) :: rat) \<le> of_int (max e 200)"
    by (auto simp: max_def field_simps)
  also have "\<dots> \<longleftrightarrow> 2 * \<bar>a - e\<bar> \<le> max e 200"
    by (rule of_int_le_iff)
  finally show ?thesis .
qed

lemma approx_duration_ms:
  "AssertApproximateDuration tc expected actual =
     AssertApproximateMs tc (f64_of_int (Milliseconds expected)) (f64_of_int (Milliseconds actual))"
  by (simp add: AssertApproximateDuration_def AssertApproximateMs_def)

text \<open>C39. With the default configuration a duration is accepted exactly if, in whole milliseconds, it
  deviates from the expectation by at most half of it or by at most 100 ms, whichever is more.\<close>

theorem approximate_duration_tolerance:
  assumes "0 \<le> expected" "in_int64 expected" "in_int64 actual"
  shows "AssertApproximateDuration DefaultTimingConfig expected actual = None \<longleftrightarrow>
     2 * \<bar>Milliseconds actual - Milliseconds expected\<bar> \<le> max (Milliseconds expected) 200"
  unfolding approx_duration_ms
proof (rule approx_ms_iff)
  show "0 \<le> Milliseconds expected" "Milliseconds expected \<le> 2 ^ 46"
    using assms zdiv_mono1 [of expected int64_max 1000000]
    by (simp_all add: Milliseconds_def quot_trunc_def millisecond_def in_int64_def int64_max_def)
  show "\<bar>Milliseconds actual\<bar> \<le> 2 ^ 52"
    using assms zdiv_mono1 [of actual int64_max 1000000] zdiv_mono1 [of "- actual" "- int64_min" 1000000]
      pos_imp_zdiv_nonneg_iff [of 1000000 actual] pos_imp_zdiv_nonneg_iff [of 1000000 "- actual"]
    by (auto simp: Milliseconds_def quot_trunc_def millisecond_def in_int64_def int64_max_def int64_min_def)
qed

theorem approximate_duration_tolerance_witness:
  "AssertApproximateDuration DefaultTimingConfig 1000000000 1500999999 = None
   \<and> AssertApproximateDuration DefaultTimingConfig 1000000000 1501000000 \<noteq> None"
  by (simp add: approximate_duration_tolerance in_int64_def int64_max_def int64_min_def
      Milliseconds_def quot_trunc_def millisecond_def)

text \<open>The matcher \<open>~N\<close> has no minimum tolerance, the timing configuration has one.\<close>

theorem tilde_has_no_floor:
  assumes "n < 200" "n < 2 * k" "k \<le> 100"
  shows "AssertApproximateMs DefaultTimingConfig (f64_of_int (int n)) (f64_of_int (int (n + k))) = None
    \<and> matchStringAssertion env (''~'' @ show_nat n) (AFloat (f64_of_int (int (n + k)))) \<noteq> None"
  using assms approx_ms_iff [of "int n" "int (n + k)"] approx_iff [of n "int (n + k)" env] by auto

theorem tilde_has_no_floor_witness:
  "AssertApproximateMs DefaultTimingConfig (f64_of_int (int 50)) (f64_of_int (int (50 + 60))) = None
    \<and> matchStringAssertion sample_env (''~'' @ show_nat 50) (AFloat (f64_of_int (int (50 + 60)))) \<noteq> None"
  by (rule tilde_has_no_floor) simp_all

subsection \<open>Polling\<close>

text \<open>
  What the loop relies on: the clock does not run backwards, and \<open>time.Sleep\<close> pauses at
  least for the given duration. \<open>time_of\<close> is the clock in a world, \<open>polls\<close> counts the checks.
\<close>

definition clock_laws :: "('w, 'e) poll_env \<Rightarrow> ('w \<Rightarrow> int) \<Rightarrow> ('w \<Rightarrow> nat) \<Rightarrow> bool" where
  "clock_laws env time_of polls \<longleftrightarrow>
     (\<forall>w. fst (now env w) = time_of w \<and> time_of w \<le> time_of (snd (now env w)) \<and> polls (snd (now env w)) = polls w) \<and>
     (\<forall>w. time_of w \<le> time_of (snd (check env w)) \<and> polls (snd (check env w)) = polls w + 1) \<and>
     (\<forall>w d. time_of w + max d 0 \<le> time_of (sleep env d w) \<and> polls (sleep env d w) = polls w)"

lemma wait_loop_returns:
  assumes laws: "clock_laws env time_of polls" and "0 < interval"
  shows "\<exists>r w'. wait_loop env timeout interval deadline lastErr w = Some (r, w') \<and>
     (r \<noteq> None \<longrightarrow> deadline \<le> time_of w') \<and>
     (r = None \<longrightarrow> (\<exists>v. check env v = (None, w'))) \<and>
     (polls w < polls w' \<longrightarrow> (int (polls w') - int (polls w) - 1) * interval < deadline - time_of w)"
proof (induction "nat (deadline - time_of w)" arbitrary: w lastErr rule: less_induct)
  case less
  obtain t w1 where n: "now env w = (t, w1)" by (cases "now env w")
  obtain e w2 where c: "check env w1 = (e, w2)" by (cases "check env w1")
  have t: "t = time_of w" "time_of w \<le> time_of w1" "polls w1 = polls w"
    using laws n by (metis clock_laws_def fst_conv snd_conv)+
  have t2: "time_of w1 \<le> time_of w2" "polls w2 = polls w + 1"
    using laws c t(3) by (metis clock_laws_def snd_conv)+
  let ?w3 = "sleep env interval w2"
  have t3: "time_of w2 + interval \<le> time_of ?w3" "polls ?w3 = polls w + 1"
  proof -
    have "time_of w2 + max interval 0 \<le> time_of ?w3" "polls ?w3 = polls w2"
      using laws unfolding clock_laws_def by blast+
    then show "time_of w2 + interval \<le> time_of ?w3" "polls ?w3 = polls w + 1"
      using t2(2) by simp_all
  qed
  show ?case
  proof (cases "t < deadline")
    case False
    then show ?thesis using t by (subst wait_loop.simps) (simp add: n)
  next
    case lt: True
    show ?thesis
    proof (cases e)
      case None
      then show ?thesis using lt t t2 c by (subst wait_loop.simps) (auto simp: n)
    next
      case (Some err)
      have "nat (deadline - time_of ?w3) < nat (deadline - time_of w)"
        using lt t t2 t3 \<open>0 < interval\<close> by linarith
      from less [OF this, of "Some err"] obtain r w' where
        r: "wait_loop env timeout interval deadline (Some err) ?w3 = Some (r, w')"
          "r \<noteq> None \<longrightarrow> deadline \<le> time_of w'" "r = None \<longrightarrow> (\<exists>v. check env v = (None, w'))"
          "polls ?w3 < polls w' \<longrightarrow> (int (polls w') - int (polls ?w3) - 1) * interval < deadline - time_of ?w3"
        by blast
      have "(int (polls w') - int (polls w) - 1) * interval < deadline - time_of w" if "polls w < polls w'"
      proof (cases "polls ?w3 < polls w'")
        case True
        have "(int (polls w') - int (polls w) - 1) * interval
            = (int (polls w') - int (polls ?w3) - 1) * interval + interval"
          using t3 by (simp add: algebra_simps)
        with True r(4) t t2 t3 show ?thesis by linarith
      next
        case False
        with that t3 have "int (polls w') - int (polls w) - 1 = 0" by simp
        with lt t show ?thesis by simp
      qed
      with r show ?thesis using lt by (subst wait_loop.simps) (simp add: n c Some)
    qed
  qed
qed

text \<open>C26. With a clock that a sleep moves on and a positive interval, polling returns: either the last
  check succeeded or the timeout is over, and the number of checks is bounded by the timeout over
  the interval.\<close>

theorem wait_for_condition_returns:
  assumes "clock_laws env time_of polls" "0 < interval"
  shows "\<exists>r w'. WaitForCondition env timeout interval w = Some (r, w') \<and>
     (r = None \<longrightarrow> (\<exists>v. check env v = (None, w'))) \<and>
     (r \<noteq> None \<longrightarrow> time_of w + timeout \<le> time_of w') \<and>
     (polls w < polls w' \<longrightarrow> (int (polls w') - int (polls w) - 1) * interval < timeout)"
proof -
  obtain t w1 where n: "now env w = (t, w1)" by (cases "now env w")
  have t: "t = time_of w" "time_of w \<le> time_of w1" "polls w1 = polls w"
    using assms(1) n by (metis clock_laws_def fst_conv snd_conv)+
  from wait_loop_returns [OF assms, of timeout "t + timeout" None w1] t
  show ?thesis by (fastforce simp: WaitForCondition_def n)
qed

text \<open>A world that is a clock and a counter; the check passes at its third call.\<close>

definition third_time :: "(int \<times> nat, nat) poll_env" where
  "third_time = \<lparr>now = (\<lambda>w. (fst w, w)),
     check = (\<lambda>(t, n). (if n = 2 then None else Some n, (t + 1, n + 1))),
     sleep = (\<lambda>d (t, n). (t + max d 0, n))\<rparr>"

theorem wait_for_condition_returns_witness:
  "\<exists>r w'. WaitForCondition third_time 100 10 (0, 0) = Some (r, w') \<and>
     (r = None \<longrightarrow> (\<exists>v. check third_time v = (None, w'))) \<and>
     (r \<noteq> None \<longrightarrow> 100 \<le> fst w') \<and>
     (0 < snd w' \<longrightarrow> (int (snd w') - 1) * 10 < 100)"
proof -
  have "clock_laws third_time fst snd" by (auto simp: clock_laws_def third_time_def)
  from wait_for_condition_returns [OF this, of 10 100 "(0, 0)"] show ?thesis by simp
qed

lemma wait_for_condition_third_time: "WaitForCondition third_time 100 10 (0, 0) = Some (None, (23, 3))"
  by (simp add: WaitForCondition_def wait_loop.simps third_time_def)

end
