(* ===== verification/Schema.thy ===== *)
theory Schema
  imports JsonPath Timing
begin

text \<open>
  The data types of lib/schema.go and their methods. A \<open>json.RawMessage\<close> field that may be
  absent is a \<open>rawmsg option\<close> (\<open>None\<close> has length 0), an integer pointer an \<open>int option\<close>; the body
  and the headers of a result are \<open>None\<close> when nil. Strings that only carry prose (descriptions, spec references) are kept as they are.
\<close>

subsection \<open>Test cases\<close>

record TimingAssertion =
  LessThan :: "int option"
  GreaterThan :: "int option"
  Approximate :: "int option"

record Assertions =
  as_Status :: "rawmsg option"
  as_StatusIn :: "int list"
  as_Body :: "(string \<times> rawmsg) list option"
  as_BodyAbsent :: "string list"
  as_Headers :: "rawmsg option"
  as_TimingMs :: "TimingAssertion option"
  as_BodyRaw :: "rawmsg option"
  as_BodyContains :: "string list"

record Step =
  st_ID :: string
  st_Action :: string
  st_Intent :: string
  st_Path :: string
  st_Headers :: "(string \<times> string) list option"
  st_Body :: "rawmsg option"
  st_DelayMs :: int
  st_DurationMs :: int
  st_Assertions :: "Assertions option"
  st_Description :: string
  st_ParallelWith :: string

record TestCase =
  tc_TestID :: string
  tc_Level :: "rawmsg option"
  tc_Category :: string
  tc_Name :: string
  tc_Description :: string
  tc_SpecRef :: string
  tc_Tags :: "string list"
  tc_Setup :: "Step list option"
  tc_Steps :: "Step list"
  tc_Teardown :: "Step list option"
  tc_FilePath :: string
  tc_LevelInt :: int

datatype level_err = LevelNotANumber string | CannotParseLevel string

text \<open>\<open>ParseLevel\<close>: its result and the test case with \<open>LevelInt\<close> set.\<close>

definition ParseLevel :: "TestCase \<Rightarrow> (level_err + int) \<times> TestCase" where
  "ParseLevel tc =
     (case tc_Level tc of
        None \<Rightarrow> (Inr 0, tc)
      | Some raw \<Rightarrow>
          (case un_int (raw_tree raw) of
             Some n \<Rightarrow> (Inr n, tc\<lparr>tc_LevelInt := n\<rparr>)
           | None \<Rightarrow>
               (case un_string (raw_tree raw) of
                  Some str \<Rightarrow>
                    if str = ''ext'' \<or> str = ''extension'' then (Inr 99, tc\<lparr>tc_LevelInt := 99\<rparr>)
                    else (case atoi str of
                            None \<Rightarrow> (Inl (LevelNotANumber str), tc)
                          | Some n \<Rightarrow> (Inr n, tc\<lparr>tc_LevelInt := n\<rparr>))
                | None \<Rightarrow> (Inl (CannotParseLevel (trimSpace (raw_text raw))), tc))))"

subsection \<open>Header assertions\<close>

record HeaderMatcher =
  hm_Value :: string
  hm_IsRegex :: bool

text \<open>
  One header of the object format: a string, or an object of strings with a pattern under
  \<open>$match\<close> or a value under \<open>$eq\<close>; anything else is dropped.
\<close>

definition header_entry :: "rawmsg \<Rightarrow> HeaderMatcher option" where
  "header_entry val =
     (case un_string (raw_tree val) of
        Some strVal \<Rightarrow> Some \<lparr>hm_Value = strVal, hm_IsRegex = False\<rparr>
      | None \<Rightarrow>
          (case un_string_map (raw_tree val) of
             None \<Rightarrow> None
           | Some objVal \<Rightarrow>
               (case map_of objVal ''$match'' of
                  Some m \<Rightarrow> Some \<lparr>hm_Value = m, hm_IsRegex = True\<rparr>
                | None \<Rightarrow>
                    (case map_of objVal ''$eq'' of
                       Some e \<Rightarrow> Some \<lparr>hm_Value = e, hm_IsRegex = False\<rparr>
                     | None \<Rightarrow> None))))"

definition ParsedHeaderMatchers :: "Assertions \<Rightarrow> (string \<times> HeaderMatcher) list option" where
  "ParsedHeaderMatchers a =
     (case as_Headers a of
        None \<Rightarrow> None
      | Some h \<Rightarrow>
          (case un_string_map (raw_tree h) of
             Some simple \<Rightarrow> Some (map (\<lambda>(k, v). (k, \<lparr>hm_Value = v, hm_IsRegex = False\<rparr>)) simple)
           | None \<Rightarrow>
               (case un_object (raw_tree h) of
                  None \<Rightarrow> Some []
                | Some complex \<Rightarrow>
                    Some (concat (map (\<lambda>(k, v). case header_entry v of None \<Rightarrow> [] | Some m \<Rightarrow> [(k, m)]) complex)))))"

definition header_value :: "rawmsg \<Rightarrow> string option" where
  "header_value val =
     (case un_string (raw_tree val) of
        Some strVal \<Rightarrow> Some strVal
      | None \<Rightarrow>
          (case un_string_map (raw_tree val) of
             None \<Rightarrow> None
           | Some objVal \<Rightarrow>
               (case map_of objVal ''$match'' of
                  Some m \<Rightarrow> Some m
                | None \<Rightarrow> map_of objVal ''$eq'')))"

text \<open>\<open>ParsedHeaders\<close>: \<open>None\<close> is the nil map, also the one that a JSON \<open>null\<close> leaves.\<close>

definition ParsedHeaders :: "Assertions \<Rightarrow> (string \<times> string) list option" where
  "ParsedHeaders a =
     (case as_Headers a of
        None \<Rightarrow> None
      | Some h \<Rightarrow>
          if raw_tree h = JNull then None
          else case un_string_map (raw_tree h) of
             Some simple \<Rightarrow> Some simple
           | None \<Rightarrow>
               (case un_object (raw_tree h) of
                  None \<Rightarrow> Some []
                | Some complex \<Rightarrow>
                    Some (concat (map (\<lambda>(k, v). case header_value v of None \<Rightarrow> [] | Some s \<Rightarrow> [(k, s)]) complex))))"

subsection \<open>Results\<close>

record StepResult =
  sr_StepID :: string
  sr_StatusCode :: int
  sr_Headers :: "(string \<times> string list) list option"
  sr_Body :: "string option"
  sr_DurationMs :: int
  sr_Parsed :: "(string \<times> any) list option"

definition empty_result :: "string \<Rightarrow> StepResult" where
  "empty_result sid =
     \<lparr>sr_StepID = sid, sr_StatusCode = 0, sr_Headers = None, sr_Body = None, sr_DurationMs = 0, sr_Parsed = None\<rparr>"

text \<open>The body as a string and the headers as a map to look up; a nil body is an empty string.\<close>

definition body_text :: "StepResult \<Rightarrow> string" where
  "body_text sr = (case sr_Body sr of None \<Rightarrow> [] | Some t \<Rightarrow> t)"

definition header_map :: "StepResult \<Rightarrow> (string \<times> string list) list" where
  "header_map sr = (case sr_Headers sr of None \<Rightarrow> [] | Some h \<Rightarrow> h)"

text \<open>A nil \<open>map[string]any\<close> passed as \<open>any\<close> reads as an empty object.\<close>

definition parsed_any :: "StepResult \<Rightarrow> any" where
  "parsed_any sr = AObj (case sr_Parsed sr of None \<Rightarrow> [] | Some o' \<Rightarrow> o')"

record 'm Failure =
  f_StepID :: string
  f_Field :: string
  f_Expected :: string
  f_Actual :: string
  f_Message :: 'm

record 'm TestResult =
  tr_TestID :: string
  tr_Name :: string
  tr_Level :: int
  tr_Category :: string
  tr_SpecRef :: string
  tr_Status :: string
  tr_DurationMs :: int
  tr_Failures :: "'m Failure list"
  tr_StepResults :: "StepResult list"
  tr_FilePath :: string

text \<open>Where a report comes from: the revision, the environment, the server and the submitter.\<close>

record CommitInfo =
  ci_SHA :: string
  ci_Branch :: string
  ci_Repo :: string
  ci_Tag :: string
  ci_Dirty :: bool
  ci_CommitTS :: string

record EnvironmentInfo =
  ei_OS :: string
  ei_Arch :: string
  ei_GoVersion :: string
  ei_Hostname :: string
  ei_CIProvider :: string
  ei_CIRunURL :: string
  ei_Tags :: "(string \<times> string) list"

record BackendInfo =
  bi_Name :: string
  bi_Version :: string
  bi_URL :: string

record SubmitterInfo =
  si_Org :: string
  si_Contact :: string
  si_KeyID :: string
  si_Anonymous :: bool

definition LevelName :: "int \<Rightarrow> string" where
  "LevelName level =
     (if level = 0 then ''Core''
      else if level = 1 then ''Reliable''
      else if level = 2 then ''Scheduled''
      else if level = 3 then ''Orchestration''
      else if level = 4 then ''Advanced''
      else ''Unknown'')"

subsection \<open>Properties\<close>

lemma header_value_entry: "header_value v = map_option hm_Value (header_entry v)"
  by (simp add: header_value_def header_entry_def split: option.splits)

lemma map_concat_entries:
  "map (\<lambda>(k, m). (k, hm_Value m)) (concat (map (\<lambda>(k, v). case header_entry v of None \<Rightarrow> [] | Some m \<Rightarrow> [(k, m)]) kvs))
     = concat (map (\<lambda>(k, v). case header_value v of None \<Rightarrow> [] | Some s \<Rightarrow> [(k, s)]) kvs)"
  by (induction kvs) (auto simp: header_value_entry split: option.splits)

theorem parsed_headers_agree:
  "(case ParsedHeaders a of None \<Rightarrow> [] | Some hs \<Rightarrow> hs) =
   map (\<lambda>(k, m). (k, hm_Value m)) (case ParsedHeaderMatchers a of None \<Rightarrow> [] | Some ms \<Rightarrow> ms)"
  by (auto simp: ParsedHeaders_def ParsedHeaderMatchers_def map_concat_entries comp_def case_prod_unfold
        un_string_map_def split: option.splits simp del: map_concat)
    (simp add: map_concat_entries [unfolded case_prod_unfold])

definition sample_case :: "rawmsg option \<Rightarrow> TestCase" where
  "sample_case l = \<lparr>tc_TestID = ''L0-001'', tc_Level = l, tc_Category = ''envelope'', tc_Name = ''n'',
     tc_Description = [], tc_SpecRef = [], tc_Tags = [], tc_Setup = None, tc_Steps = [], tc_Teardown = None,
     tc_FilePath = [], tc_LevelInt = 0\<rparr>"

lemma show_int_not_word: "show_int n \<noteq> ''ext'' \<and> show_int n \<noteq> ''extension''"
proof -
  have "CHR ''e'' \<notin> set (show_int n)"
    by (auto simp: show_int_def is_digit_def dest!: show_nat_chars)
  then show ?thesis by auto
qed

theorem parse_level_number_or_string:
  assumes "in_int64 n" "tc_Level tc = Some (Raw t j)" "j = JNum (show_int n) \<or> j = JStr (show_int n)"
  shows "ParseLevel tc = (Inr n, tc\<lparr>tc_LevelInt := n\<rparr>)"
  using assms show_int_not_word [of n] by (auto simp: ParseLevel_def atoi_show_int)

theorem parse_level_number_or_string_witness:
  "ParseLevel (sample_case (Some (Raw ''x'' (JStr (show_int 3))))) =
     (Inr 3, (sample_case (Some (Raw ''x'' (JStr (show_int 3)))))\<lparr>tc_LevelInt := 3\<rparr>)"
  by (rule parse_level_number_or_string [where t = "''x''" and j = "JStr (show_int 3)"])
    (simp_all add: in_int64_def int64_min_def int64_max_def sample_case_def)

end
