(* ===== verification/StepEval.thy ===== *)
theory StepEval
  imports Schema "HOL-Library.Sublist"
begin

text \<open>
  What a step asserts about its response: the template references \<open>{{steps.ID.response.body.PATH}}\<close>
  and the functions \<open>resolveTemplates\<close>, \<open>resolveMatcherTemplates\<close>, \<open>evaluateStatusAssertion\<close>
  and \<open>evaluateAssertions\<close> of runner/http/runner.go. The gRPC runner has copies of its own, in
  \<open>GrpcEval\<close>; the data of the messages is shared, where \<open>'c\<close> is what its copy adds to a status message.
\<close>

type_synonym results = "string \<Rightarrow> StepResult option"

subsection \<open>Templates\<close>

text \<open>
  The regular expression \<open>templateRefPattern\<close> at the front of a string: the step id, the path
  and what follows the match. The id excludes dots and the path closing braces, so there is
  at most one way to match.
\<close>

definition template_at :: "string \<Rightarrow> (string \<times> string \<times> string) option" where
  "template_at s =
     (case cutPrefix s ([ch 123, ch 123] @ ''steps.'') of
        None \<Rightarrow> None
      | Some t \<Rightarrow>
          (let sid = takeWhile (\<lambda>c. c \<noteq> CHR ''.'') t in
           case cutPrefix (drop (length sid) t) ''.response.body.'' of
             None \<Rightarrow> None
           | Some u \<Rightarrow>
               (let p = takeWhile (\<lambda>c. c \<noteq> ch 125) u in
                case cutPrefix (drop (length p) u) [ch 125, ch 125] of
                  None \<Rightarrow> None
                | Some r \<Rightarrow> if sid = [] \<or> p = [] then None else Some (sid, p, r))))"

lemma cutPrefix_length: "cutPrefix s p = Some r \<Longrightarrow> length r \<le> length s"
  by (auto simp: cutPrefix_def split: if_splits)

lemma template_at_shorter: "template_at s = Some (sid, p, r) \<Longrightarrow> length r < length s"
proof -
  assume a: "template_at s = Some (sid, p, r)"
  obtain t where t: "cutPrefix s ([ch 123, ch 123] @ ''steps.'') = Some t"
    using a by (auto simp: template_at_def split: option.splits)
  have "length t < length s"
    using t by (auto simp: cutPrefix_def hasPrefix_iff split: if_splits)
  moreover have "length r \<le> length t"
    using a unfolding template_at_def t option.case Let_def
    by (auto dest!: cutPrefix_length split: option.splits if_splits)
  ultimately show ?thesis by simp
qed

text \<open>What a reference is replaced by; \<open>None\<close> keeps the reference as it is written.\<close>

definition template_value :: "go_env \<Rightarrow> results \<Rightarrow> string \<Rightarrow> string \<Rightarrow> string option" where
  "template_value env m sid fieldPath =
     (case m sid of
        None \<Rightarrow> None
      | Some sr \<Rightarrow>
          (if sr_Parsed sr = None then None
           else case ResolveJSONPath fieldPath (parsed_any sr) of
             Inl e \<Rightarrow> None
           | Inr val \<Rightarrow>
               (case val of
                  ANil \<Rightarrow> None
                | AStr v \<Rightarrow> Some v
                | AFloat v \<Rightarrow>
                    (let n = f64_to_int64 (conv_oob env) v in
                     if f64_eq v (f64_of_int n) then Some (show_int n) else Some (fmt_float v))
                | _ \<Rightarrow> Some (case marshal val of Some b \<Rightarrow> b | None \<Rightarrow> []))))"

function resolveTemplates :: "go_env \<Rightarrow> results \<Rightarrow> string \<Rightarrow> string" where
  "resolveTemplates env m [] = []"
| "resolveTemplates env m (c # s) =
     (case template_at (c # s) of
        None \<Rightarrow> c # resolveTemplates env m s
      | Some (sid, p, r) \<Rightarrow>
          (case template_value env m sid p of
             Some v \<Rightarrow> v
           | None \<Rightarrow> take (length (c # s) - length r) (c # s)) @ resolveTemplates env m r)"
  by pat_completeness auto
termination
  by (relation "measure (\<lambda>(env, m, s). length s)") (auto dest!: template_at_shorter)

text \<open>A matcher after template resolution is a text again, and the tree it parses to, if any.\<close>

type_synonym resolved = "string \<times> json option"

definition resolveMatcherTemplates :: "go_env \<Rightarrow> results \<Rightarrow> rawmsg \<Rightarrow> resolved" where
  "resolveMatcherTemplates env m matcher =
     (let s = raw_text matcher in
      if \<not> strContains s ([ch 123, ch 123] @ ''steps.'') then (s, Some (raw_tree matcher))
      else let r = resolveTemplates env m s in
        if r \<noteq> s then (r, json_parse r) else (s, Some (raw_tree matcher)))"

definition matchResolved :: "go_env \<Rightarrow> resolved \<Rightarrow> any \<Rightarrow> merr option" where
  "matchResolved env rm a =
     (let (t, jo) = rm in
      if t = ''null'' then (if a \<noteq> ANil then Some (Mismatch ''null'' a) else None)
      else case jo of
        None \<Rightarrow> Some (UnknownMatcher t)
      | Some j \<Rightarrow> MatchAssertion env (Raw t j) a)"

definition is_absent :: "resolved \<Rightarrow> bool" where
  "is_absent rm \<longleftrightarrow> (case snd rm of Some j \<Rightarrow> un_string j = Some ''absent'' | None \<Rightarrow> False)"

subsection \<open>Status assertions\<close>

datatype 'c serr =
    StatusMismatch int int 'c
  | InvalidStatusCode string
  | NotOneOf string int 'c
  | StatusMatcher merr
  | StatusNotIn "int list" int 'c
  | UnknownStatusFormat string

text \<open>The loop over the codes of \<open>one_of:\<close>: it stops at the first code that matches or is malformed.\<close>

fun one_of_loop :: "string list \<Rightarrow> int \<Rightarrow> unit serr \<Rightarrow> unit serr option" where
  "one_of_loop [] actual e = Some e"
| "one_of_loop (codeStr # cs) actual e =
     (case atoi (trimSpace codeStr) of
        None \<Rightarrow> Some (InvalidStatusCode (trimSpace codeStr))
      | Some code \<Rightarrow> if actual = code then None else one_of_loop cs actual e)"

definition evaluateStatusAssertion :: "go_env \<Rightarrow> rawmsg \<Rightarrow> int \<Rightarrow> unit serr option" where
  "evaluateStatusAssertion env raw actual =
     (case un_int (raw_tree raw) of
        Some statusInt \<Rightarrow>
          if actual \<noteq> statusInt then Some (StatusMismatch statusInt actual ()) else None
      | None \<Rightarrow>
          (case un_string (raw_tree raw) of
             Some statusStr \<Rightarrow>
               if hasPrefix statusStr ''one_of:'' then
                 one_of_loop (strSplit (CHR '','') (drop 7 statusStr)) actual
                   (NotOneOf (drop 7 statusStr) actual ())
               else map_option StatusMatcher (MatchAssertion env raw (AFloat (f64_of_int actual)))
           | None \<Rightarrow>
               (case un_object (raw_tree raw) of
                  None \<Rightarrow> Some (UnknownStatusFormat (raw_text raw))
                | Some statusObj \<Rightarrow>
                    (case map_of statusObj ''$in'' of
                       None \<Rightarrow> Some (UnknownStatusFormat (raw_text raw))
                     | Some inRaw \<Rightarrow>
                         (case un_int_list (raw_tree inRaw) of
                            None \<Rightarrow> Some (UnknownStatusFormat (raw_text raw))
                          | Some inList \<Rightarrow>
                              if actual \<in> set inList then None
                              else Some (StatusNotIn inList actual ()))))))"

subsection \<open>Failures\<close>

text \<open>The data of a failure's message.\<close>

datatype 'c fmsg =
    MStatus "'c serr"
  | MStatusIn "int list" int
  | MNoAlternative
  | MUnresolvedPath string jerr
  | MAssertion string merr
  | MNotAbsent string
  | MHeader string string string
  | MNotFaster int int
  | MNotSlower int int
  | MTiming terr
  | MBodyLacks string
  | MCreateRequest string
  | MRequest string
  | MReadBody string
  | MNoMethod string string
  | MSetup "'c fmsg"

definition failure :: "string \<Rightarrow> string \<Rightarrow> string \<Rightarrow> string \<Rightarrow> 'm \<Rightarrow> 'm Failure" where
  "failure sid field expected actual msg =
     \<lparr>f_StepID = sid, f_Field = field, f_Expected = expected, f_Actual = actual, f_Message = msg\<rparr>"

text \<open>\<open>%v\<close> of an \<open>[]int\<close>.\<close>

definition fmt_ints :: "int list \<Rightarrow> string" where
  "fmt_ints ns = ''['' @ strJoin '' '' (map show_int ns) @ '']''"

text \<open>The entries of a Go map in the order in which \<open>range\<close> visits them.\<close>

definition ranged :: "go_env \<Rightarrow> (string \<times> 'a) list \<Rightarrow> (string \<times> 'a) list" where
  "ranged env kvs =
     concat (map (\<lambda>k. case map_of kvs k of Some v \<Rightarrow> [(k, v)] | None \<Rightarrow> []) (map_iter env (map fst kvs)))"

subsection \<open>The parts of evaluateAssertions\<close>

definition checkStatus :: "go_env \<Rightarrow> string \<Rightarrow> Assertions \<Rightarrow> StepResult \<Rightarrow> unit fmsg Failure list" where
  "checkStatus env sid a sr =
     (case as_Status a of
        None \<Rightarrow> []
      | Some raw \<Rightarrow>
          (case evaluateStatusAssertion env raw (sr_StatusCode sr) of
             None \<Rightarrow> []
           | Some err \<Rightarrow> [failure sid ''status'' (raw_text raw) (show_int (sr_StatusCode sr)) (MStatus err)]))"

definition checkStatusIn :: "string \<Rightarrow> Assertions \<Rightarrow> StepResult \<Rightarrow> unit fmsg Failure list" where
  "checkStatusIn sid a sr =
     (if as_StatusIn a \<noteq> [] \<and> sr_StatusCode sr \<notin> set (as_StatusIn a)
      then [failure sid ''status'' (''one of '' @ fmt_ints (as_StatusIn a)) (show_int (sr_StatusCode sr))
              (MStatusIn (as_StatusIn a) (sr_StatusCode sr))]
      else [])"

text \<open>One alternative of a top-level \<open>$or\<close>: every path has to resolve and match.\<close>

definition alternative_ok :: "go_env \<Rightarrow> results \<Rightarrow> StepResult \<Rightarrow> rawmsg \<Rightarrow> bool" where
  "alternative_ok env m sr alt =
     (case un_object (raw_tree alt) of
        None \<Rightarrow> False
      | Some altBody \<Rightarrow>
          list_all (\<lambda>(p, mt).
            case ResolveJSONPath p (parsed_any sr) of
              Inl e \<Rightarrow> False
            | Inr val \<Rightarrow> matchResolved env (resolveMatcherTemplates env m mt) val = None) altBody)"

definition checkOr :: "go_env \<Rightarrow> results \<Rightarrow> string \<Rightarrow> (string \<times> rawmsg) list \<Rightarrow> StepResult \<Rightarrow> unit fmsg Failure list" where
  "checkOr env m sid body sr =
     (case map_of body ''$or'' of
        None \<Rightarrow> []
      | Some orRaw \<Rightarrow>
          (case un_array (raw_tree orRaw) of
             None \<Rightarrow> []
           | Some alternatives \<Rightarrow>
               if list_ex (alternative_ok env m sr) alternatives then []
               else [failure sid ''$or'' [] [] MNoAlternative]))"

definition checkPath :: "go_env \<Rightarrow> results \<Rightarrow> string \<Rightarrow> StepResult \<Rightarrow> string \<times> rawmsg \<Rightarrow> unit fmsg Failure list" where
  "checkPath env m sid sr pm =
     (let (path, matcher) = pm in
      if hasPrefix path ''$'' \<and> \<not> hasPrefix path ''$.'' then []
      else
        let resolvedPath = resolveTemplates env m path;
            resolvedMatcher = resolveMatcherTemplates env m matcher
        in case ResolveJSONPath resolvedPath (parsed_any sr) of
             Inl err \<Rightarrow>
               if is_absent resolvedMatcher then []
               else [failure sid path [] [] (MUnresolvedPath path err)]
           | Inr val \<Rightarrow>
               (case matchResolved env resolvedMatcher val of
                  None \<Rightarrow> []
                | Some err \<Rightarrow>
                    [failure sid path (fst resolvedMatcher)
                       (if val = ANil then ''null'' else case marshal val of Some b \<Rightarrow> b | None \<Rightarrow> [])
                       (MAssertion path err)]))"

definition checkBody :: "go_env \<Rightarrow> results \<Rightarrow> string \<Rightarrow> Assertions \<Rightarrow> StepResult \<Rightarrow> unit fmsg Failure list" where
  "checkBody env m sid a sr =
     (case as_Body a of
        None \<Rightarrow> []
      | Some body \<Rightarrow>
          checkOr env m sid body sr @
          (if sr_Parsed sr = None then []
           else concat (map (checkPath env m sid sr) (ranged env body))))"

definition checkAbsent :: "string \<Rightarrow> Assertions \<Rightarrow> StepResult \<Rightarrow> unit fmsg Failure list" where
  "checkAbsent sid a sr =
     concat (map (\<lambda>path.
        case ResolveJSONPath path (parsed_any sr) of
          Inl e \<Rightarrow> []
        | Inr val \<Rightarrow> if val \<noteq> ANil then [failure sid path [] [] (MNotAbsent path)] else [])
        (as_BodyAbsent a))"

text \<open>\<open>http.Header.Get\<close>: the first value under the canonical form of the key.\<close>

definition is_token_char :: "char \<Rightarrow> bool" where
  "is_token_char c \<longleftrightarrow> is_digit c \<or> (65 \<le> byte c \<and> byte c \<le> 90) \<or> (97 \<le> byte c \<and> byte c \<le> 122)
     \<or> c \<in> set ''!#$%&*+-.^_|~'' \<or> byte c = 39 \<or> byte c = 96"

fun canonical_from :: "bool \<Rightarrow> string \<Rightarrow> string" where
  "canonical_from up [] = []"
| "canonical_from up (c # s) =
     (if up then upper_char c else lower_char c) # canonical_from (c = CHR ''-'') s"

definition canonicalKey :: "string \<Rightarrow> string" where
  "canonicalKey k = (if list_all is_token_char k then canonical_from True k else k)"

definition header_get :: "(string \<times> string list) list \<Rightarrow> string \<Rightarrow> string" where
  "header_get hs k = (case map_of hs (canonicalKey k) of Some (v # vs) \<Rightarrow> v | _ \<Rightarrow> [])"

definition headerMatches :: "go_env \<Rightarrow> HeaderMatcher \<Rightarrow> string \<Rightarrow> bool" where
  "headerMatches env hm actual =
     (if hm_IsRegex hm then (case re_compile env (hm_Value hm) of Some re \<Rightarrow> re actual | None \<Rightarrow> False)
      else actual = hm_Value hm)"

definition checkHeaders :: "go_env \<Rightarrow> string \<Rightarrow> Assertions \<Rightarrow> StepResult \<Rightarrow> unit fmsg Failure list" where
  "checkHeaders env sid a sr =
     (case ParsedHeaderMatchers a of
        None \<Rightarrow> []
      | Some hms \<Rightarrow>
          concat (map (\<lambda>(key, hm).
            let actual = header_get (header_map sr) key in
            if headerMatches env hm actual then []
            else [failure sid (''header:'' @ key) (hm_Value hm) actual (MHeader key (hm_Value hm) actual)])
            (ranged env hms)))"

definition checkTiming :: "TimingConfig \<Rightarrow> string \<Rightarrow> Assertions \<Rightarrow> StepResult \<Rightarrow> unit fmsg Failure list" where
  "checkTiming cfg sid a sr =
     (case as_TimingMs a of
        None \<Rightarrow> []
      | Some t \<Rightarrow>
          (case LessThan t of
             Some n \<Rightarrow>
               if n \<le> sr_DurationMs sr
               then [failure sid ''timing'' (''< '' @ show_int n @ ''ms'') (show_int (sr_DurationMs sr) @ ''ms'')
                       (MNotFaster n (sr_DurationMs sr))] else []
           | None \<Rightarrow> []) @
          (case GreaterThan t of
             Some n \<Rightarrow>
               if sr_DurationMs sr \<le> n
               then [failure sid ''timing'' (''> '' @ show_int n @ ''ms'') (show_int (sr_DurationMs sr) @ ''ms'')
                       (MNotSlower n (sr_DurationMs sr))] else []
           | None \<Rightarrow> []) @
          (case Approximate t of
             Some n \<Rightarrow>
               (case AssertApproximateMs cfg (f64_of_int n) (f64_of_int (sr_DurationMs sr)) of
                  Some err \<Rightarrow> [failure sid ''timing'' [] [] (MTiming err)]
                | None \<Rightarrow> [])
           | None \<Rightarrow> []))"

text \<open>The code's \<open>Expected\<close> quotes the missing text with \<open>%q\<close>; the model keeps the bare text.\<close>

definition checkContains :: "string \<Rightarrow> Assertions \<Rightarrow> StepResult \<Rightarrow> unit fmsg Failure list" where
  "checkContains sid a sr =
     concat (map (\<lambda>substr.
        if strContains (body_text sr) substr then []
        else [failure sid ''body_contains'' substr [] (MBodyLacks substr)]) (as_BodyContains a))"

subsection \<open>evaluateAssertions\<close>

definition http_evaluateAssertions ::
    "go_env \<Rightarrow> TimingConfig \<Rightarrow> string \<Rightarrow> Assertions \<Rightarrow> StepResult \<Rightarrow> results \<Rightarrow> unit fmsg Failure list" where
  "http_evaluateAssertions env cfg sid a sr m =
     checkStatus env sid a sr @ checkStatusIn sid a sr @ checkBody env m sid a sr
     @ checkAbsent sid a sr @ checkHeaders env sid a sr @ checkTiming cfg sid a sr @ checkContains sid a sr"

text \<open>Every failure carries the id of the step.\<close>

lemma failure_StepID [simp]: "f_StepID (failure sid fl e ac msg) = sid"
  by (simp add: failure_def)

lemma check_labels:
  "f \<in> set (checkStatus env sid a sr) \<Longrightarrow> f_StepID f = sid"
  "f \<in> set (checkStatusIn sid a sr) \<Longrightarrow> f_StepID f = sid"
  "f \<in> set (checkBody env m sid a sr) \<Longrightarrow> f_StepID f = sid"
  "f \<in> set (checkAbsent sid a sr) \<Longrightarrow> f_StepID f = sid"
  "f \<in> set (checkHeaders env sid a sr) \<Longrightarrow> f_StepID f = sid"
  "f \<in> set (checkTiming cfg sid a sr) \<Longrightarrow> f_StepID f = sid"
  "f \<in> set (checkContains sid a sr) \<Longrightarrow> f_StepID f = sid"
proof -
  have or: "f \<in> set (checkOr env m sid body sr) \<Longrightarrow> f_StepID f = sid" for f :: "unit fmsg Failure" and body
    by (auto simp: checkOr_def split: option.splits if_splits)
  have path: "f \<in> set (checkPath env m sid sr pm) \<Longrightarrow> f_StepID f = sid" for f :: "unit fmsg Failure" and pm
    by (auto simp: checkPath_def Let_def split: prod.splits sum.splits option.splits if_splits)
  show "f \<in> set (checkBody env m sid a sr) \<Longrightarrow> f_StepID f = sid" for f :: "unit fmsg Failure"
    by (auto simp: checkBody_def dest: or path split: option.splits if_splits)
qed (auto simp: checkStatus_def checkStatusIn_def checkAbsent_def checkHeaders_def checkTiming_def
    checkContains_def Let_def split: option.splits sum.splits if_splits)

lemma evaluate_labels: "f \<in> set (http_evaluateAssertions env cfg sid a sr m) \<Longrightarrow> f_StepID f = sid"
  by (auto simp: http_evaluateAssertions_def dest: check_labels)

subsection \<open>Templates\<close>

lemma template_at_prefix: "template_at s = Some x \<Longrightarrow> hasPrefix s ([ch 123, ch 123] @ ''steps.'')"
  by (auto simp: template_at_def cutPrefix_def split: option.splits if_splits)

lemma resolveTemplates_plain:
  "\<not> strContains s ([ch 123, ch 123] @ ''steps.'') \<Longrightarrow> resolveTemplates env m s = s"
proof (induction s)
  case (Cons c s)
  then have np: "\<not> hasPrefix (c # s) ([ch 123, ch 123] @ ''steps.'')"
    and s: "\<not> strContains s ([ch 123, ch 123] @ ''steps.'')"
    by (auto simp: strContains_def split: if_splits)
  have "template_at (c # s) = None"
    using np template_at_prefix by (cases "template_at (c # s)") blast+
  then show ?case using Cons.IH s by simp
qed simp

definition template_ref :: "string \<Rightarrow> string \<Rightarrow> string" where
  "template_ref sid p = ([ch 123, ch 123] @ ''steps.'') @ sid @ ''.response.body.'' @ p @ [ch 125, ch 125]"

lemma template_at_ref:
  assumes "sid \<noteq> []" "CHR ''.'' \<notin> set sid" "p \<noteq> []" "ch 125 \<notin> set p"
  shows "template_at (template_ref sid p @ r) = Some (sid, p, r)"
proof -
  let ?t = "sid @ ''.response.body.'' @ p @ [ch 125, ch 125] @ r"
  let ?u = "p @ [ch 125, ch 125] @ r"
  have s: "template_ref sid p @ r = ([ch 123, ch 123] @ ''steps.'') @ ?t"
    by (simp add: template_ref_def)
  have t: "takeWhile (\<lambda>c. c \<noteq> CHR ''.'') ?t = sid"
    using assms(2) by (subst takeWhile_append2) auto
  have u: "takeWhile (\<lambda>c. c \<noteq> ch 125) ?u = p"
    using assms(4) by (subst takeWhile_append2) auto
  have d: "drop (length sid) ?t = ''.response.body.'' @ ?u" "drop (length p) ?u = [ch 125, ch 125] @ r"
    by simp_all
  show ?thesis
    unfolding template_at_def s cutPrefix_append option.case Let_def t d u
    using assms by simp
qed

text \<open>Text without the opening of a reference.\<close>

definition reference_free :: "string \<Rightarrow> bool" where
  "reference_free t \<longleftrightarrow> \<not> strContains t ([ch 123, ch 123] @ ''steps.'')"

lemma opening_not_overlapping:
  assumes "b \<noteq> CHR ''s''" "b \<noteq> CHR ''.''" "length q \<in> {1, 2, 3, 4, 5, 6, 7}"
  shows "\<not> hasPrefix (q @ [b, b] @ ''steps.'' @ r) ([b, b] @ ''steps.'')"
  using assms by (auto simp: hasPrefix_def length_Suc_conv eval_nat_numeral)

text \<open>The opening does not overlap itself, so no match begins in front of a reference either.\<close>

lemma no_match_before:
  assumes "reference_free (c # q)" "hasPrefix s ([ch 123, ch 123] @ ''steps.'') \<or> s = []"
  shows "template_at (c # q @ s) = None"
proof -
  let ?K = "[ch 123, ch 123] @ ''steps.''"
  have brace: "ch 123 \<noteq> CHR ''s''" "ch 123 \<noteq> CHR ''.''" by (simp_all add: ch_def char_of_def bit_Suc_0_iff)
  have "\<not> hasPrefix (c # q @ s) ?K"
  proof
    assume h: "hasPrefix (c # q @ s) ?K"
    have n: "\<not> hasPrefix (c # q) ?K" using assms(1) by (auto simp: reference_free_def strContains_def split: if_splits)
    have "length (c # q) < 8"
    proof (rule ccontr)
      assume "\<not> length (c # q) < 8"
      then have "8 - length (c # q) = 0" by arith
      then have "take 8 ((c # q) @ s) = take 8 (c # q)" unfolding take_append by simp
      moreover have "length ?K = 8" by simp
      ultimately show False using h n unfolding hasPrefix_def append_Cons [symmetric] by metis
    qed
    moreover from assms(2) have False if "length (c # q) = j" "1 \<le> j" "j < 8" for j
    proof
      assume "hasPrefix s ?K"
      then obtain r where r: "s = ?K @ r" by (auto simp: hasPrefix_iff)
      from that have "length (c # q) \<in> {1, 2, 3, 4, 5, 6, 7}" unfolding that(1) by (simp only: insert_iff empty_iff) arith
      from opening_not_overlapping [OF brace this, of r] h r show False by simp
    next
      assume "s = []"
      with h n show False by simp
    qed
    ultimately show False by auto
  qed
  then show ?thesis using template_at_prefix by (cases "template_at (c # q @ s)") blast+
qed

lemma reference_free_tl: "reference_free (c # q) \<Longrightarrow> reference_free q"
  by (auto simp: reference_free_def strContains_def split: if_splits)

lemma resolveTemplates_skip:
  "reference_free pre \<Longrightarrow> hasPrefix s ([ch 123, ch 123] @ ''steps.'') \<or> s = [] \<Longrightarrow>
   resolveTemplates env m (pre @ s) = pre @ resolveTemplates env m s"
proof (induction pre)
  case (Cons c q)
  then show ?case using no_match_before [of c q s] reference_free_tl by simp
qed simp

text \<open>
  What a value looks like where it replaces a reference: a string as it is, a whole number in decimal
  digits, another number as the fmt verb %v prints it, anything else but nil as JSON.
\<close>

inductive spliced :: "any \<Rightarrow> string \<Rightarrow> bool" where
  sp_string: "spliced (AStr s) s"
| sp_whole: "f64_finite x \<Longrightarrow> f64_val x = of_int n \<Longrightarrow> \<bar>n\<bar> \<le> 2 ^ 53 \<Longrightarrow> spliced (AFloat x) (show_int n)"
| sp_fraction: "f64_finite x \<Longrightarrow> f64_val x \<notin> \<int> \<Longrightarrow> \<bar>f64_val x\<bar> < 2 ^ 53 \<Longrightarrow> spliced (AFloat x) (fmt_float x)"
| sp_json: "v \<noteq> ANil \<Longrightarrow> (\<forall>s. v \<noteq> AStr s) \<Longrightarrow> (\<forall>x. v \<noteq> AFloat x) \<Longrightarrow> marshal v = Some t \<Longrightarrow> spliced v t"

text \<open>
  What a reference to a step and a path stands for: the value that the path selects in the object that
  the step was answered with; if there is no such object or value, the reference itself.
\<close>

inductive stands_for :: "results \<Rightarrow> string \<Rightarrow> string \<Rightarrow> string \<Rightarrow> bool" for m where
  no_step: "m sid = None \<Longrightarrow> stands_for m sid p (template_ref sid p)"
| no_object: "m sid = Some sr \<Longrightarrow> sr_Parsed sr = None \<Longrightarrow> stands_for m sid p (template_ref sid p)"
| no_path: "m sid = Some sr \<Longrightarrow> sr_Parsed sr = Some body \<Longrightarrow> ResolveJSONPath p (AObj body) = Inl e
    \<Longrightarrow> stands_for m sid p (template_ref sid p)"
| no_value: "m sid = Some sr \<Longrightarrow> sr_Parsed sr = Some body \<Longrightarrow> ResolveJSONPath p (AObj body) = Inr ANil
    \<Longrightarrow> stands_for m sid p (template_ref sid p)"
| a_value: "m sid = Some sr \<Longrightarrow> sr_Parsed sr = Some body \<Longrightarrow> ResolveJSONPath p (AObj body) = Inr v
    \<Longrightarrow> spliced v t \<Longrightarrow> stands_for m sid p t"

lemma template_value_spliced:
  assumes "spliced v t" "m sid = Some sr" "sr_Parsed sr = Some body" "ResolveJSONPath p (AObj body) = Inr v"
  shows "template_value env m sid p = Some t"
  using assms(1)
proof cases
  case sp_string
  then show ?thesis using assms by (simp add: template_value_def parsed_any_def)
next
  case (sp_whole x n)
  have "f64_to_int64 (conv_oob env) x = n"
    using sp_whole in_int64_small by (simp add: f64_to_int64_def)
  moreover have "f64_eq x (f64_of_int n)"
    using sp_whole by (cases x) (auto simp: f64_of_int_exact f64_eq_def f64_le_def)
  ultimately show ?thesis using assms sp_whole by (simp add: template_value_def parsed_any_def Let_def)
next
  case (sp_fraction x)
  let ?n = "rat_trunc (f64_val x)"
  have n: "\<bar>?n\<bar> \<le> 2 ^ 53"
  proof -
    have "\<bar>(of_int ?n :: rat)\<bar> \<le> \<bar>f64_val x\<bar>" by (auto simp: rat_trunc_def)
    also have "\<dots> \<le> of_int (2 ^ 53)" using sp_fraction by simp
    finally have "(of_int \<bar>?n\<bar> :: rat) \<le> of_int (2 ^ 53)" by simp
    then show ?thesis by (simp only: of_int_le_iff)
  qed
  have "f64_val x \<noteq> of_int ?n" using sp_fraction by (metis Ints_of_int)
  then have "\<not> f64_eq x (f64_of_int ?n)"
    using n sp_fraction by (cases x) (auto simp: f64_of_int_exact f64_eq_def f64_le_def)
  moreover have "f64_to_int64 (conv_oob env) x = ?n"
    using n sp_fraction in_int64_small by (simp add: f64_to_int64_def)
  ultimately show ?thesis using assms sp_fraction by (simp add: template_value_def parsed_any_def Let_def)
next
  case sp_json
  then show ?thesis using assms by (cases v) (simp_all add: template_value_def parsed_any_def del: marshal.simps)
qed

lemma template_value_stands:
  "stands_for m sid p t \<Longrightarrow> (case template_value env m sid p of Some v \<Rightarrow> v | None \<Rightarrow> template_ref sid p) = t"
proof (induction rule: stands_for.induct)
  case (a_value sid sr body p v t)
  then show ?case by (simp add: template_value_spliced)
qed (simp_all add: template_value_def parsed_any_def)

lemma resolveTemplates_ref:
  assumes "reference_free pre" "sid \<noteq> []" "CHR ''.'' \<notin> set sid" "p \<noteq> []" "ch 125 \<notin> set p" "stands_for m sid p t"
  shows "resolveTemplates env m (pre @ template_ref sid p @ post) = pre @ t @ resolveTemplates env m post"
proof -
  obtain c s where cs: "template_ref sid p @ post = c # s"
    by (cases "template_ref sid p @ post") (auto simp: template_ref_def)
  have "take (length (c # s) - length post) (c # s) = template_ref sid p"
    unfolding cs [symmetric] by simp
  moreover have "template_at (c # s) = Some (sid, p, post)"
    unfolding cs [symmetric] using assms by (intro template_at_ref)
  ultimately have "resolveTemplates env m (c # s) = t @ resolveTemplates env m post"
    using template_value_stands [OF assms(6), of env] by (simp split: option.splits)
  moreover have "hasPrefix (template_ref sid p @ post) ([ch 123, ch 123] @ ''steps.'')"
    by (simp add: template_ref_def hasPrefix_def)
  ultimately show ?thesis
    using resolveTemplates_skip [OF assms(1)] unfolding cs by simp
qed

text \<open>A text as the pieces between its references, each with the step and the path of the reference behind it.\<close>

type_synonym piece = "string \<times> string \<times> string"

definition piece_ok :: "piece \<Rightarrow> bool" where
  "piece_ok q \<longleftrightarrow> (case q of (pre, sid, p) \<Rightarrow>
     reference_free pre \<and> sid \<noteq> [] \<and> CHR ''.'' \<notin> set sid \<and> p \<noteq> [] \<and> ch 125 \<notin> set p)"

definition text_of :: "piece list \<Rightarrow> string \<Rightarrow> string" where
  "text_of qs rest = concat (map (\<lambda>(pre, sid, p). pre @ template_ref sid p) qs) @ rest"

definition text_with :: "piece list \<Rightarrow> string list \<Rightarrow> string \<Rightarrow> string" where
  "text_with qs ts rest = concat (map2 (\<lambda>(pre, sid, p) t. pre @ t) qs ts) @ rest"

text \<open>C24. In any text, JSON bodies included, resolving templates replaces every reference
  {{steps.ID.response.body.PATH}}, with an ID that is not empty and has no dot and a PATH that is
  not empty and has no closing brace, by what it stands for and changes nothing else, where the
  text between the references does not contain the opening {{steps. itself. A reference stands for
  the value that its path selects in the object its step was answered with: a string as it is, a
  whole number up to 2^53 in digits, another number below 2^53 as %v prints it, any other value
  that is not a number as JSON (larger numbers are not covered); it stays as it is written when
  the step has no result or no object, and when the path fails or selects nothing.\<close>

theorem template_substitution:
  assumes "list_all piece_ok qs" "reference_free rest" "list_all2 (\<lambda>(pre, sid, p) t. stands_for m sid p t) qs ts"
  shows "resolveTemplates env m (text_of qs rest) = text_with qs ts rest"
  using assms(3,1)
proof (induction rule: list_all2_induct)
  case Nil
  then show ?case using assms(2) by (simp add: text_of_def text_with_def resolveTemplates_plain reference_free_def)
next
  case (Cons q qs t ts)
  obtain pre sid p where q: "q = (pre, sid, p)" by (cases q) auto
  have "text_of (q # qs) rest = pre @ template_ref sid p @ text_of qs rest" by (simp add: text_of_def q)
  then show ?case
    using Cons resolveTemplates_ref [of pre sid p m t env "text_of qs rest"]
    by (simp add: q piece_ok_def text_with_def)
qed
definition enqueued :: StepResult where
  "enqueued = (empty_result ''enqueue'')\<lparr>sr_StatusCode := 201,
     sr_Parsed := Some [(''id'', AStr ''j-1''), (''attempt'', AFloat (Fin 2))]\<rparr>"

text \<open>A JSON body: a string and a number of an earlier answer, and a step without a result.\<close>

definition sample_body :: "string \<Rightarrow> string \<Rightarrow> string \<Rightarrow> string" where
  "sample_body i n x = ([ch 123, ch 34] @ ''id'' @ [ch 34] @ '':'' @ [ch 34]) @ i @ ([ch 34] @ '',n:'') @ n @ '',x:'' @ x @ [ch 125]"

theorem template_substitution_witness:
  "resolveTemplates sample_env [''enqueue'' \<mapsto> enqueued]
     (sample_body (template_ref ''enqueue'' ''id'') (template_ref ''enqueue'' ''attempt'') (template_ref ''get'' ''id''))
   = sample_body ''j-1'' (show_int 2) (template_ref ''get'' ''id'')"
proof -
  have path: "ResolveJSONPath k data = lookup_path [k] data" if "plain_seg k" "k \<noteq> []" "\<not> hasPrefix k ''$.''" for k data
    using that split_join_plain [of "[k]"] resolve_plain [of "[k]" data]
    by (simp add: ResolveJSONPath_def path_parts_def del: resolve_parts.simps lookup_path.simps)
  have attempt: "plain_seg ''attempt''" by (simp add: plain_seg_def)
  have parsed: "sr_Parsed enqueued = Some [(''id'', AStr ''j-1''), (''attempt'', AFloat (Fin 2))]" by (simp add: enqueued_def)
  let ?m = "[''enqueue'' \<mapsto> enqueued]"
  let ?qs = "[([ch 123, ch 34] @ ''id'' @ [ch 34] @ '':'' @ [ch 34], ''enqueue'', ''id''), ([ch 34] @ '',n:'', ''enqueue'', ''attempt''),
      ('',x:'', ''get'', ''id'')]"
  have "stands_for ?m ''enqueue'' ''id'' ''j-1''"
    by (rule a_value [OF _ parsed _ sp_string]) (simp_all add: path plain_seg_samples hasPrefix_def)
  moreover have "spliced (AFloat (Fin 2)) (show_int 2)" by (rule sp_whole) simp_all
  then have "stands_for ?m ''enqueue'' ''attempt'' (show_int 2)"
    by (rule a_value [OF _ parsed, rotated 2]) (simp_all add: path attempt hasPrefix_def)
  moreover have "stands_for ?m ''get'' ''id'' (template_ref ''get'' ''id'')"
    by (rule no_step) simp
  moreover have "list_all piece_ok ?qs" "reference_free [ch 125]"
    by (simp_all add: piece_ok_def reference_free_def strContains_def hasPrefix_def ch_def char_of_def bit_Suc_0_iff)
  ultimately show ?thesis
    using template_substitution [of ?qs "[ch 125]" ?m "[''j-1'', show_int 2, template_ref ''get'' ''id'']" sample_env]
    by (simp add: sample_body_def text_of_def text_with_def)
qed

lemma cutPrefix_suffix: "cutPrefix s p = Some r \<Longrightarrow> suffix r s"
  by (auto simp: cutPrefix_def suffix_drop split: if_splits)

lemma template_at_suffix: "template_at s = Some (sid, p, r) \<Longrightarrow> suffix r s"
proof -
  assume a: "template_at s = Some (sid, p, r)"
  then obtain t u where "suffix t s" "suffix u (drop (length sid) t)" "suffix r (drop (length p) u)"
    by (auto simp: template_at_def Let_def dest!: cutPrefix_suffix split: option.splits if_splits)
  then show ?thesis by (meson suffix_drop suffix_order.trans)
qed

lemma resolveTemplates_empty: "resolveTemplates env (\<lambda>_. None) s = s"
proof (induction env "\<lambda>_::string. None :: StepResult option" s rule: resolveTemplates.induct)
  case (2 env c s)
  show ?case
  proof (cases "template_at (c # s)")
    case (Some x)
    then obtain sid p r where x: "template_at (c # s) = Some (sid, p, r)" by (cases x) auto
    then obtain q where "c # s = q @ r"
      using template_at_suffix by (meson suffixE)
    then have "take (length (c # s) - length r) (c # s) @ r = c # s" by auto
    then show ?thesis using 2(2) [OF x refl refl] by (simp add: x template_value_def)
  qed (use 2 in simp)
qed simp

subsection \<open>Status\<close>

lemma one_of_loop_show:
  "list_all in_int64 ns \<Longrightarrow> one_of_loop (map show_int ns) actual e = (if actual \<in> set ns then None else Some e)"
  by (induction ns) (auto simp: atoi_show_int)

lemma strSplit_no_sep: "sep \<notin> set w \<Longrightarrow> strSplit sep w = [w]"
  by (induction w) auto

lemma strSplit_append_sep: "sep \<notin> set w \<Longrightarrow> strSplit sep (w @ sep # s) = w # strSplit sep s"
  by (induction w) auto

lemma strSplit_strJoin:
  "ws \<noteq> [] \<Longrightarrow> \<forall>w \<in> set ws. sep \<notin> set w \<Longrightarrow> strSplit sep (strJoin [sep] ws) = ws"
proof (induction ws)
  case (Cons w ws)
  then show ?case by (cases ws) (auto simp: strSplit_no_sep strSplit_append_sep)
qed simp

lemma those_list_map: "those_list (map (Some \<circ> f) xs) = Some (map f xs)"
  by (induction xs) auto

definition in_doc :: "int list \<Rightarrow> json" where
  "in_doc ns = JObj [Field ''$in'' (Raw ''...'' (JArr (map (\<lambda>n. Raw (show_int n) (JNum (show_int n))) ns)))]"

lemma those_list_atoi: "list_all in_int64 ns \<Longrightarrow> those_list (map (atoi \<circ> show_int) ns) = Some ns"
  by (induction ns) (auto simp: atoi_show_int)

theorem status_list_forms_agree:
  assumes "ns \<noteq> []" "list_all in_int64 ns"
  shows "(evaluateStatusAssertion env (Raw t (JStr (''one_of:'' @ strJoin '','' (map show_int ns)))) actual = None
            \<longleftrightarrow> actual \<in> set ns)
      \<and> (evaluateStatusAssertion env (Raw t (in_doc ns)) actual = None \<longleftrightarrow> actual \<in> set ns)"
proof
  have "CHR '','' \<notin> set (show_int n)" for n
    by (auto simp: show_int_def is_digit_def dest!: show_nat_chars)
  then have s: "strSplit (CHR '','') (strJoin '','' (map show_int ns)) = map show_int ns"
    using assms(1) by (intro strSplit_strJoin) auto
  show "evaluateStatusAssertion env (Raw t (JStr (''one_of:'' @ strJoin '','' (map show_int ns)))) actual = None
            \<longleftrightarrow> actual \<in> set ns"
    using s by (simp add: one_of_loop_show [OF assms(2)] evaluateStatusAssertion_def hasPrefix_def)
  show "evaluateStatusAssertion env (Raw t (in_doc ns)) actual = None \<longleftrightarrow> actual \<in> set ns"
    using those_list_atoi [OF assms(2)]
    by (simp add: evaluateStatusAssertion_def in_doc_def un_int_list_def comp_def)
qed

theorem status_list_forms_agree_witness:
  "evaluateStatusAssertion sample_env (Raw ''s'' (in_doc [200, 409])) 409 = None
   \<and> evaluateStatusAssertion sample_env (Raw ''s'' (JStr (''one_of:'' @ strJoin '','' (map show_int [200, 409])))) 404 \<noteq> None"
  using status_list_forms_agree [of "[200, 409]" sample_env "''s''" 409]
    status_list_forms_agree [of "[200, 409]" sample_env "''s''" 404]
  by (simp add: in_int64_def int64_min_def int64_max_def del: strJoin.simps)

subsection \<open>Evaluation\<close>

text \<open>Body assertions say nothing about a body that is not a JSON object.\<close>

theorem body_assertions_vacuous:
  assumes "sr_Parsed sr = None" "as_Body a = Some body" "map_of body ''$or'' = None"
  shows "http_evaluateAssertions env cfg sid a sr m =
     http_evaluateAssertions env cfg sid (a\<lparr>as_Body := None\<rparr>) sr m"
  using assms
  by (simp add: http_evaluateAssertions_def checkBody_def checkOr_def checkStatus_def checkStatusIn_def
      checkAbsent_def checkHeaders_def checkTiming_def checkContains_def ParsedHeaderMatchers_def)

definition no_assertions :: Assertions where
  "no_assertions = \<lparr>as_Status = None, as_StatusIn = [], as_Body = None, as_BodyAbsent = [], as_Headers = None,
     as_TimingMs = None, as_BodyRaw = None, as_BodyContains = []\<rparr>"

theorem body_assertions_vacuous_witness:
  "http_evaluateAssertions sample_env DefaultTimingConfig ''s1''
     (no_assertions\<lparr>as_Body := Some [(''$.id'', Raw ''x'' (JStr ''string:nonempty''))]\<rparr>)
     ((empty_result ''s1'')\<lparr>sr_StatusCode := 200, sr_Body := Some ''[1,2]''\<rparr>) (\<lambda>_. None) = []"
proof -
  have "sr_Parsed ((empty_result ''s1'')\<lparr>sr_StatusCode := 200, sr_Body := Some ''[1,2]''\<rparr>) = None"
    by (simp add: empty_result_def)
  from body_assertions_vacuous [OF this, of "no_assertions\<lparr>as_Body := Some [(''$.id'', Raw ''x'' (JStr ''string:nonempty''))]\<rparr>"]
  show ?thesis
    by (simp add: http_evaluateAssertions_def checkBody_def checkStatus_def checkStatusIn_def no_assertions_def
        checkAbsent_def checkHeaders_def checkTiming_def checkContains_def ParsedHeaderMatchers_def)
qed

declare MatchAssertion.simps [simp del] matchArrayAssertion.simps [simp del] matchObjectAssertion.simps [simp del]

lemma conv_oob_iter: "conv_oob (env\<lparr>map_iter := it\<rparr>) = conv_oob env"
  by simp

lemma template_value_iter [simp]: "template_value (env\<lparr>map_iter := it\<rparr>) m sid p = template_value env m sid p"
  unfolding template_value_def conv_oob_iter ..

lemma resolveTemplates_iter [simp]: "resolveTemplates (env\<lparr>map_iter := it\<rparr>) m s = resolveTemplates env m s"
  by (induction env m s rule: resolveTemplates.induct) (auto split: option.splits)

lemma resolveMatcher_iter [simp]: "resolveMatcherTemplates (env\<lparr>map_iter := it\<rparr>) m r = resolveMatcherTemplates env m r"
  by (simp add: resolveMatcherTemplates_def Let_def)

lemma matchResolved_iter:
  assumes "wf_env env" "\<And>ks. set (it ks) = set ks"
  shows "(matchResolved (env\<lparr>map_iter := it\<rparr>) rm a = None) = (matchResolved env rm a = None)"
  using MatchAssertion_iter_aux(1) [of it env] assms
  by (auto simp: matchResolved_def split: prod.splits option.splits)

lemma ranged_set:
  assumes "wf_env env"
  shows "set (ranged env kvs) = {(k, v). map_of kvs k = Some v}"
  using assms
  by (auto simp: ranged_def wf_env_def split: option.splits) (metis map_of_SomeD fst_conv image_eqI)

lemma concat_map_Nil_iff: "concat (map f xs) = [] \<longleftrightarrow> (\<forall>x \<in> set xs. f x = [])"
  by (auto simp: concat_eq_Nil_conv)

lemma checkStatus_iter:
  assumes "wf_env env" "\<And>ks. set (it ks) = set ks"
  shows "(checkStatus (env\<lparr>map_iter := it\<rparr>) sid a sr = []) = (checkStatus env sid a sr = [])"
  using MatchAssertion_iter_aux(1) [of it env] assms
  by (auto simp: checkStatus_def evaluateStatusAssertion_def split: option.splits)

lemma checkPath_iter:
  assumes "wf_env env" "\<And>ks. set (it ks) = set ks"
  shows "(checkPath (env\<lparr>map_iter := it\<rparr>) m sid sr pm = ([] :: unit fmsg Failure list))
    = (checkPath env m sid sr pm = ([] :: unit fmsg Failure list))"
  using matchResolved_iter [of env it, OF assms]
  by (auto simp: checkPath_def Let_def split: prod.splits option.splits sum.splits)

lemma alternative_iter:
  assumes "wf_env env" "\<And>ks. set (it ks) = set ks"
  shows "alternative_ok (env\<lparr>map_iter := it\<rparr>) m sr = alternative_ok env m sr"
  unfolding alternative_ok_def fun_eq_iff resolveMatcher_iter matchResolved_iter [OF assms] by simp

lemma checkBody_iter:
  assumes "wf_env env" "\<And>ks. set (it ks) = set ks"
  shows "(checkBody (env\<lparr>map_iter := it\<rparr>) m sid a sr = ([] :: unit fmsg Failure list))
    = (checkBody env m sid a sr = ([] :: unit fmsg Failure list))"
proof -
  have "wf_env (env\<lparr>map_iter := it\<rparr>)" using assms by (intro wf_env_update)
  then show ?thesis
    by (auto simp: checkPath_iter [of env it, OF assms] alternative_iter [of env it, OF assms] checkBody_def checkOr_def concat_map_Nil_iff ranged_set assms(1) split: option.splits)
qed

lemma checkHeaders_iter:
  assumes "wf_env env" "\<And>ks. set (it ks) = set ks"
  shows "(checkHeaders (env\<lparr>map_iter := it\<rparr>) sid a sr = ([] :: unit fmsg Failure list))
    = (checkHeaders env sid a sr = ([] :: unit fmsg Failure list))"
proof -
  have "wf_env (env\<lparr>map_iter := it\<rparr>)" using assms by (intro wf_env_update)
  then show ?thesis
    by (auto simp: checkHeaders_def concat_map_Nil_iff ranged_set assms(1) headerMatches_def Let_def split: option.splits if_splits)
qed

text \<open>C22. Whether a step passes its assertions does not depend on the order in which Go ranges over the
  body and header assertions.\<close>

theorem http_evaluation_order_independent:
  assumes "wf_env env" "\<And>ks. set (it ks) = set ks"
  shows "http_evaluateAssertions (env\<lparr>map_iter := it\<rparr>) cfg sid a sr m = [] \<longleftrightarrow>
     http_evaluateAssertions env cfg sid a sr m = []"
  unfolding http_evaluateAssertions_def append_is_Nil_conv
  by (simp add: checkStatus_iter [OF assms] checkBody_iter [OF assms] checkHeaders_iter [OF assms])

text \<open>Two body assertions, the second of which fails, visited in either order.\<close>

definition two_fields :: Assertions where
  "two_fields = no_assertions\<lparr>as_Body := Some [(''$.id'', Raw ''j-1'' (JStr ''j-1'')), (''$.attempt'', Raw ''3'' (JNum ''3''))]\<rparr>"

theorem http_evaluation_order_independent_witness:
  "(http_evaluateAssertions (sample_env\<lparr>map_iter := rev\<rparr>) DefaultTimingConfig ''s1'' two_fields enqueued (\<lambda>_. None) = [])
   = (http_evaluateAssertions sample_env DefaultTimingConfig ''s1'' two_fields enqueued (\<lambda>_. None) = [])"
  by (rule http_evaluation_order_independent) simp_all

end
