(* ===== verification/Go_Time.thy ===== *)
theory Go_Time
  imports Go_Float "HOL-Library.Monad_Syntax"
begin

text \<open>
  What the program uses of package time: instants and \<open>Format\<close> with the layouts RFC3339 and
  RFC3339Nano, \<open>Parse\<close> with the latter, and \<open>ParseDuration\<close>. Durations are nanoseconds, kept in
  the range of int64 where the code computes with them.
\<close>

subsection \<open>Instants and their text\<close>

text \<open>
  \<open>time.Time\<close>: nanoseconds since 1970 and the offset of its zone in seconds. \<open>clock_text\<close> is
  the date and the time of day, for the years 0 to 9999, \<open>rfc3339\<close> is \<open>Format(time.RFC3339)\<close>.
\<close>

record go_time =
  gt_ns :: int
  gt_off :: int

definition civil_from_days :: "int \<Rightarrow> int \<times> int \<times> int" where
  "civil_from_days days =
     (let z = days + 719468; era = z div 146097; doe = z mod 146097;
          yoe = (doe - doe div 1460 + doe div 36524 - doe div 146096) div 365;
          doy = doe - (365 * yoe + yoe div 4 - yoe div 100);
          mp = (5 * doy + 2) div 153;
          m = (if mp < 10 then mp + 3 else mp - 9)
      in (yoe + era * 400 + (if m \<le> 2 then 1 else 0), m, doy - (153 * mp + 2) div 5 + 1))"

definition pad_int :: "nat \<Rightarrow> int \<Rightarrow> string" where
  "pad_int w n = (let d = show_int n in replicate (w - length d) (CHR ''0'') @ d)"

definition zone_text :: "int \<Rightarrow> string" where
  "zone_text off =
     (if off = 0 then ''Z''
      else let mins = \<bar>off\<bar> div 60
           in (if off \<le> - 60 then ''-'' else ''+'') @ pad_int 2 (mins div 60) @ '':'' @ pad_int 2 (mins mod 60))"

definition clock_text :: "int \<Rightarrow> string" where
  "clock_text secs =
     (let (y, m, d) = civil_from_days (secs div 86400); tod = secs mod 86400
      in pad_int 4 y @ ''-'' @ pad_int 2 m @ ''-'' @ pad_int 2 d @ ''T''
         @ pad_int 2 (tod div 3600) @ '':'' @ pad_int 2 (tod div 60 mod 60) @ '':'' @ pad_int 2 (tod mod 60))"

definition rfc3339 :: "go_time \<Rightarrow> string" where
  "rfc3339 t = clock_text (gt_ns t div 10 ^ 9 + gt_off t) @ zone_text (gt_off t)"

definition time_add :: "go_time \<Rightarrow> int \<Rightarrow> go_time" where
  "time_add t d = t\<lparr>gt_ns := gt_ns t + d\<rparr>"

text \<open>The fraction of a second, without trailing zeros.\<close>

definition nano_text :: "int \<Rightarrow> string" where
  "nano_text n = (if n = 0 then [] else CHR ''.'' # rev (dropWhile (\<lambda>c. c = CHR ''0'') (rev (pad_int 9 n))))"

text \<open>\<open>AsTime().Format(time.RFC3339Nano)\<close> of a timestamp, in nanoseconds since 1970.\<close>

definition rfc3339nano :: "int \<Rightarrow> string" where
  "rfc3339nano ns = clock_text (ns div 10 ^ 9) @ nano_text (ns mod 10 ^ 9) @ ''Z''"

subsection \<open>Parsing RFC3339Nano\<close>

definition days_from_civil :: "int \<Rightarrow> int \<Rightarrow> int \<Rightarrow> int" where
  "days_from_civil y0 m d =
     (let y = (if m \<le> 2 then y0 - 1 else y0); era = y div 400; yoe = y mod 400;
          mp = (if 2 < m then m - 3 else m + 9);
          doy = (153 * mp + 2) div 5 + d - 1;
          doe = yoe * 365 + yoe div 4 - yoe div 100 + doy
      in era * 146097 + doe - 719468)"

definition days_in :: "int \<Rightarrow> int \<Rightarrow> int" where
  "days_in y m =
     (if m = 2 then (if 4 dvd y \<and> (\<not> 100 dvd y \<or> 400 dvd y) then 29 else 28)
      else if m \<in> {4, 6, 9, 11} then 30 else 31)"

text \<open>\<open>getnum\<close>: one or two digits, exactly two if \<open>fixed\<close>.\<close>

fun getnum :: "bool \<Rightarrow> string \<Rightarrow> (int \<times> string) option" where
  "getnum fixed (a # b # s) =
     (if \<not> is_digit a then None
      else if is_digit b then Some (int (digits_val [a, b]), s)
      else if fixed then None else Some (int (digit_val a), b # s))"
| "getnum fixed [a] = (if is_digit a \<and> \<not> fixed then Some (int (digit_val a), []) else None)"
| "getnum fixed [] = None"

text \<open>A two-digit field within a range, behind a separator.\<close>

definition get_field :: "char \<Rightarrow> bool \<Rightarrow> int \<Rightarrow> int \<Rightarrow> string \<Rightarrow> (int \<times> string) option" where
  "get_field sep fixed lo hi s =
     (case s of
        [] \<Rightarrow> None
      | c # t \<Rightarrow>
          if c \<noteq> sep then None
          else case getnum fixed t of
            None \<Rightarrow> None
          | Some (n, r) \<Rightarrow> if lo \<le> n \<and> n \<le> hi then Some (n, r) else None)"

text \<open>The optional fraction: nine digits count, the others are skipped. A comma is accepted as well.\<close>

definition get_nanos :: "string \<Rightarrow> int \<times> string" where
  "get_nanos s =
     (case s of
        c # d # t \<Rightarrow>
          if (c = CHR ''.'' \<or> c = CHR '','') \<and> is_digit d then
            (let ds = takeWhile is_digit (d # t); nine = take 9 ds
             in (int (digits_val nine) * 10 ^ (9 - length nine), drop (length ds) (d # t)))
          else (0, s)
      | _ \<Rightarrow> (0, s))"

text \<open>The zone: \<open>Z\<close>, or an offset up to 24 hours and 60 minutes; the offset in seconds.\<close>

definition get_zone :: "string \<Rightarrow> int option" where
  "get_zone s =
     (if s = ''Z'' then Some 0
      else if length s \<noteq> 6 \<or> s ! 3 \<noteq> CHR '':'' \<or> (s ! 0 \<noteq> CHR ''+'' \<and> s ! 0 \<noteq> CHR ''-'') then None
      else case (getnum True (take 2 (drop 1 s)), getnum True (drop 4 s)) of
        (Some (hh, _), Some (mm, _)) \<Rightarrow>
          if 24 < hh \<or> 60 < mm then None
          else Some ((if s ! 0 = CHR ''-'' then - 1 else 1) * (hh * 60 + mm) * 60)
      | _ \<Rightarrow> None)"

text \<open>\<open>time.Parse(time.RFC3339Nano, s)\<close>, in nanoseconds since 1970.\<close>

definition parse_rfc3339nano :: "string \<Rightarrow> int option" where
  "parse_rfc3339nano s =
     (if length s < 4 \<or> \<not> list_all is_digit (take 4 s) then None
      else do {
        let y = int (digits_val (take 4 s));
        (m, s1) \<leftarrow> get_field (CHR ''-'') True 1 12 (drop 4 s);
        (d, s2) \<leftarrow> get_field (CHR ''-'') True 0 99 s1;
        (hh, s3) \<leftarrow> get_field (CHR ''T'') False 0 23 s2;
        (mm, s4) \<leftarrow> get_field (CHR '':'') True 0 59 s3;
        (ss, s5) \<leftarrow> get_field (CHR '':'') True 0 59 s4;
        let (ns, s6) = get_nanos s5;
        off \<leftarrow> get_zone s6;
        if d < 1 \<or> days_in y m < d then None
        else Some ((days_from_civil y m d * 86400 + hh * 3600 + mm * 60 + ss - off) * 10 ^ 9 + ns) })"

subsection \<open>ParseDuration\<close>

definition unit_ns :: "string \<Rightarrow> int option" where
  "unit_ns u = map_of
     [(''ns'', 1), (''us'', 10 ^ 3), ([ch 0xC2, ch 0xB5, CHR ''s''], 10 ^ 3), ([ch 0xCE, ch 0xBC, CHR ''s''], 10 ^ 3),
      (''ms'', 10 ^ 6), (''s'', 10 ^ 9), (''m'', 60 * 10 ^ 9), (''h'', 3600 * 10 ^ 9)] u"

text \<open>\<open>leadingFraction\<close>: the digits that fit into 63 bits, and the power of ten they are divided by.\<close>

fun leading_fraction :: "nat \<Rightarrow> nat \<Rightarrow> string \<Rightarrow> nat \<times> nat" where
  "leading_fraction x k [] = (x, k)"
| "leading_fraction x k (c # cs) =
     (if (2 ^ 63 - 1) div 10 < x then (x, k)
      else let y = x * 10 + digit_val c in
        if 2 ^ 63 < y then (x, k) else leading_fraction y (Suc k) cs)"

text \<open>The digits before and behind a point, and the rest.\<close>

definition scan_decimal :: "string \<Rightarrow> string \<times> string \<times> string" where
  "scan_decimal s =
     (let pre = takeWhile is_digit s; s1 = drop (length pre) s in
      case s1 of
        c # t \<Rightarrow>
          if c = CHR ''.'' then (let post = takeWhile is_digit t in (pre, post, drop (length post) t)) else (pre, [], s1)
      | [] \<Rightarrow> (pre, [], s1))"

text \<open>One number with its unit and the rest of the text.\<close>

definition duration_part :: "string \<Rightarrow> (int \<times> string) option" where
  "duration_part s =
     (let (pre, post, s2) = scan_decimal s;
          u = takeWhile (\<lambda>c. c \<noteq> CHR ''.'' \<and> \<not> is_digit c) s2;
          v = digits_val pre
      in if 2 ^ 63 < v \<or> (pre = [] \<and> post = []) \<or> u = [] then None
         else case unit_ns u of
           None \<Rightarrow> None
         | Some unit \<Rightarrow>
             if 2 ^ 63 div unit < int v then None
             else let (f, k) = leading_fraction 0 0 post;
                      extra = (if 0 < f then rat_trunc (f64_val (f64_mult (f64_of_int (int f))
                                 (f64_div (f64_of_int unit) (f64_of_int (10 ^ k))))) else 0);
                      tot = int v * unit + extra
                  in if 0 < f \<and> 2 ^ 63 < tot then None else Some (tot, drop (length u) s2))"

lemma scan_decimal_shorter: "scan_decimal s = (pre, post, s2) \<Longrightarrow> length s2 \<le> length s"
  by (auto simp: scan_decimal_def Let_def split: list.splits if_splits dest!: arg_cong [of _ _ length])

lemma duration_part_shorter: "duration_part s = Some (v, r) \<Longrightarrow> length r < length s"
proof -
  assume s: "duration_part s = Some (v, r)"
  obtain pre post s2 where sc: "scan_decimal s = (pre, post, s2)" by (metis prod.exhaust)
  define u where "u = takeWhile (\<lambda>c. c \<noteq> CHR ''.'' \<and> \<not> is_digit c) s2"
  have "u \<noteq> []" "r = drop (length u) s2"
    using s by (auto simp: duration_part_def sc u_def [symmetric] Let_def split: if_splits option.splits prod.splits)
  moreover have "length u \<le> length s2" unfolding u_def by (rule length_takeWhile_le)
  ultimately show ?thesis using scan_decimal_shorter [OF sc] by (cases u) (auto simp: Suc_le_eq)
qed

function duration_loop :: "int \<Rightarrow> string \<Rightarrow> int option" where
  "duration_loop d s =
     (if s = [] then Some d
      else case duration_part s of
        None \<Rightarrow> None
      | Some (v, r) \<Rightarrow>
          (let d1 = (d + v) mod 2 ^ 64 in if 2 ^ 63 < d1 then None else duration_loop d1 r))"
  by pat_completeness auto

termination
  by (relation "measure (\<lambda>(d, s). length s)") (auto dest: duration_part_shorter)

declare duration_loop.simps [simp del]

definition ParseDuration :: "string \<Rightarrow> int option" where
  "ParseDuration s0 =
     (let (neg, s) = (case s0 of c # t \<Rightarrow> if c = CHR ''-'' \<or> c = CHR ''+'' then (c = CHR ''-'', t) else (False, s0) | [] \<Rightarrow> (False, []))
      in if s = ''0'' then Some 0
         else if s = [] then None
         else case duration_loop 0 s of
           None \<Rightarrow> None
         | Some d \<Rightarrow> if neg then Some (- d) else if 2 ^ 63 - 1 < d then None else Some d)"

text \<open>\<open>time.Duration(v) * time.Second\<close>: the product wraps at 64 bits.\<close>

definition wrap64 :: "int \<Rightarrow> int" where
  "wrap64 n = (n + 2 ^ 63) mod 2 ^ 64 - 2 ^ 63"

end
