(* ===== verification/GrpcMessages.thy ===== *)
theory GrpcMessages
  imports Go_Json Go_Time "HOL-Library.AList"
begin

text \<open>
  The messages of the service and the conversions of runner/grpc/client.go: \<open>buildEnqueueOptions\<close>
  from the body of a test step, \<open>protoJobToMap\<close> and \<open>protoWorkflowToMap\<close> to the JSON that the
  assertions see. The generated types are not in the repository: the records have the fields that
  the code reads or writes, an enum value stands as the name its \<open>String\<close> method gives, a time
  as nanoseconds since 1970, a duration as nanoseconds, a \<open>structpb\<close> value as the value that it
  wraps, and a field that is only passed on to the encoder as \<open>any\<close>. \<open>None\<close> is a nil pointer.
\<close>

type_synonym gomap = "(string \<times> any) list"

subsection \<open>Status codes\<close>

text \<open>\<open>codes.Code\<close> of the gRPC library: its named codes, and any other number.\<close>

datatype grpc_code =
    OK | Canceled | UnknownCode | InvalidArgument | DeadlineExceeded | NotFound | AlreadyExists
  | PermissionDenied | ResourceExhausted | FailedPrecondition | Aborted | OutOfRange | Unimplemented
  | Internal | Unavailable | DataLoss | Unauthenticated | OtherCode nat

text \<open>
  The parts of the libraries that the code relies on: \<open>structpb.NewValue\<close> and \<open>NewStruct\<close> (\<open>None\<close>
  is an error), the names in \<open>JobState_value\<close>, the name of a status code, and the conversions
  of floats out of the range of int64 and int32, which Go leaves to the implementation.
\<close>

record pb_env =
  pb_NewValue :: "any \<Rightarrow> any option"
  pb_NewStruct :: "gomap \<Rightarrow> gomap option"
  pb_JobStates :: "string list"
  pb_CodeName :: "grpc_code \<Rightarrow> string"
  pb_oob64 :: "f64 \<Rightarrow> int"
  pb_oob32 :: "f64 \<Rightarrow> int"

definition to_int32 :: "pb_env \<Rightarrow> f64 \<Rightarrow> int" where
  "to_int32 pe x =
     (if f64_finite x \<and> - (2 ^ 31) \<le> rat_trunc (f64_val x) \<and> rat_trunc (f64_val x) < 2 ^ 31
      then rat_trunc (f64_val x) else pb_oob32 pe x)"

text \<open>\<open>time.Duration(v) * time.Second\<close>.\<close>

definition seconds :: "pb_env \<Rightarrow> f64 \<Rightarrow> int" where
  "seconds pe x = wrap64 (f64_to_int64 (pb_oob64 pe) x * 10 ^ 9)"

subsection \<open>Messages\<close>

record RetryPolicy =
  ry_MaxAttempts :: int
  ry_InitialInterval :: "int option"
  ry_MaxInterval :: "int option"
  ry_BackoffCoefficient :: f64

record UniquePolicy =
  uq_Key :: "string list"
  uq_Period :: "int option"
  uq_OnConflict :: string
  uq_States :: "string list"

record EnqueueOptions =
  eo_Queue :: string
  eo_Priority :: int
  eo_MaxAttempts :: int
  eo_Tags :: "string list"
  eo_TraceId :: string
  eo_DelayUntil :: "int option"
  eo_Timeout :: "int option"
  eo_Ttl :: "int option"
  eo_Retry :: "RetryPolicy option"
  eo_Unique :: "UniquePolicy option"
  eo_Meta :: "gomap option"

record JobError =
  je_Message :: string
  je_Code :: string
  je_Attempt :: int

record Job =
  jb_Id :: string
  jb_Type :: string
  jb_Queue :: string
  jb_State :: string
  jb_Attempt :: int
  jb_Priority :: int
  jb_MaxAttempts :: int
  jb_Specversion :: string
  jb_CreatedAt :: "int option"
  jb_EnqueuedAt :: "int option"
  jb_ScheduledAt :: "int option"
  jb_StartedAt :: "int option"
  jb_CompletedAt :: "int option"
  jb_ExpiresAt :: "int option"
  jb_Args :: "any list"
  jb_Errors :: "JobError list"
  jb_Tags :: "string list"
  jb_TraceId :: string
  jb_WorkflowId :: string
  jb_Result :: "gomap option"
  jb_Meta :: "gomap option"
  jb_RetryPolicy :: "RetryPolicy option"
  jb_UniquePolicy :: "UniquePolicy option"

record WorkflowStepState =
  wt_Id :: string
  wt_Type :: string
  wt_State :: string
  wt_JobId :: string
  wt_DependsOn :: "string list"

record Workflow =
  wf_Id :: string
  wf_Name :: string
  wf_State :: string
  wf_CreatedAt :: "int option"
  wf_CompletedAt :: "int option"
  wf_Steps :: "WorkflowStepState list"

subsection \<open>Type assertions on the entries of a map\<close>

text \<open>\<open>if v, ok := m[k].(T); ok { ... }\<close>: the statement applied to the state, or the state.\<close>

definition if_str :: "gomap \<Rightarrow> string \<Rightarrow> (string \<Rightarrow> 's \<Rightarrow> 's) \<Rightarrow> 's \<Rightarrow> 's" where
  "if_str m k f s = (case map_of m k of Some (AStr v) \<Rightarrow> f v s | _ \<Rightarrow> s)"

definition if_num :: "gomap \<Rightarrow> string \<Rightarrow> (f64 \<Rightarrow> 's \<Rightarrow> 's) \<Rightarrow> 's \<Rightarrow> 's" where
  "if_num m k f s = (case map_of m k of Some (AFloat v) \<Rightarrow> f v s | _ \<Rightarrow> s)"

definition if_arr :: "gomap \<Rightarrow> string \<Rightarrow> (any list \<Rightarrow> 's \<Rightarrow> 's) \<Rightarrow> 's \<Rightarrow> 's" where
  "if_arr m k f s = (case map_of m k of Some (AArr v) \<Rightarrow> f v s | _ \<Rightarrow> s)"

definition if_obj :: "gomap \<Rightarrow> string \<Rightarrow> (gomap \<Rightarrow> 's \<Rightarrow> 's) \<Rightarrow> 's \<Rightarrow> 's" where
  "if_obj m k f s = (case map_of m k of Some (AObj v) \<Rightarrow> f v s | _ \<Rightarrow> s)"

text \<open>\<open>if x, err := ...; err == nil { ... }\<close>.\<close>

definition if_ok :: "'a option \<Rightarrow> ('a \<Rightarrow> 's \<Rightarrow> 's) \<Rightarrow> 's \<Rightarrow> 's" where
  "if_ok x f s = (case x of Some v \<Rightarrow> f v s | None \<Rightarrow> s)"

named_theorems assertions_ok \<open>the type assertions on map entries, for evaluation\<close>

declare if_str_def [assertions_ok] if_num_def [assertions_ok] if_arr_def [assertions_ok]
  if_obj_def [assertions_ok] if_ok_def [assertions_ok]

definition strings_of :: "any list \<Rightarrow> string list" where
  "strings_of vs = concat (map (\<lambda>v. case v of AStr s \<Rightarrow> [s] | _ \<Rightarrow> []) vs)"

definition new_values :: "pb_env \<Rightarrow> any list \<Rightarrow> any list" where
  "new_values pe vs = List.map_filter (pb_NewValue pe) vs"

subsection \<open>buildEnqueueOptions\<close>

text \<open>The statements thread the message and the flag \<open>hasOpts\<close>; \<open>setting\<close> updates the message and sets the flag.\<close>

definition setting :: "('m \<Rightarrow> 'm) \<Rightarrow> 'm \<times> bool \<Rightarrow> 'm \<times> bool" where
  "setting f s = (f (fst s), True)"

definition retry_policy :: "pb_env \<Rightarrow> gomap \<Rightarrow> RetryPolicy option" where
  "retry_policy pe m =
     (let s0 = (\<lparr>ry_MaxAttempts = 0, ry_InitialInterval = None, ry_MaxInterval = None, ry_BackoffCoefficient = Fin 0\<rparr>, False);
          s1 = if_num m ''max_attempts'' (\<lambda>v. setting (\<lambda>r. r\<lparr>ry_MaxAttempts := to_int32 pe v\<rparr>)) s0;
          s2 = if_num m ''initial_interval'' (\<lambda>v. setting (\<lambda>r. r\<lparr>ry_InitialInterval := Some (seconds pe v)\<rparr>)) s1;
          s3 = if_num m ''initial_delay'' (\<lambda>v. setting (\<lambda>r. r\<lparr>ry_InitialInterval := Some (seconds pe v)\<rparr>)) s2;
          s4 = if_str m ''initial_interval''
                 (\<lambda>v. if_ok (ParseDuration v) (\<lambda>d. setting (\<lambda>r. r\<lparr>ry_InitialInterval := Some d\<rparr>))) s3;
          s5 = if_num m ''max_interval'' (\<lambda>v. setting (\<lambda>r. r\<lparr>ry_MaxInterval := Some (seconds pe v)\<rparr>)) s4;
          s6 = if_num m ''max_delay'' (\<lambda>v. setting (\<lambda>r. r\<lparr>ry_MaxInterval := Some (seconds pe v)\<rparr>)) s5;
          s7 = if_num m ''multiplier'' (\<lambda>v. setting (\<lambda>r. r\<lparr>ry_BackoffCoefficient := v\<rparr>)) s6;
          s8 = if_num m ''backoff_coefficient'' (\<lambda>v. setting (\<lambda>r. r\<lparr>ry_BackoffCoefficient := v\<rparr>)) s7
      in if snd s8 then Some (fst s8) else None)"

definition conflict_action :: "string \<Rightarrow> UniquePolicy \<Rightarrow> UniquePolicy" where
  "conflict_action v u =
     (let l = toLowerASCII v in
      if l = ''reject'' then u\<lparr>uq_OnConflict := ''UNIQUE_CONFLICT_ACTION_REJECT''\<rparr>
      else if l = ''replace'' then u\<lparr>uq_OnConflict := ''UNIQUE_CONFLICT_ACTION_REPLACE''\<rparr>
      else if l = ''ignore'' then u\<lparr>uq_OnConflict := ''UNIQUE_CONFLICT_ACTION_IGNORE''\<rparr>
      else if l = ''replace_except_schedule''
        then u\<lparr>uq_OnConflict := ''UNIQUE_CONFLICT_ACTION_REPLACE_EXCEPT_SCHEDULE''\<rparr>
      else u)"

definition known_states :: "pb_env \<Rightarrow> any list \<Rightarrow> string list" where
  "known_states pe vs =
     filter (\<lambda>n. n \<in> set (pb_JobStates pe)) (map (\<lambda>s. ''JOB_STATE_'' @ map upper_char s) (strings_of vs))"

definition unique_policy :: "pb_env \<Rightarrow> gomap \<Rightarrow> UniquePolicy option" where
  "unique_policy pe m =
     (let s0 = (\<lparr>uq_Key = [], uq_Period = None, uq_OnConflict = ''UNIQUE_CONFLICT_ACTION_UNSPECIFIED'', uq_States = []\<rparr>, False);
          s1 = if_str m ''key'' (\<lambda>v. setting (\<lambda>u. u\<lparr>uq_Key := [v]\<rparr>)) s0;
          s2 = if_arr m ''key'' (\<lambda>vs. setting (\<lambda>u. u\<lparr>uq_Key := uq_Key u @ strings_of vs\<rparr>)) s1;
          s3 = if_num m ''period'' (\<lambda>v. setting (\<lambda>u. u\<lparr>uq_Period := Some (seconds pe v)\<rparr>)) s2;
          s4 = if_str m ''period'' (\<lambda>v. if_ok (ParseDuration v) (\<lambda>d. setting (\<lambda>u. u\<lparr>uq_Period := Some d\<rparr>))) s3;
          s5 = if_str m ''on_conflict'' (\<lambda>v. setting (conflict_action v)) s4;
          s6 = if_arr m ''states'' (\<lambda>vs. setting (\<lambda>u. u\<lparr>uq_States := uq_States u @ known_states pe vs\<rparr>)) s5
      in if snd s6 then Some (fst s6) else None)"

definition zero_options :: EnqueueOptions where
  "zero_options = \<lparr>eo_Queue = [], eo_Priority = 0, eo_MaxAttempts = 0, eo_Tags = [], eo_TraceId = [],
     eo_DelayUntil = None, eo_Timeout = None, eo_Ttl = None, eo_Retry = None, eo_Unique = None, eo_Meta = None\<rparr>"

text \<open>The statements on the options proper, and the fallback on the body around nested options.\<close>

definition read_options :: "pb_env \<Rightarrow> gomap \<Rightarrow> EnqueueOptions \<times> bool" where
  "read_options pe src =
     (let s0 = (zero_options, False);
          s1 = if_str src ''queue'' (\<lambda>v. setting (\<lambda>o1. o1\<lparr>eo_Queue := v\<rparr>)) s0;
          s2 = if_num src ''priority'' (\<lambda>v. setting (\<lambda>o1. o1\<lparr>eo_Priority := to_int32 pe v\<rparr>)) s1;
          s3 = if_num src ''max_attempts'' (\<lambda>v. setting (\<lambda>o1. o1\<lparr>eo_MaxAttempts := to_int32 pe v\<rparr>)) s2;
          s4 = if_arr src ''tags'' (\<lambda>vs. setting (\<lambda>o1. o1\<lparr>eo_Tags := eo_Tags o1 @ strings_of vs\<rparr>)) s3;
          s5 = if_str src ''trace_id'' (\<lambda>v. setting (\<lambda>o1. o1\<lparr>eo_TraceId := v\<rparr>)) s4;
          s6 = if_str src ''scheduled_at''
                 (\<lambda>v. if_ok (parse_rfc3339nano v) (\<lambda>t. setting (\<lambda>o1. o1\<lparr>eo_DelayUntil := Some t\<rparr>))) s5;
          s7 = if_num src ''timeout'' (\<lambda>v. setting (\<lambda>o1. o1\<lparr>eo_Timeout := Some (seconds pe v)\<rparr>)) s6;
          s8 = if_str src ''timeout'' (\<lambda>v. if_ok (ParseDuration v) (\<lambda>d. setting (\<lambda>o1. o1\<lparr>eo_Timeout := Some d\<rparr>))) s7;
          s9 = if_num src ''ttl'' (\<lambda>v. setting (\<lambda>o1. o1\<lparr>eo_Ttl := Some (seconds pe v)\<rparr>)) s8;
          s10 = if_str src ''ttl'' (\<lambda>v. if_ok (ParseDuration v) (\<lambda>d. setting (\<lambda>o1. o1\<lparr>eo_Ttl := Some d\<rparr>))) s9;
          s11 = if_obj src ''retry'' (\<lambda>m. if_ok (retry_policy pe m) (\<lambda>r. setting (\<lambda>o1. o1\<lparr>eo_Retry := Some r\<rparr>))) s10;
          s12 = if_obj src ''unique'' (\<lambda>m. if_ok (unique_policy pe m) (\<lambda>u. setting (\<lambda>o1. o1\<lparr>eo_Unique := Some u\<rparr>))) s11
      in if_obj src ''meta'' (\<lambda>m. if_ok (pb_NewStruct pe m) (\<lambda>v. setting (\<lambda>o1. o1\<lparr>eo_Meta := Some v\<rparr>))) s12)"

definition fallback_options :: "pb_env \<Rightarrow> gomap \<Rightarrow> EnqueueOptions \<times> bool \<Rightarrow> EnqueueOptions \<times> bool" where
  "fallback_options pe body s =
     (let s1 = if_str body ''queue'' (\<lambda>v t. if eo_Queue (fst t) = [] then setting (\<lambda>o1. o1\<lparr>eo_Queue := v\<rparr>) t else t) s;
          s2 = if_num body ''priority''
                 (\<lambda>v t. if eo_Priority (fst t) = 0 then setting (\<lambda>o1. o1\<lparr>eo_Priority := to_int32 pe v\<rparr>) t else t) s1
      in if_num body ''max_attempts''
           (\<lambda>v t. if eo_MaxAttempts (fst t) = 0 then setting (\<lambda>o1. o1\<lparr>eo_MaxAttempts := to_int32 pe v\<rparr>) t else t) s2)"

definition buildEnqueueOptions :: "pb_env \<Rightarrow> gomap \<Rightarrow> EnqueueOptions option" where
  "buildEnqueueOptions pe body =
     (let s = (case map_of body ''options'' of
                 Some (AObj src) \<Rightarrow> fallback_options pe body (read_options pe src)
               | _ \<Rightarrow> read_options pe body)
      in if snd s then Some (fst s) else None)"

subsection \<open>protoJobToMap and protoWorkflowToMap\<close>

definition entry :: "bool \<Rightarrow> string \<Rightarrow> any \<Rightarrow> gomap" where
  "entry c k v = (if c then [(k, v)] else [])"

definition time_entry :: "string \<Rightarrow> int option \<Rightarrow> gomap" where
  "time_entry k t = (case t of Some ns \<Rightarrow> [(k, AStr (rfc3339nano ns))] | None \<Rightarrow> [])"

definition opt_entry :: "string \<Rightarrow> any option \<Rightarrow> gomap" where
  "opt_entry k v = (case v of Some x \<Rightarrow> [(k, x)] | None \<Rightarrow> [])"

definition enum_text :: "string \<Rightarrow> string \<Rightarrow> string" where
  "enum_text pre name = toLowerASCII (trimPrefix name pre)"

definition str_list :: "string list \<Rightarrow> any" where
  "str_list ss = AArr (map AStr ss)"

text \<open>\<open>Duration.Seconds\<close>: whole seconds and nanoseconds are added as floats.\<close>

definition duration_seconds :: "int \<Rightarrow> f64" where
  "duration_seconds d =
     (let sec = sgn d * (\<bar>d\<bar> div 10 ^ 9); nsec = d - sec * 10 ^ 9
      in f64_round (f64_val (f64_of_int sec) + f64_val (f64_div (f64_of_int nsec) (f64_of_int (10 ^ 9)))))"

definition seconds_entry :: "string \<Rightarrow> int option \<Rightarrow> gomap" where
  "seconds_entry k d = opt_entry k (map_option (\<lambda>n. AFloat (duration_seconds n)) d)"

definition job_error_map :: "JobError \<Rightarrow> any" where
  "job_error_map e =
     AObj ([(''message'', AStr (je_Message e))]
           @ entry (je_Code e \<noteq> []) ''type'' (AStr (je_Code e))
           @ entry (je_Attempt e \<noteq> 0) ''attempt'' (AInt KInt32 (je_Attempt e)))"

definition retry_map :: "RetryPolicy \<Rightarrow> gomap" where
  "retry_map r =
     entry (ry_MaxAttempts r \<noteq> 0) ''max_attempts'' (AInt KInt32 (ry_MaxAttempts r))
     @ seconds_entry ''initial_interval'' (ry_InitialInterval r)
     @ seconds_entry ''max_interval'' (ry_MaxInterval r)
     @ entry (\<not> f64_eq (ry_BackoffCoefficient r) (Fin 0)) ''backoff_coefficient'' (AFloat (ry_BackoffCoefficient r))"

definition unique_map :: "UniquePolicy \<Rightarrow> gomap" where
  "unique_map u =
     entry (uq_Key u \<noteq> []) ''key'' (str_list (uq_Key u))
     @ seconds_entry ''period'' (uq_Period u)
     @ entry (uq_OnConflict u \<noteq> ''UNIQUE_CONFLICT_ACTION_UNSPECIFIED'') ''on_conflict''
         (AStr (enum_text ''UNIQUE_CONFLICT_ACTION_'' (uq_OnConflict u)))"

definition nonempty_map :: "gomap \<Rightarrow> any option" where
  "nonempty_map m = (if m = [] then None else Some (AObj m))"

definition protoJobToMap :: "Job option \<Rightarrow> any" where
  "protoJobToMap jo =
     (case jo of
        None \<Rightarrow> ANil
      | Some j \<Rightarrow> AObj (
          [(''id'', AStr (jb_Id j)), (''type'', AStr (jb_Type j)), (''queue'', AStr (jb_Queue j)),
           (''state'', AStr (enum_text ''JOB_STATE_'' (jb_State j))), (''attempt'', AInt KInt32 (jb_Attempt j))]
          @ entry (jb_Priority j \<noteq> 0) ''priority'' (AInt KInt32 (jb_Priority j))
          @ entry (jb_MaxAttempts j \<noteq> 0) ''max_attempts'' (AInt KInt32 (jb_MaxAttempts j))
          @ entry (jb_Specversion j \<noteq> []) ''specversion'' (AStr (jb_Specversion j))
          @ time_entry ''created_at'' (jb_CreatedAt j)
          @ time_entry ''enqueued_at'' (jb_EnqueuedAt j)
          @ time_entry ''scheduled_at'' (jb_ScheduledAt j)
          @ time_entry ''started_at'' (jb_StartedAt j)
          @ time_entry ''completed_at'' (jb_CompletedAt j)
          @ time_entry ''expires_at'' (jb_ExpiresAt j)
          @ entry (jb_Args j \<noteq> []) ''args'' (AArr (jb_Args j))
          @ entry (jb_Errors j \<noteq> []) ''errors'' (AArr (map job_error_map (jb_Errors j)))
          @ entry (jb_Tags j \<noteq> []) ''tags'' (str_list (jb_Tags j))
          @ entry (jb_TraceId j \<noteq> []) ''trace_id'' (AStr (jb_TraceId j))
          @ entry (jb_WorkflowId j \<noteq> []) ''workflow_id'' (AStr (jb_WorkflowId j))
          @ opt_entry ''result'' (map_option AObj (jb_Result j))
          @ opt_entry ''meta'' (map_option AObj (jb_Meta j))
          @ opt_entry ''retry_policy'' (case jb_RetryPolicy j of None \<Rightarrow> None | Some r \<Rightarrow> nonempty_map (retry_map r))
          @ opt_entry ''unique_policy'' (case jb_UniquePolicy j of None \<Rightarrow> None | Some u \<Rightarrow> nonempty_map (unique_map u))))"

definition workflow_step_map :: "WorkflowStepState \<Rightarrow> any" where
  "workflow_step_map s =
     AObj ([(''id'', AStr (wt_Id s)), (''type'', AStr (wt_Type s)),
            (''state'', AStr (enum_text ''WORKFLOW_STEP_STATE_'' (wt_State s)))]
           @ entry (wt_JobId s \<noteq> []) ''job_id'' (AStr (wt_JobId s))
           @ entry (wt_DependsOn s \<noteq> []) ''depends_on'' (str_list (wt_DependsOn s)))"

definition protoWorkflowToMap :: "Workflow option \<Rightarrow> any" where
  "protoWorkflowToMap wo =
     (case wo of
        None \<Rightarrow> ANil
      | Some w \<Rightarrow> AObj (
          [(''id'', AStr (wf_Id w)), (''name'', AStr (wf_Name w)),
           (''state'', AStr (enum_text ''WORKFLOW_STATE_'' (wf_State w)))]
          @ time_entry ''created_at'' (wf_CreatedAt w)
          @ time_entry ''completed_at'' (wf_CompletedAt w)
          @ entry (wf_Steps w \<noteq> []) ''steps'' (AArr (map workflow_step_map (wf_Steps w)))))"

end
