(* ===== verification/GrpcClient.thy ===== *)
theory GrpcClient
  imports GrpcMessages
begin

text \<open>
  The client of runner/grpc/client.go: the requests it builds from the body or the path of a test
  step, the calls of the service, a record of functions on a world, and the conversion of the
  answers to JSON; \<open>CallRPC\<close> dispatches on the method. Connecting is not modelled.
\<close>

subsection \<open>Requests\<close>

record EnqueueRequest =
  er_Type :: string
  er_Args :: "any list"
  er_Options :: "EnqueueOptions option"

record BatchJobEntry =
  bj_Type :: string
  bj_Args :: "any list"
  bj_Options :: "EnqueueOptions option"

record EnqueueBatchRequest =
  eb_Jobs :: "BatchJobEntry list"
  eb_DefaultOptions :: "EnqueueOptions option"

record FetchRequest =
  fr_Queues :: "string list"
  fr_WorkerId :: string
  fr_Count :: int

record AckRequest =
  ak_JobId :: string
  ak_Result :: "gomap option"

record NackRequest =
  nk_JobId :: string
  nk_Error :: "JobError option"

record HeartbeatRequest =
  hb_Id :: string
  hb_WorkerId :: string
  hb_ExtendBy :: "int option"

record ListDeadLetterRequest =
  dl_Queue :: string
  dl_Limit :: int

record RegisterCronRequest =
  rc_Name :: string
  rc_Cron :: string
  rc_Timezone :: string
  rc_Type :: string
  rc_Args :: "any list"
  rc_Options :: "EnqueueOptions option"

record WorkflowStep =
  ws_Id :: string
  ws_Type :: string
  ws_DependsOn :: "string list"
  ws_Args :: "any list"
  ws_Options :: "EnqueueOptions option"

record CreateWorkflowRequest =
  cw_Name :: string
  cw_Steps :: "WorkflowStep list"

subsection \<open>The service\<close>

record CronEntry =
  cn_Name :: string
  cn_Cron :: string
  cn_Timezone :: string
  cn_Type :: string
  cn_NextRunAt :: "int option"
  cn_LastRunAt :: "int option"

record QueueStats =
  qs_Available :: any
  qs_Active :: any
  qs_Scheduled :: any
  qs_Retryable :: any
  qs_Dead :: any
  qs_Paused :: any

record ManifestResponse =
  mf_OjsVersion :: string
  mf_ConformanceLevel :: any
  mf_Protocols :: any
  mf_Backend :: any
  mf_SchemaValidation :: any
  mf_Implementation :: "(string \<times> string \<times> string) option"
  mf_Extensions :: "any option"

text \<open>An error of a call: one with a status, or another one, for which \<open>status.FromError\<close> fails.\<close>

datatype rpc_error = StatusError grpc_code string | PlainError string

type_synonym ('a, 'w) rpc = "'w \<Rightarrow> (rpc_error + 'a) \<times> 'w"

record 'w OJSServiceClient =
  pc_Enqueue :: "EnqueueRequest \<Rightarrow> (Job option, 'w) rpc"
  pc_EnqueueBatch :: "EnqueueBatchRequest \<Rightarrow> (Job option list \<times> any, 'w) rpc"
  pc_GetJob :: "string \<Rightarrow> (Job option, 'w) rpc"
  pc_CancelJob :: "string \<Rightarrow> string \<Rightarrow> (Job option, 'w) rpc"
  pc_Fetch :: "FetchRequest \<Rightarrow> (Job option list, 'w) rpc"
  pc_Ack :: "AckRequest \<Rightarrow> (bool, 'w) rpc"
  pc_Nack :: "NackRequest \<Rightarrow> (string \<times> int option, 'w) rpc"
  pc_Heartbeat :: "HeartbeatRequest \<Rightarrow> (string \<times> int option, 'w) rpc"
  pc_ListQueues :: "((any \<times> any) list, 'w) rpc"
  pc_QueueStats :: "string \<Rightarrow> (string \<times> QueueStats option, 'w) rpc"
  pc_PauseQueue :: "string \<Rightarrow> (unit, 'w) rpc"
  pc_ResumeQueue :: "string \<Rightarrow> (unit, 'w) rpc"
  pc_ListDeadLetter :: "ListDeadLetterRequest \<Rightarrow> (Job option list \<times> any, 'w) rpc"
  pc_RetryDeadLetter :: "string \<Rightarrow> (Job option, 'w) rpc"
  pc_DeleteDeadLetter :: "string \<Rightarrow> (unit, 'w) rpc"
  pc_RegisterCron :: "RegisterCronRequest \<Rightarrow> (string \<times> int option, 'w) rpc"
  pc_UnregisterCron :: "string \<Rightarrow> (unit, 'w) rpc"
  pc_ListCron :: "(CronEntry list, 'w) rpc"
  pc_CreateWorkflow :: "CreateWorkflowRequest \<Rightarrow> (Workflow option, 'w) rpc"
  pc_GetWorkflow :: "string \<Rightarrow> (Workflow option, 'w) rpc"
  pc_CancelWorkflow :: "string \<Rightarrow> (Workflow option, 'w) rpc"
  pc_Health :: "(string \<times> int option, 'w) rpc"
  pc_Manifest :: "(ManifestResponse, 'w) rpc"

subsection \<open>Results\<close>

record rpc_result =
  rr_ResponseJSON :: string
  rr_GRPCCode :: grpc_code
  rr_GRPCMessage :: string
  rr_HTTPStatusOverride :: int

text \<open>\<open>json.Marshal\<close> with its error ignored gives no text.\<close>

definition marshal_ignoring :: "any \<Rightarrow> string" where
  "marshal_ignoring v = (case marshal v of Some t \<Rightarrow> t | None \<Rightarrow> [])"

definition grpcError :: "pb_env \<Rightarrow> rpc_error \<Rightarrow> rpc_result" where
  "grpcError pe err =
     (case err of
        PlainError msg \<Rightarrow>
          \<lparr>rr_ResponseJSON = [], rr_GRPCCode = Internal, rr_GRPCMessage = msg, rr_HTTPStatusOverride = 0\<rparr>
      | StatusError c msg \<Rightarrow>
          \<lparr>rr_ResponseJSON = marshal_ignoring (AObj [(''error'',
               AObj [(''code'', AStr (pb_CodeName pe c)), (''message'', AStr msg)])]),
           rr_GRPCCode = c, rr_GRPCMessage = msg, rr_HTTPStatusOverride = 0\<rparr>)"

definition rpc_ok :: "int \<Rightarrow> gomap \<Rightarrow> rpc_result" where
  "rpc_ok override body =
     \<lparr>rr_ResponseJSON = marshal_ignoring (AObj body), rr_GRPCCode = OK, rr_GRPCMessage = [],
      rr_HTTPStatusOverride = override\<rparr>"

text \<open>\<open>if err != nil { return grpcError(err), nil }\<close>, and the result otherwise.\<close>

definition with_response :: "pb_env \<Rightarrow> (rpc_error + 'a) \<times> 'w \<Rightarrow> ('a \<Rightarrow> rpc_result) \<Rightarrow> rpc_result \<times> 'w" where
  "with_response pe r f = (case r of (Inl err, w) \<Rightarrow> (grpcError pe err, w) | (Inr resp, w) \<Rightarrow> (f resp, w))"

text \<open>\<open>strings.SplitN(rest, "/", 2)[0]\<close> after the prefix is trimmed.\<close>

definition extractIDFromPath :: "string \<Rightarrow> string \<Rightarrow> string" where
  "extractIDFromPath path pre = takeWhile (\<lambda>c. c \<noteq> CHR ''/'') (trimPrefix path pre)"

subsection \<open>The calls\<close>

definition job_body :: "Job option \<Rightarrow> gomap" where
  "job_body j = [(''job'', protoJobToMap j)]"

definition enqueue_request :: "pb_env \<Rightarrow> gomap \<Rightarrow> EnqueueRequest" where
  "enqueue_request pe body =
     (let r0 = \<lparr>er_Type = [], er_Args = [], er_Options = None\<rparr>;
          r1 = if_str body ''type'' (\<lambda>v r. r\<lparr>er_Type := v\<rparr>) r0;
          r2 = if_arr body ''args'' (\<lambda>vs r. r\<lparr>er_Args := er_Args r @ new_values pe vs\<rparr>) r1
      in if_ok (buildEnqueueOptions pe body) (\<lambda>opts r. r\<lparr>er_Options := Some opts\<rparr>) r2)"

definition rpc_enqueue :: "pb_env \<Rightarrow> 'w OJSServiceClient \<Rightarrow> gomap \<Rightarrow> 'w \<Rightarrow> rpc_result \<times> 'w" where
  "rpc_enqueue pe c body w = with_response pe (pc_Enqueue c (enqueue_request pe body) w) (\<lambda>j. rpc_ok 201 (job_body j))"

definition batch_entry :: "pb_env \<Rightarrow> gomap \<Rightarrow> BatchJobEntry" where
  "batch_entry pe jm =
     (let r0 = \<lparr>bj_Type = [], bj_Args = [], bj_Options = None\<rparr>;
          r1 = if_str jm ''type'' (\<lambda>v r. r\<lparr>bj_Type := v\<rparr>) r0;
          r2 = if_arr jm ''args'' (\<lambda>vs r. r\<lparr>bj_Args := bj_Args r @ new_values pe vs\<rparr>) r1
      in if_ok (buildEnqueueOptions pe jm) (\<lambda>opts r. r\<lparr>bj_Options := Some opts\<rparr>) r2)"

definition objects_of :: "any list \<Rightarrow> gomap list" where
  "objects_of vs = concat (map (\<lambda>v. case v of AObj m \<Rightarrow> [m] | _ \<Rightarrow> []) vs)"

definition batch_request :: "pb_env \<Rightarrow> gomap \<Rightarrow> EnqueueBatchRequest" where
  "batch_request pe body =
     (let r0 = \<lparr>eb_Jobs = [], eb_DefaultOptions = None\<rparr>;
          r1 = if_arr body ''jobs'' (\<lambda>vs r. r\<lparr>eb_Jobs := eb_Jobs r @ map (batch_entry pe) (objects_of vs)\<rparr>) r0
      in if_ok (buildEnqueueOptions pe body) (\<lambda>opts r. r\<lparr>eb_DefaultOptions := Some opts\<rparr>) r1)"

definition jobs_entry :: "Job option list \<Rightarrow> string \<times> any" where
  "jobs_entry js = (''jobs'', AArr (map protoJobToMap js))"

definition rpc_enqueueBatch :: "pb_env \<Rightarrow> 'w OJSServiceClient \<Rightarrow> gomap \<Rightarrow> 'w \<Rightarrow> rpc_result \<times> 'w" where
  "rpc_enqueueBatch pe c body w =
     with_response pe (pc_EnqueueBatch c (batch_request pe body) w)
       (\<lambda>(js, count). rpc_ok 201 [jobs_entry js, (''count'', count)])"

definition rpc_getJob :: "pb_env \<Rightarrow> 'w OJSServiceClient \<Rightarrow> string \<Rightarrow> 'w \<Rightarrow> rpc_result \<times> 'w" where
  "rpc_getJob pe c jid w = with_response pe (pc_GetJob c jid w) (\<lambda>j. rpc_ok 0 (job_body j))"

definition rpc_cancelJob :: "pb_env \<Rightarrow> 'w OJSServiceClient \<Rightarrow> string \<Rightarrow> gomap \<Rightarrow> 'w \<Rightarrow> rpc_result \<times> 'w" where
  "rpc_cancelJob pe c jid body w =
     with_response pe (pc_CancelJob c jid (if_str body ''reason'' (\<lambda>v r. v) []) w) (\<lambda>j. rpc_ok 0 (job_body j))"

definition fetch_request :: "pb_env \<Rightarrow> gomap \<Rightarrow> FetchRequest" where
  "fetch_request pe body =
     (let r0 = \<lparr>fr_Queues = [], fr_WorkerId = [], fr_Count = 0\<rparr>;
          r1 = if_arr body ''queues'' (\<lambda>vs r. r\<lparr>fr_Queues := fr_Queues r @ strings_of vs\<rparr>) r0;
          r2 = if_str body ''worker_id'' (\<lambda>v r. r\<lparr>fr_WorkerId := v\<rparr>) r1;
          r3 = if_num body ''max_jobs'' (\<lambda>v r. r\<lparr>fr_Count := to_int32 pe v\<rparr>) r2
      in if_num body ''count'' (\<lambda>v r. r\<lparr>fr_Count := to_int32 pe v\<rparr>) r3)"

definition rpc_fetch :: "pb_env \<Rightarrow> 'w OJSServiceClient \<Rightarrow> gomap \<Rightarrow> 'w \<Rightarrow> rpc_result \<times> 'w" where
  "rpc_fetch pe c body w = with_response pe (pc_Fetch c (fetch_request pe body) w) (\<lambda>js. rpc_ok 0 [jobs_entry js])"

definition ack_request :: "pb_env \<Rightarrow> gomap \<Rightarrow> AckRequest" where
  "ack_request pe body =
     (let r0 = \<lparr>ak_JobId = [], ak_Result = None\<rparr>;
          r1 = if_str body ''job_id'' (\<lambda>v r. r\<lparr>ak_JobId := v\<rparr>) r0
      in if_obj body ''result'' (\<lambda>m. if_ok (pb_NewStruct pe m) (\<lambda>s r. r\<lparr>ak_Result := Some s\<rparr>)) r1)"

definition rpc_ack :: "pb_env \<Rightarrow> 'w OJSServiceClient \<Rightarrow> gomap \<Rightarrow> 'w \<Rightarrow> rpc_result \<times> 'w" where
  "rpc_ack pe c body w =
     with_response pe (pc_Ack c (ack_request pe body) w) (\<lambda>b. rpc_ok 0 [(''acknowledged'', ABool b)])"

definition nack_error :: "gomap \<Rightarrow> JobError" where
  "nack_error m =
     (let e0 = \<lparr>je_Message = [], je_Code = [], je_Attempt = 0\<rparr>;
          e1 = if_str m ''message'' (\<lambda>v e. e\<lparr>je_Message := v\<rparr>) e0;
          e2 = if_str m ''type'' (\<lambda>v e. e\<lparr>je_Code := v\<rparr>) e1
      in if_str m ''code'' (\<lambda>v e. e\<lparr>je_Code := v\<rparr>) e2)"

definition nack_request :: "gomap \<Rightarrow> NackRequest" where
  "nack_request body =
     (let r0 = \<lparr>nk_JobId = [], nk_Error = None\<rparr>;
          r1 = if_str body ''job_id'' (\<lambda>v r. r\<lparr>nk_JobId := v\<rparr>) r0
      in if_obj body ''error'' (\<lambda>m r. r\<lparr>nk_Error := Some (nack_error m)\<rparr>) r1)"

definition rpc_nack :: "pb_env \<Rightarrow> 'w OJSServiceClient \<Rightarrow> gomap \<Rightarrow> 'w \<Rightarrow> rpc_result \<times> 'w" where
  "rpc_nack pe c body w =
     with_response pe (pc_Nack c (nack_request body) w)
       (\<lambda>(state, next_at). rpc_ok 0 ([(''state'', AStr (enum_text ''JOB_STATE_'' state))]
                                     @ time_entry ''next_attempt_at'' next_at))"

definition heartbeat_request :: "pb_env \<Rightarrow> gomap \<Rightarrow> HeartbeatRequest" where
  "heartbeat_request pe body =
     (let r0 = \<lparr>hb_Id = [], hb_WorkerId = [], hb_ExtendBy = None\<rparr>;
          r1 = if_str body ''job_id'' (\<lambda>v r. r\<lparr>hb_Id := v\<rparr>) r0;
          r2 = if_str body ''id'' (\<lambda>v r. r\<lparr>hb_Id := v\<rparr>) r1;
          r3 = if_str body ''worker_id'' (\<lambda>v r. r\<lparr>hb_WorkerId := v\<rparr>) r2;
          r4 = if_str body ''extend_by'' (\<lambda>v. if_ok (ParseDuration v) (\<lambda>d r. r\<lparr>hb_ExtendBy := Some d\<rparr>)) r3
      in if_num body ''extend_by'' (\<lambda>v r. r\<lparr>hb_ExtendBy := Some (seconds pe v)\<rparr>) r4)"

definition rpc_heartbeat :: "pb_env \<Rightarrow> 'w OJSServiceClient \<Rightarrow> gomap \<Rightarrow> 'w \<Rightarrow> rpc_result \<times> 'w" where
  "rpc_heartbeat pe c body w =
     with_response pe (pc_Heartbeat c (heartbeat_request pe body) w)
       (\<lambda>(state, deadline). rpc_ok 0 ([(''directed_state'', AStr (enum_text ''WORKER_STATE_'' state))]
                                      @ time_entry ''new_deadline'' deadline))"

definition rpc_listQueues :: "pb_env \<Rightarrow> 'w OJSServiceClient \<Rightarrow> 'w \<Rightarrow> rpc_result \<times> 'w" where
  "rpc_listQueues pe c w =
     with_response pe (pc_ListQueues c w)
       (\<lambda>qs. rpc_ok 0 [(''queues'', AArr (map (\<lambda>(n, p). AObj [(''name'', n), (''paused'', p)]) qs))])"

text \<open>The queue of a path: the segment behind the prefix, without a suffix that it cannot have.\<close>

definition queue_of :: "string \<Rightarrow> string \<Rightarrow> string" where
  "queue_of path suffix = trimSuffix (extractIDFromPath path ''/ojs/v1/queues/'') suffix"

definition stats_map :: "QueueStats \<Rightarrow> any" where
  "stats_map s = AObj [(''available'', qs_Available s), (''active'', qs_Active s), (''scheduled'', qs_Scheduled s),
     (''retryable'', qs_Retryable s), (''dead'', qs_Dead s), (''paused'', qs_Paused s)]"

definition rpc_queueStats :: "pb_env \<Rightarrow> 'w OJSServiceClient \<Rightarrow> string \<Rightarrow> 'w \<Rightarrow> rpc_result \<times> 'w" where
  "rpc_queueStats pe c path w =
     with_response pe (pc_QueueStats c (queue_of path ''/stats'') w)
       (\<lambda>(q, stats). rpc_ok 0 ([(''queue'', AStr q)] @ opt_entry ''stats'' (map_option stats_map stats)))"

definition rpc_pauseQueue :: "pb_env \<Rightarrow> 'w OJSServiceClient \<Rightarrow> string \<Rightarrow> 'w \<Rightarrow> rpc_result \<times> 'w" where
  "rpc_pauseQueue pe c path w = with_response pe (pc_PauseQueue c (queue_of path ''/pause'') w) (\<lambda>_. rpc_ok 0 [])"

definition rpc_resumeQueue :: "pb_env \<Rightarrow> 'w OJSServiceClient \<Rightarrow> string \<Rightarrow> 'w \<Rightarrow> rpc_result \<times> 'w" where
  "rpc_resumeQueue pe c path w = with_response pe (pc_ResumeQueue c (queue_of path ''/resume'') w) (\<lambda>_. rpc_ok 0 [])"

definition dead_letter_request :: "pb_env \<Rightarrow> gomap \<Rightarrow> ListDeadLetterRequest" where
  "dead_letter_request pe body =
     (let r1 = if_str body ''queue'' (\<lambda>v r. r\<lparr>dl_Queue := v\<rparr>) \<lparr>dl_Queue = [], dl_Limit = 0\<rparr>
      in if_num body ''limit'' (\<lambda>v r. r\<lparr>dl_Limit := to_int32 pe v\<rparr>) r1)"

definition rpc_listDeadLetter :: "pb_env \<Rightarrow> 'w OJSServiceClient \<Rightarrow> gomap \<Rightarrow> 'w \<Rightarrow> rpc_result \<times> 'w" where
  "rpc_listDeadLetter pe c body w =
     with_response pe (pc_ListDeadLetter c (dead_letter_request pe body) w)
       (\<lambda>(js, n). rpc_ok 0 [jobs_entry js, (''total_count'', n)])"

definition rpc_retryDeadLetter :: "pb_env \<Rightarrow> 'w OJSServiceClient \<Rightarrow> string \<Rightarrow> 'w \<Rightarrow> rpc_result \<times> 'w" where
  "rpc_retryDeadLetter pe c path w =
     with_response pe (pc_RetryDeadLetter c (trimSuffix (extractIDFromPath path ''/ojs/v1/dead-letter/'') ''/retry'') w)
       (\<lambda>j. rpc_ok 0 (job_body j))"

definition rpc_deleteDeadLetter :: "pb_env \<Rightarrow> 'w OJSServiceClient \<Rightarrow> string \<Rightarrow> 'w \<Rightarrow> rpc_result \<times> 'w" where
  "rpc_deleteDeadLetter pe c path w =
     with_response pe (pc_DeleteDeadLetter c (extractIDFromPath path ''/ojs/v1/dead-letter/'') w) (\<lambda>_. rpc_ok 0 [])"

definition cron_request :: "pb_env \<Rightarrow> gomap \<Rightarrow> RegisterCronRequest" where
  "cron_request pe body =
     (let r0 = \<lparr>rc_Name = [], rc_Cron = [], rc_Timezone = [], rc_Type = [], rc_Args = [], rc_Options = None\<rparr>;
          r1 = if_str body ''name'' (\<lambda>v r. r\<lparr>rc_Name := v\<rparr>) r0;
          r2 = if_str body ''cron'' (\<lambda>v r. r\<lparr>rc_Cron := v\<rparr>) r1;
          r3 = if_str body ''timezone'' (\<lambda>v r. r\<lparr>rc_Timezone := v\<rparr>) r2;
          r4 = if_str body ''type'' (\<lambda>v r. r\<lparr>rc_Type := v\<rparr>) r3;
          r5 = if_arr body ''args'' (\<lambda>vs r. r\<lparr>rc_Args := rc_Args r @ new_values pe vs\<rparr>) r4
      in if_ok (buildEnqueueOptions pe body) (\<lambda>opts r. r\<lparr>rc_Options := Some opts\<rparr>) r5)"

definition rpc_registerCron :: "pb_env \<Rightarrow> 'w OJSServiceClient \<Rightarrow> gomap \<Rightarrow> 'w \<Rightarrow> rpc_result \<times> 'w" where
  "rpc_registerCron pe c body w =
     with_response pe (pc_RegisterCron c (cron_request pe body) w)
       (\<lambda>(name, next_at). rpc_ok 201 ([(''name'', AStr name)] @ time_entry ''next_run_at'' next_at))"

definition rpc_unregisterCron :: "pb_env \<Rightarrow> 'w OJSServiceClient \<Rightarrow> string \<Rightarrow> 'w \<Rightarrow> rpc_result \<times> 'w" where
  "rpc_unregisterCron pe c path w =
     with_response pe (pc_UnregisterCron c (extractIDFromPath path ''/ojs/v1/cron/'') w) (\<lambda>_. rpc_ok 0 [])"

definition cron_entry_map :: "CronEntry \<Rightarrow> any" where
  "cron_entry_map e =
     AObj ([(''name'', AStr (cn_Name e)), (''cron'', AStr (cn_Cron e)), (''timezone'', AStr (cn_Timezone e)),
            (''type'', AStr (cn_Type e))]
           @ time_entry ''next_run_at'' (cn_NextRunAt e) @ time_entry ''last_run_at'' (cn_LastRunAt e))"

definition rpc_listCron :: "pb_env \<Rightarrow> 'w OJSServiceClient \<Rightarrow> 'w \<Rightarrow> rpc_result \<times> 'w" where
  "rpc_listCron pe c w =
     with_response pe (pc_ListCron c w) (\<lambda>es. rpc_ok 0 [(''entries'', AArr (map cron_entry_map es))])"

definition workflow_step :: "pb_env \<Rightarrow> gomap \<Rightarrow> WorkflowStep" where
  "workflow_step pe sm =
     (let r0 = \<lparr>ws_Id = [], ws_Type = [], ws_DependsOn = [], ws_Args = [], ws_Options = None\<rparr>;
          r1 = if_str sm ''id'' (\<lambda>v r. r\<lparr>ws_Id := v\<rparr>) r0;
          r2 = if_str sm ''type'' (\<lambda>v r. r\<lparr>ws_Type := v\<rparr>) r1;
          r3 = if_arr sm ''depends_on'' (\<lambda>vs r. r\<lparr>ws_DependsOn := ws_DependsOn r @ strings_of vs\<rparr>) r2;
          r4 = if_arr sm ''args'' (\<lambda>vs r. r\<lparr>ws_Args := ws_Args r @ new_values pe vs\<rparr>) r3
      in if_ok (buildEnqueueOptions pe sm) (\<lambda>opts r. r\<lparr>ws_Options := Some opts\<rparr>) r4)"

definition workflow_request :: "pb_env \<Rightarrow> gomap \<Rightarrow> CreateWorkflowRequest" where
  "workflow_request pe body =
     (let r1 = if_str body ''name'' (\<lambda>v r. r\<lparr>cw_Name := v\<rparr>) \<lparr>cw_Name = [], cw_Steps = []\<rparr>
      in if_arr body ''steps'' (\<lambda>vs r. r\<lparr>cw_Steps := cw_Steps r @ map (workflow_step pe) (objects_of vs)\<rparr>) r1)"

definition workflow_body :: "Workflow option \<Rightarrow> gomap" where
  "workflow_body x = [(''workflow'', protoWorkflowToMap x)]"

definition rpc_createWorkflow :: "pb_env \<Rightarrow> 'w OJSServiceClient \<Rightarrow> gomap \<Rightarrow> 'w \<Rightarrow> rpc_result \<times> 'w" where
  "rpc_createWorkflow pe c body w =
     with_response pe (pc_CreateWorkflow c (workflow_request pe body) w) (\<lambda>x. rpc_ok 201 (workflow_body x))"

definition rpc_getWorkflow :: "pb_env \<Rightarrow> 'w OJSServiceClient \<Rightarrow> string \<Rightarrow> 'w \<Rightarrow> rpc_result \<times> 'w" where
  "rpc_getWorkflow pe c path w =
     with_response pe (pc_GetWorkflow c (extractIDFromPath path ''/ojs/v1/workflows/'') w) (\<lambda>x. rpc_ok 0 (workflow_body x))"

definition rpc_cancelWorkflow :: "pb_env \<Rightarrow> 'w OJSServiceClient \<Rightarrow> string \<Rightarrow> 'w \<Rightarrow> rpc_result \<times> 'w" where
  "rpc_cancelWorkflow pe c path w =
     with_response pe (pc_CancelWorkflow c (extractIDFromPath path ''/ojs/v1/workflows/'') w)
       (\<lambda>x. rpc_ok 0 (workflow_body x))"

definition rpc_health :: "pb_env \<Rightarrow> 'w OJSServiceClient \<Rightarrow> 'w \<Rightarrow> rpc_result \<times> 'w" where
  "rpc_health pe c w =
     with_response pe (pc_Health c w)
       (\<lambda>(status, t). rpc_ok 0 ([(''status'', AStr (enum_text ''HEALTH_STATUS_'' status))] @ time_entry ''timestamp'' t))"

definition manifest_body :: "ManifestResponse \<Rightarrow> gomap" where
  "manifest_body m =
     [(''specversion'', AStr (mf_OjsVersion m)), (''ojs_version'', AStr (mf_OjsVersion m)),
      (''conformance_level'', mf_ConformanceLevel m), (''protocols'', mf_Protocols m), (''backend'', mf_Backend m),
      (''schema_validation'', mf_SchemaValidation m)]
     @ opt_entry ''implementation''
         (map_option (\<lambda>(n, v, l). AObj [(''name'', AStr n), (''version'', AStr v), (''language'', AStr l)])
           (mf_Implementation m))
     @ opt_entry ''extensions'' (mf_Extensions m)"

definition rpc_manifest :: "pb_env \<Rightarrow> 'w OJSServiceClient \<Rightarrow> 'w \<Rightarrow> rpc_result \<times> 'w" where
  "rpc_manifest pe c w = with_response pe (pc_Manifest c w) (\<lambda>m. rpc_ok 0 (manifest_body m))"

subsection \<open>CallRPC\<close>

definition supported_methods :: "string list" where
  "supported_methods =
     [''Enqueue'', ''EnqueueBatch'', ''GetJob'', ''CancelJob'', ''Fetch'', ''Ack'', ''Nack'', ''Heartbeat'',
      ''ListQueues'', ''QueueStats'', ''PauseQueue'', ''ResumeQueue'', ''ListDeadLetter'', ''RetryDeadLetter'',
      ''DeleteDeadLetter'', ''RegisterCron'', ''UnregisterCron'', ''ListCron'', ''CreateWorkflow'',
      ''GetWorkflow'', ''CancelWorkflow'', ''Health'', ''Manifest'']"

text \<open>A nil body reads like an empty one.\<close>

definition body_map :: "gomap option \<Rightarrow> gomap" where
  "body_map b = (case b of Some m \<Rightarrow> m | None \<Rightarrow> [])"

definition CallRPC ::
    "pb_env \<Rightarrow> 'w OJSServiceClient \<Rightarrow> string \<Rightarrow> string \<Rightarrow> gomap option \<Rightarrow> 'w \<Rightarrow> (string + rpc_result) \<times> 'w" where
  "CallRPC pe c method path b w =
     (let body = body_map b; done = (\<lambda>(r, w1). (Inr r, w1)) in
      if method = ''Enqueue'' then done (rpc_enqueue pe c body w)
      else if method = ''EnqueueBatch'' then done (rpc_enqueueBatch pe c body w)
      else if method = ''GetJob'' then done (rpc_getJob pe c (extractIDFromPath path ''/ojs/v1/jobs/'') w)
      else if method = ''CancelJob'' then done (rpc_cancelJob pe c (extractIDFromPath path ''/ojs/v1/jobs/'') body w)
      else if method = ''Fetch'' then done (rpc_fetch pe c body w)
      else if method = ''Ack'' then done (rpc_ack pe c body w)
      else if method = ''Nack'' then done (rpc_nack pe c body w)
      else if method = ''Heartbeat'' then done (rpc_heartbeat pe c body w)
      else if method = ''ListQueues'' then done (rpc_listQueues pe c w)
      else if method = ''QueueStats'' then done (rpc_queueStats pe c path w)
      else if method = ''PauseQueue'' then done (rpc_pauseQueue pe c path w)
      else if method = ''ResumeQueue'' then done (rpc_resumeQueue pe c path w)
      else if method = ''ListDeadLetter'' then done (rpc_listDeadLetter pe c body w)
      else if method = ''RetryDeadLetter'' then done (rpc_retryDeadLetter pe c path w)
      else if method = ''DeleteDeadLetter'' then done (rpc_deleteDeadLetter pe c path w)
      else if method = ''RegisterCron'' then done (rpc_registerCron pe c body w)
      else if method = ''UnregisterCron'' then done (rpc_unregisterCron pe c path w)
      else if method = ''ListCron'' then done (rpc_listCron pe c w)
      else if method = ''CreateWorkflow'' then done (rpc_createWorkflow pe c body w)
      else if method = ''GetWorkflow'' then done (rpc_getWorkflow pe c path w)
      else if method = ''CancelWorkflow'' then done (rpc_cancelWorkflow pe c path w)
      else if method = ''Health'' then done (rpc_health pe c w)
      else if method = ''Manifest'' then done (rpc_manifest pe c w)
      else (Inl (''unsupported gRPC method: '' @ method), w))"

end
