(* ===== verification/GrpcEval.thy ===== *)
theory GrpcEval
  imports StepEval GrpcClient
begin

text \<open>
  The gRPC runner's own copies of the evaluation: \<open>resolveTemplates\<close>, \<open>resolveMatcherTemplates\<close> and
  \<open>evaluateAssertions\<close> of runner/grpc/runner.go and \<open>evaluateStatusAssertion\<close> of
  runner/grpc/assertions.go, translated from these files. Only lib (the path resolver, the matchers and
  the timing) is shared with the HTTP runner. The last section compares the two: on the same response
  the gRPC runner reports the failures of the HTTP runner, in its order, but for those of headers.
\<close>

subsection \<open>Status codes\<close>

definition httpStatusToGRPCCode :: "(int \<times> grpc_code) list" where
  "httpStatusToGRPCCode =
     [(200, OK), (201, OK), (400, InvalidArgument), (401, Unauthenticated), (403, PermissionDenied),
      (404, NotFound), (409, AlreadyExists), (412, FailedPrecondition), (429, ResourceExhausted),
      (500, Internal), (501, Unimplemented), (503, Unavailable), (504, DeadlineExceeded)]"

definition HTTPStatusToGRPCCode :: "int \<Rightarrow> grpc_code" where
  "HTTPStatusToGRPCCode httpStatus =
     (case map_of httpStatusToGRPCCode httpStatus of Some c \<Rightarrow> c | None \<Rightarrow> UnknownCode)"

subsection \<open>Templates\<close>

definition grpc_template_at :: "string \<Rightarrow> (string \<times> string \<times> string) option" where
  "grpc_template_at s =
     (case cutPrefix s ([ch 123, ch 123] @ ''steps.'') of
        None \<Rightarrow> None
      | Some t \<Rightarrow>
          (let sid = takeWhile (\<lambda>c. c \<noteq> CHR ''.'') t in
           case cutPrefix (drop (length sid) t) ''.response.body.'' of
             None \<Rightarrow> None
           | Some u \<Rightarrow>
               (let p = takeWhile (\<lambda>c. c \<noteq> ch 125) u in
                case cutPrefix (drop (length p) u) [ch 125, ch 125] of
                  None \<Rightarrow> None
                | Some r \<Rightarrow> if sid = [] \<or> p = [] then None else Some (sid, p, r))))"

lemma grpc_template_at: "grpc_template_at s = template_at s"
  by (simp add: grpc_template_at_def template_at_def)

text \<open>The text of a match, given the step id and the path it captured.\<close>

definition grpc_replacement :: "go_env \<Rightarrow> results \<Rightarrow> string \<Rightarrow> string \<Rightarrow> string \<Rightarrow> string" where
  "grpc_replacement env stepResults match stepID fieldPath =
     (case stepResults stepID of
        None \<Rightarrow> match
      | Some sr \<Rightarrow>
          if sr_Parsed sr = None then match
          else case ResolveJSONPath fieldPath (parsed_any sr) of
            Inl err \<Rightarrow> match
          | Inr ANil \<Rightarrow> match
          | Inr (AStr v) \<Rightarrow> v
          | Inr (AFloat v) \<Rightarrow>
              (let n = f64_to_int64 (conv_oob env) v
               in if f64_eq v (f64_of_int n) then show_int n else fmt_float v)
          | Inr v \<Rightarrow> (case marshal v of Some b \<Rightarrow> b | None \<Rightarrow> []))"

function grpc_resolveTemplates :: "go_env \<Rightarrow> results \<Rightarrow> string \<Rightarrow> string" where
  "grpc_resolveTemplates env m [] = []"
| "grpc_resolveTemplates env m (c # s) =
     (case grpc_template_at (c # s) of
        None \<Rightarrow> c # grpc_resolveTemplates env m s
      | Some (sid, p, r) \<Rightarrow>
          grpc_replacement env m (take (length (c # s) - length r) (c # s)) sid p @ grpc_resolveTemplates env m r)"
  by pat_completeness auto
termination
  by (relation "measure (\<lambda>(env, m, s). length s)") (auto simp: grpc_template_at dest!: template_at_shorter)

definition grpc_resolveMatcherTemplates :: "go_env \<Rightarrow> results \<Rightarrow> rawmsg \<Rightarrow> resolved" where
  "grpc_resolveMatcherTemplates env m matcher =
     (let s = raw_text matcher in
      if strContains s ([ch 123, ch 123] @ ''steps.'') then
        (let resolved = grpc_resolveTemplates env m s in
         if resolved \<noteq> s then (resolved, json_parse resolved) else (s, Some (raw_tree matcher)))
      else (s, Some (raw_tree matcher)))"

subsection \<open>evaluateStatusAssertion\<close>

fun grpc_one_of_loop :: "string list \<Rightarrow> int \<Rightarrow> grpc_code serr \<Rightarrow> grpc_code serr option" where
  "grpc_one_of_loop [] actual e = Some e"
| "grpc_one_of_loop (codeStr # codes) actual e =
     (case atoi (trimSpace codeStr) of
        None \<Rightarrow> Some (InvalidStatusCode (trimSpace codeStr))
      | Some code \<Rightarrow> if actual = code then None else grpc_one_of_loop codes actual e)"

definition grpc_evaluateStatusAssertion :: "go_env \<Rightarrow> rawmsg \<Rightarrow> int \<Rightarrow> grpc_code serr option" where
  "grpc_evaluateStatusAssertion env raw actual =
     (case un_int (raw_tree raw) of
        Some statusInt \<Rightarrow>
          if actual \<noteq> statusInt then Some (StatusMismatch statusInt actual (HTTPStatusToGRPCCode actual)) else None
      | None \<Rightarrow>
          (case un_string (raw_tree raw) of
             Some statusStr \<Rightarrow>
               if hasPrefix statusStr ''one_of:'' then
                 (let codesStr = drop 7 statusStr in
                  grpc_one_of_loop (strSplit (CHR '','') codesStr) actual
                    (NotOneOf codesStr actual (HTTPStatusToGRPCCode actual)))
               else map_option StatusMatcher (MatchAssertion env raw (AFloat (f64_of_int actual)))
           | None \<Rightarrow>
               (case un_object (raw_tree raw) of
                  None \<Rightarrow> Some (UnknownStatusFormat (raw_text raw))
                | Some statusObj \<Rightarrow>
                    (case map_of statusObj ''$in'' of
                       None \<Rightarrow> Some (UnknownStatusFormat (raw_text raw))
                     | Some inRaw \<Rightarrow>
                         (case un_int_list (raw_tree inRaw) of
                            None \<Rightarrow> Some (UnknownStatusFormat (raw_text raw))
                          | Some inList \<Rightarrow>
                              if list_ex (\<lambda>s. actual = s) inList then None
                              else Some (StatusNotIn inList actual (HTTPStatusToGRPCCode actual)))))))"

subsection \<open>evaluateAssertions\<close>

type_synonym grpc_msg = "grpc_code fmsg"

definition grpc_checkStatus :: "go_env \<Rightarrow> string \<Rightarrow> Assertions \<Rightarrow> StepResult \<Rightarrow> grpc_msg Failure list" where
  "grpc_checkStatus env sid a sr =
     (case as_Status a of
        None \<Rightarrow> []
      | Some raw \<Rightarrow>
          (case grpc_evaluateStatusAssertion env raw (sr_StatusCode sr) of
             None \<Rightarrow> []
           | Some err \<Rightarrow> [failure sid ''status'' (raw_text raw) (show_int (sr_StatusCode sr)) (MStatus err)]))"

definition grpc_checkStatusIn :: "string \<Rightarrow> Assertions \<Rightarrow> StepResult \<Rightarrow> grpc_msg Failure list" where
  "grpc_checkStatusIn sid a sr =
     (if as_StatusIn a = [] \<or> list_ex (\<lambda>s. sr_StatusCode sr = s) (as_StatusIn a) then []
      else [failure sid ''status'' (''one of '' @ fmt_ints (as_StatusIn a)) (show_int (sr_StatusCode sr))
              (MStatusIn (as_StatusIn a) (sr_StatusCode sr))])"

text \<open>The loop over the entries of one alternative, which stops at the first that fails.\<close>

fun grpc_alternative_loop :: "go_env \<Rightarrow> results \<Rightarrow> StepResult \<Rightarrow> (string \<times> rawmsg) list \<Rightarrow> bool" where
  "grpc_alternative_loop env m sr [] = True"
| "grpc_alternative_loop env m sr ((p, mt) # rest) =
     (case ResolveJSONPath p (parsed_any sr) of
        Inl err \<Rightarrow> False
      | Inr val \<Rightarrow>
          if matchResolved env (grpc_resolveMatcherTemplates env m mt) val \<noteq> None then False
          else grpc_alternative_loop env m sr rest)"

fun grpc_or_loop :: "go_env \<Rightarrow> results \<Rightarrow> StepResult \<Rightarrow> rawmsg list \<Rightarrow> bool" where
  "grpc_or_loop env m sr [] = False"
| "grpc_or_loop env m sr (alt # alts) =
     (case un_object (raw_tree alt) of
        None \<Rightarrow> grpc_or_loop env m sr alts
      | Some altBody \<Rightarrow> if grpc_alternative_loop env m sr altBody then True else grpc_or_loop env m sr alts)"

definition grpc_checkOr ::
    "go_env \<Rightarrow> results \<Rightarrow> string \<Rightarrow> (string \<times> rawmsg) list \<Rightarrow> StepResult \<Rightarrow> grpc_msg Failure list" where
  "grpc_checkOr env m sid body sr =
     (case map_of body ''$or'' of
        None \<Rightarrow> []
      | Some orRaw \<Rightarrow>
          (case un_array (raw_tree orRaw) of
             None \<Rightarrow> []
           | Some alternatives \<Rightarrow>
               if grpc_or_loop env m sr alternatives then [] else [failure sid ''$or'' [] [] MNoAlternative]))"

text \<open>The loop over the entries of the body, in the order in which \<open>range\<close> visits them.\<close>

fun grpc_body_loop ::
    "go_env \<Rightarrow> results \<Rightarrow> string \<Rightarrow> StepResult \<Rightarrow> (string \<times> rawmsg) list \<Rightarrow> grpc_msg Failure list" where
  "grpc_body_loop env m sid sr [] = []"
| "grpc_body_loop env m sid sr ((path, matcher) # rest) =
     (if hasPrefix path ''$'' \<and> \<not> hasPrefix path ''$.'' then grpc_body_loop env m sid sr rest
      else
        let resolvedPath = grpc_resolveTemplates env m path;
            resolvedMatcher = grpc_resolveMatcherTemplates env m matcher
        in case ResolveJSONPath resolvedPath (parsed_any sr) of
             Inl err \<Rightarrow>
               if is_absent resolvedMatcher then grpc_body_loop env m sid sr rest
               else failure sid path [] [] (MUnresolvedPath path err) # grpc_body_loop env m sid sr rest
           | Inr val \<Rightarrow>
               (case matchResolved env resolvedMatcher val of
                  None \<Rightarrow> grpc_body_loop env m sid sr rest
                | Some err \<Rightarrow>
                    failure sid path (fst resolvedMatcher)
                      (if val = ANil then ''null'' else case marshal val of Some b \<Rightarrow> b | None \<Rightarrow> [])
                      (MAssertion path err) # grpc_body_loop env m sid sr rest))"

definition grpc_checkBody :: "go_env \<Rightarrow> results \<Rightarrow> string \<Rightarrow> Assertions \<Rightarrow> StepResult \<Rightarrow> grpc_msg Failure list" where
  "grpc_checkBody env m sid a sr =
     (case as_Body a of
        None \<Rightarrow> []
      | Some body \<Rightarrow>
          grpc_checkOr env m sid body sr
          @ (if sr_Parsed sr \<noteq> None then grpc_body_loop env m sid sr (ranged env body) else []))"

fun grpc_absent_loop :: "string \<Rightarrow> StepResult \<Rightarrow> string list \<Rightarrow> grpc_msg Failure list" where
  "grpc_absent_loop sid sr [] = []"
| "grpc_absent_loop sid sr (path # paths) =
     (case ResolveJSONPath path (parsed_any sr) of
        Inl err \<Rightarrow> []
      | Inr val \<Rightarrow> if val \<noteq> ANil then [failure sid path [] [] (MNotAbsent path)] else [])
     @ grpc_absent_loop sid sr paths"

definition grpc_checkTiming :: "TimingConfig \<Rightarrow> string \<Rightarrow> Assertions \<Rightarrow> StepResult \<Rightarrow> grpc_msg Failure list" where
  "grpc_checkTiming cfg sid a sr =
     (case as_TimingMs a of
        None \<Rightarrow> []
      | Some t \<Rightarrow>
          (let d = sr_DurationMs sr in
           (case LessThan t of
              None \<Rightarrow> []
            | Some n \<Rightarrow>
                if n \<le> d then [failure sid ''timing'' (''< '' @ show_int n @ ''ms'') (show_int d @ ''ms'') (MNotFaster n d)]
                else []) @
           (case GreaterThan t of
              None \<Rightarrow> []
            | Some n \<Rightarrow>
                if d \<le> n then [failure sid ''timing'' (''> '' @ show_int n @ ''ms'') (show_int d @ ''ms'') (MNotSlower n d)]
                else []) @
           (case Approximate t of
              None \<Rightarrow> []
            | Some n \<Rightarrow>
                (case AssertApproximateMs cfg (f64_of_int n) (f64_of_int d) of
                   None \<Rightarrow> []
                 | Some err \<Rightarrow> [failure sid ''timing'' [] [] (MTiming err)]))))"

fun grpc_contains_loop :: "string \<Rightarrow> StepResult \<Rightarrow> string list \<Rightarrow> grpc_msg Failure list" where
  "grpc_contains_loop sid sr [] = []"
| "grpc_contains_loop sid sr (substr # substrs) =
     (if \<not> strContains (body_text sr) substr then [failure sid ''body_contains'' substr [] (MBodyLacks substr)] else [])
     @ grpc_contains_loop sid sr substrs"

text \<open>There are no header assertions here.\<close>

definition grpc_evaluateAssertions ::
    "go_env \<Rightarrow> TimingConfig \<Rightarrow> string \<Rightarrow> Assertions \<Rightarrow> StepResult \<Rightarrow> results \<Rightarrow> grpc_msg Failure list" where
  "grpc_evaluateAssertions env cfg sid a sr m =
     grpc_checkStatus env sid a sr @ grpc_checkStatusIn sid a sr @ grpc_checkBody env m sid a sr
     @ grpc_absent_loop sid sr (as_BodyAbsent a) @ grpc_checkTiming cfg sid a sr
     @ grpc_contains_loop sid sr (as_BodyContains a)"

subsection \<open>The copies agree\<close>

text \<open>A failure without what only the gRPC runner puts into its messages.\<close>

definition untagged :: "grpc_msg Failure \<Rightarrow> unit fmsg Failure" where
  "untagged f = failure (f_StepID f) (f_Field f) (f_Expected f) (f_Actual f) (map_fmsg (\<lambda>_. ()) (f_Message f))"

lemma untagged_failure: "untagged (failure sid field e a msg) = failure sid field e a (map_fmsg (\<lambda>_. ()) msg)"
  by (simp add: untagged_def failure_def)

lemma grpc_replacement:
  "grpc_replacement env m match sid p = (case template_value env m sid p of Some v \<Rightarrow> v | None \<Rightarrow> match)"
  by (auto simp: grpc_replacement_def template_value_def Let_def split: option.split sum.split any.split)

lemma grpc_resolveTemplates: "grpc_resolveTemplates env m s = resolveTemplates env m s"
  by (induction env m s rule: resolveTemplates.induct)
    (auto simp: grpc_template_at grpc_replacement split: option.split prod.split)

lemma grpc_resolveMatcherTemplates: "grpc_resolveMatcherTemplates env m r = resolveMatcherTemplates env m r"
  by (simp add: grpc_resolveMatcherTemplates_def resolveMatcherTemplates_def grpc_resolveTemplates Let_def)

lemma grpc_one_of: "map_option (map_serr (\<lambda>_. ())) (grpc_one_of_loop cs n e) = one_of_loop cs n (map_serr (\<lambda>_. ()) e)"
  by (induction cs) (auto split: option.split)

lemma grpc_evaluateStatus:
  "map_option (map_serr (\<lambda>_. ())) (grpc_evaluateStatusAssertion env raw n) = evaluateStatusAssertion env raw n"
  by (auto simp: grpc_evaluateStatusAssertion_def evaluateStatusAssertion_def grpc_one_of option.map_comp comp_def
      list_ex_iff Let_def split: option.split)

lemma grpc_alternative: "grpc_alternative_loop env m sr kvs = list_all (\<lambda>(p, mt).
    case ResolveJSONPath p (parsed_any sr) of Inl e \<Rightarrow> False
    | Inr val \<Rightarrow> matchResolved env (resolveMatcherTemplates env m mt) val = None) kvs"
proof (induction env m sr kvs rule: grpc_alternative_loop.induct)
  case (2 env m sr p mt rest)
  then show ?case
    by (cases "ResolveJSONPath p (parsed_any sr)") (simp_all add: grpc_resolveMatcherTemplates)
qed simp

lemma grpc_or: "grpc_or_loop env m sr alts = list_ex (alternative_ok env m sr) alts"
  by (induction alts) (auto simp: alternative_ok_def grpc_alternative split: option.split)

lemma grpc_checks:
  "map untagged (grpc_checkStatus env sid a sr) = checkStatus env sid a sr"
  "map untagged (grpc_checkStatusIn sid a sr) = checkStatusIn sid a sr"
  "map untagged (grpc_checkOr env m sid body sr) = checkOr env m sid body sr"
  "map untagged (grpc_checkTiming cfg sid a sr) = checkTiming cfg sid a sr"
  by (auto simp: grpc_checkStatus_def checkStatus_def untagged_failure split: option.split
        simp flip: grpc_evaluateStatus)
    (auto simp: grpc_checkStatusIn_def checkStatusIn_def grpc_checkOr_def checkOr_def grpc_checkTiming_def checkTiming_def
      untagged_failure list_ex_iff grpc_or Let_def split: option.split)

lemma grpc_body_entries: "map untagged (grpc_body_loop env m sid sr kvs) = concat (map (checkPath env m sid sr) kvs)"
  by (induction kvs)
    (auto simp: checkPath_def grpc_resolveTemplates grpc_resolveMatcherTemplates untagged_failure Let_def
      split: sum.split option.split)

lemma grpc_lists:
  "map untagged (grpc_checkBody env m sid a sr) = checkBody env m sid a sr"
  "map untagged (grpc_absent_loop sid sr (as_BodyAbsent a)) = checkAbsent sid a sr"
  "map untagged (grpc_contains_loop sid sr (as_BodyContains a)) = checkContains sid a sr"
proof -
  show "map untagged (grpc_checkBody env m sid a sr) = checkBody env m sid a sr"
    by (simp add: grpc_checkBody_def checkBody_def grpc_checks grpc_body_entries split: option.split)
  have "map untagged (grpc_absent_loop sid sr ps) = concat (map (\<lambda>path. case ResolveJSONPath path (parsed_any sr) of
      Inl e \<Rightarrow> [] | Inr val \<Rightarrow> if val \<noteq> ANil then [failure sid path [] [] (MNotAbsent path)] else []) ps)" for ps
    by (induction ps) (auto simp: untagged_failure split: sum.split)
  then show "map untagged (grpc_absent_loop sid sr (as_BodyAbsent a)) = checkAbsent sid a sr"
    by (simp add: checkAbsent_def)
  have "map untagged (grpc_contains_loop sid sr ss) = concat (map (\<lambda>substr. if strContains (body_text sr) substr then []
      else [failure sid ''body_contains'' substr [] (MBodyLacks substr)]) ss)" for ss
    by (induction ss) (auto simp: untagged_failure)
  then show "map untagged (grpc_contains_loop sid sr (as_BodyContains a)) = checkContains sid a sr"
    by (simp add: checkContains_def)
qed

text \<open>Both evaluations around the header assertions.\<close>

definition before_headers where
  "before_headers env m sid a sr =
     checkStatus env sid a sr @ checkStatusIn sid a sr @ checkBody env m sid a sr @ checkAbsent sid a sr"

definition after_headers where
  "after_headers cfg sid a sr = checkTiming cfg sid a sr @ checkContains sid a sr"

lemma http_around_headers:
  "http_evaluateAssertions env cfg sid a sr m =
     before_headers env m sid a sr @ checkHeaders env sid a sr @ after_headers cfg sid a sr"
  by (simp add: http_evaluateAssertions_def before_headers_def after_headers_def)

lemma grpc_around_headers:
  "map untagged (grpc_evaluateAssertions env cfg sid a sr m) = before_headers env m sid a sr @ after_headers cfg sid a sr"
  by (simp add: grpc_evaluateAssertions_def before_headers_def after_headers_def grpc_checks grpc_lists)

lemma grpc_evaluate_labels: "f \<in> set (grpc_evaluateAssertions env cfg sid a sr m) \<Longrightarrow> f_StepID f = sid"
proof -
  assume "f \<in> set (grpc_evaluateAssertions env cfg sid a sr m)"
  then have "untagged f \<in> set (before_headers env m sid a sr @ after_headers cfg sid a sr)"
    unfolding grpc_around_headers [symmetric] by simp
  then have "f_StepID (untagged f) = sid" by (auto simp: before_headers_def after_headers_def dest: check_labels)
  then show ?thesis by (simp add: untagged_def)
qed

text \<open>C23. The two runners have separate copies of the evaluation of assertions, of template resolution and
  of status matching. On the same response the copies report the same failures, field for field
  and in the same order, but that the HTTP runner has those of the header assertions between them,
  which the gRPC runner does not evaluate, and that the status messages of the gRPC runner add a
  gRPC code.\<close>

theorem runners_agree_up_to_headers:
  "\<exists>before after.
     http_evaluateAssertions env cfg sid a sr m = before @ checkHeaders env sid a sr @ after
   \<and> map untagged (grpc_evaluateAssertions env cfg sid a sr m) = before @ after"
  using http_around_headers grpc_around_headers by blast

end
