(* ===== verification/Runner.thy ===== *)
theory Runner
  imports StepEval
begin

text \<open>
  Running the steps of a test case: \<open>runTest\<close> and \<open>executeStepsWithParallel\<close> of
  runner/http/runner.go and runner/grpc/runner.go, whose text differs only in
  \<open>collectParallelGroup\<close> and in \<open>executeStep\<close>. What \<open>executeStep\<close> does is split where another
  goroutine can come between: \<open>r_begin\<close> reads the earlier results to build the request (or
  finishes the step), \<open>r_send\<close> performs it on the world \<open>'w\<close>, \<open>r_check\<close> reads the earlier
  results again to evaluate the assertions. The two runners instantiate this record.

  Goroutines of a parallel group interleave between these phases; a schedule is the list of
  the goroutines in the order in which they make their next move. The code reads
  \<open>stepResults\<close> without its mutex, which the model renders as an atomic read of the map.
\<close>

type_synonym 'm outcome = "StepResult \<times> 'm Failure list"

record ('req, 'm, 'w) runner =
  r_begin :: "Step \<Rightarrow> results \<Rightarrow> 'w \<Rightarrow> ('m outcome + 'req) \<times> 'w"
  r_send :: "Step \<Rightarrow> 'req \<Rightarrow> 'w \<Rightarrow> ('m outcome + StepResult) \<times> 'w"
  r_check :: "Step \<Rightarrow> StepResult \<Rightarrow> results \<Rightarrow> 'm Failure list"

text \<open>\<open>executeStep\<close>, nothing coming between.\<close>

definition executeStep :: "('req, 'm, 'w) runner \<Rightarrow> Step \<Rightarrow> results \<Rightarrow> 'w \<Rightarrow> 'm outcome \<times> 'w" where
  "executeStep R st m w =
     (case r_begin R st m w of
        (Inl out, w1) \<Rightarrow> (out, w1)
      | (Inr req, w1) \<Rightarrow>
          (case r_send R st req w1 of
             (Inl out, w2) \<Rightarrow> (out, w2)
           | (Inr sr, w2) \<Rightarrow> ((sr, r_check R st sr m), w2)))"

subsection \<open>A parallel group\<close>

datatype ('req, 'm) goroutine =
    Ready
  | Requested 'req
  | Responded StepResult
  | Computed "'m outcome"
  | Done "'m outcome"

text \<open>The next move of one goroutine: from its state, the shared results and the world.\<close>

fun goroutine_move ::
    "('req, 'm, 'w) runner \<Rightarrow> Step \<Rightarrow> ('req, 'm) goroutine \<Rightarrow> results \<Rightarrow> 'w
       \<Rightarrow> ('req, 'm) goroutine \<times> results \<times> 'w" where
  "goroutine_move R st Ready m w =
     (case r_begin R st m w of
        (Inl out, w1) \<Rightarrow> (Computed out, m, w1)
      | (Inr req, w1) \<Rightarrow> (Requested req, m, w1))"
| "goroutine_move R st (Requested req) m w =
     (case r_send R st req w of
        (Inl out, w1) \<Rightarrow> (Computed out, m, w1)
      | (Inr sr, w1) \<Rightarrow> (Responded sr, m, w1))"
| "goroutine_move R st (Responded sr) m w = (Computed (sr, r_check R st sr m), m, w)"
| "goroutine_move R st (Computed out) m w = (Done out, m(st_ID st \<mapsto> fst out), w)"
| "goroutine_move R st (Done out) m w = (Done out, m, w)"

text \<open>The state of a group: its goroutines, the shared results, the world.\<close>

type_synonym ('req, 'm, 'w) group_state = "('req, 'm) goroutine list \<times> results \<times> 'w"

definition group_move ::
    "('req, 'm, 'w) runner \<Rightarrow> Step list \<Rightarrow> nat \<Rightarrow> ('req, 'm, 'w) group_state \<Rightarrow> ('req, 'm, 'w) group_state" where
  "group_move R grp j s =
     (let (gs, m, w) = s in
      if j < length gs then
        (let (g, m1, w1) = goroutine_move R (grp ! j) (gs ! j) m w in (gs[j := g], m1, w1))
      else s)"

definition run_schedule ::
    "('req, 'm, 'w) runner \<Rightarrow> Step list \<Rightarrow> nat list \<Rightarrow> ('req, 'm, 'w) group_state \<Rightarrow> ('req, 'm, 'w) group_state" where
  "run_schedule R grp sched s = fold (group_move R grp) sched s"

text \<open>\<open>wg.Wait\<close> returns when every goroutine is done: after the schedule the rest run to their end.\<close>

definition drain :: "nat \<Rightarrow> nat list" where
  "drain n = concat (map (\<lambda>j. [j, j, j, j]) [0..<n])"

fun done_outcome :: "('req, 'm) goroutine \<Rightarrow> 'm outcome option" where
  "done_outcome (Done out) = Some out"
| "done_outcome _ = None"

definition runGroup ::
    "('req, 'm, 'w) runner \<Rightarrow> Step list \<Rightarrow> nat list \<Rightarrow> results \<Rightarrow> 'w \<Rightarrow> 'm outcome list \<times> results \<times> 'w" where
  "runGroup R grp sched m w =
     (let (gs, m1, w1) =
        run_schedule R grp (sched @ drain (length grp)) (replicate (length grp) Ready, m, w)
      in (List.map_filter done_outcome gs, m1, w1))"

subsection \<open>executeStepsWithParallel\<close>

definition parallelGroups :: "Step list \<Rightarrow> string set" where
  "parallelGroups steps =
     set (concat (map (\<lambda>s. if st_ParallelWith s \<noteq> [] then [st_ID s, st_ParallelWith s] else []) steps))"

text \<open>
  The loop over the steps. \<open>collect\<close> is the runner's \<open>collectParallelGroup\<close>, applied to the
  steps from the current one on; \<open>sched\<close> gives the interleaving of the group that starts with
  that many steps left.
\<close>

type_synonym collector = "Step list \<Rightarrow> string \<Rightarrow> string set \<Rightarrow> Step list"

fun steps_loop ::
    "('req, 'm, 'w) runner \<Rightarrow> collector \<Rightarrow> (nat \<Rightarrow> nat list) \<Rightarrow> string set \<Rightarrow> string set \<Rightarrow> Step list
       \<Rightarrow> results \<Rightarrow> 'w \<Rightarrow> StepResult list \<times> 'm Failure list \<times> results \<times> 'w" where
  "steps_loop R collect sched members executed [] m w = ([], [], m, w)"
| "steps_loop R collect sched members executed (st # rest) m w =
     (if st_ID st \<in> executed then steps_loop R collect sched members executed rest m w
      else
        let grp = collect (st # rest) (st_ID st) members in
        if st_ID st \<in> members \<and> 1 < length grp then
          (let (outs, m1, w1) = runGroup R grp (sched (length rest)) m w;
               (rs, fs, m2, w2) =
                 steps_loop R collect sched members (executed \<union> st_ID ` set grp) rest m1 w1
           in (map fst outs @ rs, concat (map snd outs) @ fs, m2, w2))
        else
          (let ((sr, fs0), w1) = executeStep R st m w;
               (rs, fs, m2, w2) =
                 steps_loop R collect sched members (insert (st_ID st) executed) rest (m(st_ID st \<mapsto> sr)) w1
           in (sr # rs, fs0 @ fs, m2, w2)))"

definition executeStepsWithParallel ::
    "('req, 'm, 'w) runner \<Rightarrow> collector \<Rightarrow> (nat \<Rightarrow> nat list) \<Rightarrow> Step list \<Rightarrow> results \<Rightarrow> 'w
       \<Rightarrow> StepResult list \<times> 'm Failure list \<times> results \<times> 'w" where
  "executeStepsWithParallel R collect sched steps m w =
     steps_loop R collect sched (parallelGroups steps) {} steps m w"

subsection \<open>runTest\<close>

text \<open>The setup steps in order, up to the first that fails.\<close>

fun setup_loop ::
    "('req, 'm, 'w) runner \<Rightarrow> Step list \<Rightarrow> results \<Rightarrow> 'w \<Rightarrow> (string \<times> 'm) option \<times> results \<times> 'w" where
  "setup_loop R [] m w = (None, m, w)"
| "setup_loop R (st # rest) m w =
     (let ((sr, fs), w1) = executeStep R st m w;
          m1 = m(st_ID st \<mapsto> sr)
      in case fs of
           [] \<Rightarrow> setup_loop R rest m1 w1
         | f # _ \<Rightarrow> (Some (st_ID st, f_Message f), m1, w1))"

fun teardown_loop :: "('req, 'm, 'w) runner \<Rightarrow> Step list \<Rightarrow> results \<Rightarrow> 'w \<Rightarrow> results \<times> 'w" where
  "teardown_loop R [] m w = (m, w)"
| "teardown_loop R (st # rest) m w =
     (let ((sr, fs), w1) = executeStep R st m w in teardown_loop R rest (m(st_ID st \<mapsto> sr)) w1)"

definition new_result :: "TestCase \<Rightarrow> 'm TestResult" where
  "new_result tc =
     \<lparr>tr_TestID = tc_TestID tc, tr_Name = tc_Name tc, tr_Level = tc_LevelInt tc, tr_Category = tc_Category tc,
      tr_SpecRef = tc_SpecRef tc, tr_Status = [], tr_DurationMs = 0, tr_Failures = [], tr_StepResults = [],
      tr_FilePath = tc_FilePath tc\<rparr>"

definition option_list :: "'a list option \<Rightarrow> 'a list" where
  "option_list xs = (case xs of None \<Rightarrow> [] | Some ys \<Rightarrow> ys)"

text \<open>
  \<open>elapsed\<close> is \<open>time.Since(start)\<close> as a duration in the world in which it is taken;
  \<open>setup_msg\<close> wraps the message of the failed setup step.
\<close>

definition runTest ::
    "('req, 'm, 'w) runner \<Rightarrow> collector \<Rightarrow> (nat \<Rightarrow> nat list) \<Rightarrow> ('m \<Rightarrow> 'm) \<Rightarrow> ('w \<Rightarrow> int) \<Rightarrow> TestCase \<Rightarrow> 'w
       \<Rightarrow> 'm TestResult \<times> 'w" where
  "runTest R collect sched setup_msg elapsed tc w =
     (case setup_loop R (option_list (tc_Setup tc)) Map.empty w of
        (Some (sid, msg), m1, w1) \<Rightarrow>
          ((new_result tc)\<lparr>tr_Status := ''error'', tr_Failures := [failure sid [] [] [] (setup_msg msg)],
              tr_DurationMs := Milliseconds (elapsed w1)\<rparr>, w1)
      | (None, m1, w1) \<Rightarrow>
          (let (rs, fs, m2, w2) = executeStepsWithParallel R collect sched (tc_Steps tc) m1 w1;
               (m3, w3) = teardown_loop R (option_list (tc_Teardown tc)) m2 w2
           in ((new_result tc)\<lparr>tr_StepResults := rs, tr_Failures := fs,
                  tr_DurationMs := Milliseconds (elapsed w3),
                  tr_Status := (if fs \<noteq> [] then ''fail'' else ''pass'')\<rparr>, w3)))"

text \<open>\<open>filterTests\<close>, the same in both runners.\<close>

definition filterTests :: "TestCase list \<Rightarrow> int \<Rightarrow> string \<Rightarrow> string \<Rightarrow> TestCase list" where
  "filterTests tests level category testID =
     filter (\<lambda>tc. \<not> (0 \<le> level \<and> tc_LevelInt tc \<noteq> level)
               \<and> \<not> (category \<noteq> [] \<and> tc_Category tc \<noteq> category)
               \<and> \<not> (testID \<noteq> [] \<and> tc_TestID tc \<noteq> testID)) tests"

definition grpc_filterTests :: "TestCase list \<Rightarrow> int \<Rightarrow> string \<Rightarrow> string \<Rightarrow> TestCase list" where
  "grpc_filterTests = filterTests"

end
