(* ===== verification/Scheduler.thy ===== *)
theory Scheduler
  imports Runner
begin

text \<open>
  The contract between the step loop and the two things it is built on, as locales: a
  \<open>step_runner\<close> labels every result with the id of its step, and a \<open>collector\<close> returns a
  group that contains the triggering step and only steps from it on. Under these laws every
  interleaving of a parallel group ends with one outcome per member, in the order of the
  members, and the loop covers every step id. The locales are interpreted on the HTTP and the
  gRPC runner in their theories.
\<close>

subsection \<open>Interleavings of a group\<close>

text \<open>The states a group can reach from its start, whichever goroutine moves next.\<close>

inductive reachable ::
    "('req, 'm, 'w) runner \<Rightarrow> Step list \<Rightarrow> results \<Rightarrow> 'w \<Rightarrow> ('req, 'm, 'w) group_state \<Rightarrow> bool"
  for R grp m w where
  r_start: "reachable R grp m w (replicate (length grp) Ready, m, w)"
| r_move: "reachable R grp m w s \<Longrightarrow> j < length grp \<Longrightarrow> reachable R grp m w (group_move R grp j s)"

text \<open>The moves a goroutine has left.\<close>

fun moves_left :: "('req, 'm) goroutine \<Rightarrow> nat" where
  "moves_left Ready = 4"
| "moves_left (Requested req) = 3"
| "moves_left (Responded sr) = 2"
| "moves_left (Computed out) = 1"
| "moves_left (Done out) = 0"

lemma moves_left_0: "moves_left g = 0 \<longleftrightarrow> (\<exists>out. g = Done out)"
  by (cases g) auto

lemma goroutine_move_left:
  "moves_left (fst (goroutine_move R st g m w)) \<le> moves_left g - 1"
  by (cases "(R, st, g, m, w)" rule: goroutine_move.cases) (auto split: prod.splits sum.splits)

lemma group_move_length [simp]: "length (fst (group_move R grp j s)) = length (fst s)"
  by (auto simp: group_move_def split: prod.splits)

lemma group_move_left:
  "moves_left (fst (group_move R grp j s) ! i) \<le>
     (if i = j \<and> j < length (fst s) then moves_left (fst s ! i) - 1 else moves_left (fst s ! i))"
  using goroutine_move_left [of R "grp ! j" "fst s ! j" "fst (snd s)" "snd (snd s)"]
  by (auto simp: group_move_def nth_list_update split: prod.splits)

lemma run_schedule_length [simp]: "length (fst (run_schedule R grp sched s)) = length (fst s)"
  by (induction sched arbitrary: s) (auto simp: run_schedule_def)

lemma run_schedule_left:
  "i < length (fst s) \<Longrightarrow>
   moves_left (fst (run_schedule R grp sched s) ! i) \<le> moves_left (fst s ! i) - count_list sched i"
proof (induction sched arbitrary: s)
  case (Cons j sched)
  have "moves_left (fst (run_schedule R grp sched (group_move R grp j s)) ! i) \<le>
      moves_left (fst (group_move R grp j s) ! i) - count_list sched i"
    using Cons by simp
  also have "\<dots> \<le> moves_left (fst s ! i) - count_list (j # sched) i"
    using group_move_left [of R grp j s i] Cons.prems by (auto split: if_splits)
  finally show ?case by (simp add: run_schedule_def)
qed (simp add: run_schedule_def)

lemma count_drain: "i < n \<Longrightarrow> 4 \<le> count_list (drain n) i"
proof -
  assume "i < n"
  then obtain xs ys where "[0..<n] = xs @ i # ys"
    by (metis atLeastLessThan_iff in_set_conv_decomp less_nat_zero_code not_less set_upt)
  then show ?thesis by (simp add: drain_def)
qed

lemma count_list_append_le: "count_list ys i \<le> count_list (xs @ ys) i"
  by (induction xs) auto

text \<open>After the schedule and the drain every goroutine is done.\<close>

lemma drained:
  assumes "i < length grp"
  shows "\<exists>out. fst (run_schedule R grp (sched @ drain (length grp)) (replicate (length grp) Ready, m, w)) ! i = Done out"
proof -
  let ?s = "(replicate (length grp) Ready, m, w)"
  have "moves_left (fst (run_schedule R grp (sched @ drain (length grp)) ?s) ! i)
      \<le> 4 - count_list (sched @ drain (length grp)) i"
    using run_schedule_left [of i ?s R grp "sched @ drain (length grp)"] assms by simp
  moreover have "4 \<le> count_list (sched @ drain (length grp)) i"
    using count_drain [OF assms] count_list_append_le [of "drain (length grp)" i sched] by linarith
  ultimately show ?thesis by (simp add: moves_left_0)
qed

lemma run_schedule_reachable:
  "reachable R grp m w s \<Longrightarrow> reachable R grp m w (run_schedule R grp sched s)"
proof (induction sched arbitrary: s)
  case (Cons j sched)
  have "length (fst s) = length grp"
    using Cons.prems by (induction rule: reachable.induct) auto
  then have "group_move R grp j s = s" if "\<not> j < length grp"
    using that by (auto simp: group_move_def split: prod.splits)
  then have "reachable R grp m w (group_move R grp j s)"
    using Cons.prems by (cases "j < length grp") (auto intro: r_move)
  from Cons.IH [OF this] show ?case by (simp add: run_schedule_def)
qed (simp add: run_schedule_def)

text \<open>
  Results are published under the members' ids and nowhere else; with distinct ids each
  outcome that is done is the published one.
\<close>

lemma reachable_published:
  "reachable R grp m w s \<Longrightarrow> distinct (map st_ID grp) \<Longrightarrow>
     length (fst s) = length grp \<and>
     (\<forall>i < length grp. \<forall>out. fst s ! i = Done out \<longrightarrow> fst (snd s) (st_ID (grp ! i)) = Some (fst out)) \<and>
     (\<forall>sid. sid \<notin> st_ID ` set grp \<longrightarrow> fst (snd s) sid = m sid)"
proof (induction rule: reachable.induct)
  case (r_move s j)
  obtain gs m1 w1 where s: "s = (gs, m1, w1)" by (cases s)
  have IH: "length gs = length grp"
    "\<And>i out. i < length grp \<Longrightarrow> gs ! i = Done out \<Longrightarrow> m1 (st_ID (grp ! i)) = Some (fst out)"
    "\<And>sid. sid \<notin> st_ID ` set grp \<Longrightarrow> m1 sid = m sid"
    using r_move by (auto simp: s)
  have ne: "st_ID (grp ! i) \<noteq> st_ID (grp ! j)" if "i < length grp" "i \<noteq> j" for i
    using that r_move(2,4) by (auto simp: distinct_conv_nth)
  have mem: "st_ID (grp ! j) \<in> st_ID ` set grp" using r_move(2) by simp
  show ?case
  proof (cases "gs ! j")
    case (Computed out)
    then have "group_move R grp j s = (gs[j := Done out], m1(st_ID (grp ! j) \<mapsto> fst out), w1)"
      using r_move(2) IH(1) by (simp add: s group_move_def)
    then show ?thesis using IH ne mem r_move(2) by (simp add: nth_list_update) auto
  next
    case (Done out)
    then have "group_move R grp j s = (gs, m1, w1)"
      using r_move(2) IH(1) by (simp add: s group_move_def list_update_same_conv)
    then show ?thesis using IH by simp
  qed (use r_move(2) IH in \<open>auto simp: s group_move_def nth_list_update split: prod.splits sum.splits\<close>)
qed simp

subsection \<open>The contract of a runner\<close>

text \<open>The result and every failure of an outcome carry the id of the step.\<close>

definition labelled :: "Step \<Rightarrow> 'm outcome \<Rightarrow> bool" where
  "labelled st out \<longleftrightarrow> sr_StepID (fst out) = st_ID st \<and> (\<forall>f \<in> set (snd out). f_StepID f = st_ID st)"

fun goroutine_ok :: "Step \<Rightarrow> ('req, 'm) goroutine \<Rightarrow> bool" where
  "goroutine_ok st (Responded sr) = (sr_StepID sr = st_ID st)"
| "goroutine_ok st (Computed out) = labelled st out"
| "goroutine_ok st (Done out) = labelled st out"
| "goroutine_ok st g = True"

abbreviation ids :: "StepResult list \<Rightarrow> string list" where
  "ids rs \<equiv> map sr_StepID rs"

locale step_runner =
  fixes R :: "('req, 'm, 'w) runner"
  assumes begin_labelled: "r_begin R st m w = (Inl out, w') \<Longrightarrow> labelled st out"
    and send_out_labelled: "r_send R st req w = (Inl out, w') \<Longrightarrow> labelled st out"
    and send_labelled: "r_send R st req w = (Inr sr, w') \<Longrightarrow> sr_StepID sr = st_ID st"
    and check_labelled: "f \<in> set (r_check R st sr m) \<Longrightarrow> f_StepID f = st_ID st"
begin

lemma execute_labelled: "executeStep R st m w = (out, w') \<Longrightarrow> labelled st out"
  by (auto simp: executeStep_def labelled_def dest: begin_labelled send_out_labelled send_labelled check_labelled
      split: prod.splits sum.splits)

lemma goroutine_move_ok: "goroutine_ok st g \<Longrightarrow> goroutine_ok st (fst (goroutine_move R st g m w))"
  by (cases "(R, st, g, m, w)" rule: goroutine_move.cases)
    (auto simp: labelled_def dest: begin_labelled send_out_labelled send_labelled check_labelled
      split: prod.splits sum.splits)

lemma reachable_ok:
  "reachable R grp m w s \<Longrightarrow> length (fst s) = length grp \<and> (\<forall>i < length grp. goroutine_ok (grp ! i) (fst s ! i))"
proof (induction rule: reachable.induct)
  case (r_move s j)
  obtain gs m1 w1 where s: "s = (gs, m1, w1)" by (cases s)
  have "goroutine_ok (grp ! j) (fst (goroutine_move R (grp ! j) (gs ! j) m1 w1))"
    using r_move by (intro goroutine_move_ok) (simp add: s)
  then show ?case
    using r_move by (auto simp: s group_move_def nth_list_update split: prod.splits)
qed simp

lemma map_filter_done:
  "list_all2 (\<lambda>st g. (\<exists>out. g = Done out) \<and> goroutine_ok st g) grp gs \<Longrightarrow>
   list_all2 labelled grp (List.map_filter done_outcome gs)"
  by (induction rule: list_all2_induct) (auto simp: List.map_filter_simps)

text \<open>Whatever the interleaving, a group yields one labelled outcome per member, in order.\<close>

lemma runGroup_labelled:
  assumes "runGroup R grp sched m w = (outs, m', w')"
  shows "list_all2 labelled grp outs"
proof -
  let ?s = "run_schedule R grp (sched @ drain (length grp)) (replicate (length grp) Ready, m, w)"
  have "reachable R grp m w ?s" by (intro run_schedule_reachable r_start)
  from reachable_ok [OF this] have "list_all2 labelled grp (List.map_filter done_outcome (fst ?s))"
    using drained [of _ grp R sched m w] by (intro map_filter_done) (simp add: list_all2_conv_all_nth)
  with assms show ?thesis by (auto simp: runGroup_def split: prod.splits)
qed

lemma runGroup_ids:
  assumes "runGroup R grp sched m w = (outs, m', w')"
  shows "map (sr_StepID \<circ> fst) outs = map st_ID grp"
  using runGroup_labelled [OF assms]
  by (auto simp: list_all2_conv_all_nth labelled_def intro: nth_equalityI)

end

subsection \<open>The contract of a collector\<close>

lemma covers_step:
  "T \<subseteq> E \<union> S \<union> X \<Longrightarrow> X \<subseteq> T \<Longrightarrow> S \<subseteq> insert i T \<Longrightarrow> i \<in> S \<Longrightarrow>
   insert i T \<subseteq> E \<union> (S \<union> X) \<and> S \<union> X \<subseteq> insert i T"
  by blast

fun first_occurrences :: "string set \<Rightarrow> string list \<Rightarrow> string list" where
  "first_occurrences seen [] = []"
| "first_occurrences seen (x # xs) =
     (if x \<in> seen then first_occurrences seen xs else x # first_occurrences (insert x seen) xs)"

locale scheduler = step_runner R for R :: "('req, 'm, 'w) runner" +
  fixes collect :: collector
  assumes collect_trigger: "st_ID st \<in> members \<Longrightarrow> st \<in> set (collect (st # rest) (st_ID st) members)"
    and collect_subset: "set (collect steps trigger members) \<subseteq> set steps"
begin

text \<open>Every step id has a result, and every result is for a step.\<close>

lemma steps_loop_covers:
  "steps_loop R collect sched members executed steps m w = (rs, fs, m', w') \<Longrightarrow>
     st_ID ` set steps \<subseteq> executed \<union> set (ids rs) \<and> set (ids rs) \<subseteq> st_ID ` set steps"
proof (induction steps arbitrary: executed m w rs fs m' w')
  case (Cons st rest)
  show ?case
  proof (cases "st_ID st \<in> executed")
    case True
    with Cons.IH [of executed m w rs fs m' w'] Cons.prems show ?thesis by auto
  next
    case ne: False
    let ?g = "collect (st # rest) (st_ID st) members"
    show ?thesis
    proof (cases "st_ID st \<in> members \<and> 1 < length ?g")
      case True
      then obtain outs m1 w1 rs' fs' where
        g: "runGroup R ?g (sched (length rest)) m w = (outs, m1, w1)" and
        l: "steps_loop R collect sched members (executed \<union> st_ID ` set ?g) rest m1 w1 = (rs', fs', m', w')" and
        rs: "rs = map fst outs @ rs'"
        using Cons.prems ne by (auto simp: Let_def split: prod.splits)
      have "ids (map fst outs) = map st_ID ?g" using runGroup_ids [OF g] by simp
      then have "set (ids (map fst outs)) = st_ID ` set ?g" by (simp only: set_map)
      moreover have "st_ID ` set ?g \<subseteq> st_ID ` set (st # rest)"
        using collect_subset by (intro image_mono)
      moreover have "st_ID st \<in> st_ID ` set ?g"
        using True collect_trigger by blast
      moreover have "set (ids rs) = set (ids (map fst outs)) \<union> set (ids rs')" by (simp add: rs)
      ultimately show ?thesis
        using Cons.IH [OF l] covers_step [of "st_ID ` set rest" executed "st_ID ` set ?g" "set (ids rs')" "st_ID st"]
        by simp
    next
      case False
      then obtain sr fs0 w1 rs' fs' where
        e: "executeStep R st m w = ((sr, fs0), w1)" and
        l: "steps_loop R collect sched members (insert (st_ID st) executed) rest (m(st_ID st \<mapsto> sr)) w1 = (rs', fs', m', w')"
        and rs: "rs = sr # rs'"
        using Cons.prems ne by (auto simp: Let_def split: prod.splits)
      have "sr_StepID sr = st_ID st" using execute_labelled [OF e] by (simp add: labelled_def)
      then show ?thesis using Cons.IH [OF l] by (auto simp: rs)
    qed
  qed
qed simp

text \<open>Every failure belongs to a step that has a result.\<close>

lemma runGroup_failures:
  assumes "runGroup R grp sched m w = (outs, m', w')"
  shows "f_StepID ` set (concat (map snd outs)) \<subseteq> set (ids (map fst outs))"
proof -
  have "f_StepID f = sr_StepID (fst out)" if o: "out \<in> set outs" and f: "f \<in> set (snd out)" for out f
  proof -
    obtain i where "i < length outs" "outs ! i = out" using o by (auto simp: in_set_conv_nth)
    with list_all2_nthD2 [OF runGroup_labelled [OF assms]] have "labelled (grp ! i) out" by blast
    with f show ?thesis by (simp add: labelled_def)
  qed
  then show ?thesis by auto
qed

lemma steps_loop_failures:
  "steps_loop R collect sched members executed steps m w = (rs, fs, m', w') \<Longrightarrow>
     f_StepID ` set fs \<subseteq> set (ids rs)"
proof (induction steps arbitrary: executed m w rs fs m' w')
  case (Cons st rest)
  let ?g = "collect (st # rest) (st_ID st) members"
  consider (skip) "st_ID st \<in> executed"
    | (grp) "st_ID st \<notin> executed" "st_ID st \<in> members \<and> 1 < length ?g"
    | (seq) "st_ID st \<notin> executed" "\<not> (st_ID st \<in> members \<and> 1 < length ?g)" by blast
  then show ?case
  proof cases
    case skip
    then show ?thesis using Cons by simp
  next
    case grp
    then obtain outs m1 w1 rs' fs' where g: "runGroup R ?g (sched (length rest)) m w = (outs, m1, w1)" and
      l: "steps_loop R collect sched members (executed \<union> st_ID ` set ?g) rest m1 w1 = (rs', fs', m', w')" and
      "rs = map fst outs @ rs'" "fs = concat (map snd outs) @ fs'"
      using Cons.prems by (auto simp: Let_def split: prod.splits)
    with Cons.IH [OF l] runGroup_failures [OF g] show ?thesis
      by (simp only: set_append image_Un map_append) blast
  next
    case seq
    then obtain sr fs0 w1 rs' fs' where e: "executeStep R st m w = ((sr, fs0), w1)" and
      l: "steps_loop R collect sched members (insert (st_ID st) executed) rest (m(st_ID st \<mapsto> sr)) w1 = (rs', fs', m', w')"
      and "rs = sr # rs'" "fs = fs0 @ fs'"
      using Cons.prems by (auto simp: Let_def split: prod.splits)
    with Cons.IH [OF l] execute_labelled [OF e] show ?thesis by (auto simp: labelled_def)
  qed
qed simp

lemma steps_loop_skip:
  "st_ID ` set xs \<subseteq> executed \<Longrightarrow>
   steps_loop R collect sched members executed (xs @ ys) m w = steps_loop R collect sched members executed ys m w"
  by (induction xs) auto

text \<open>
  Where the collector returns the run of members from the trigger on, distinct steps are
  executed once each, in their order.
\<close>

lemma steps_loop_in_order:
  assumes "\<And>xs st rest. steps = xs @ st # rest \<Longrightarrow> st_ID st \<in> members \<Longrightarrow>
      collect (st # rest) (st_ID st) members = takeWhile (\<lambda>s. st_ID s \<in> members) (st # rest)"
    "distinct (map st_ID steps)" "executed \<inter> st_ID ` set steps = {}"
    "steps_loop R collect sched members executed steps m w = (rs, fs, m', w')"
  shows "ids rs = map st_ID steps"
  using assms
proof (induction "length steps" arbitrary: steps executed m w rs fs m' w' rule: less_induct)
  case less
  show ?case
  proof (cases steps)
    case (Cons st rest)
    let ?g = "collect (st # rest) (st_ID st) members"
    have ne: "st_ID st \<notin> executed" using less.prems(3) by (auto simp: Cons)
    show ?thesis
    proof (cases "st_ID st \<in> members \<and> 1 < length ?g")
      case True
      define ys where "ys = dropWhile (\<lambda>s. st_ID s \<in> members) (st # rest)"
      have g: "?g = takeWhile (\<lambda>s. st_ID s \<in> members) (st # rest)"
        using less.prems(1) [of "[]" st rest] True by (simp add: Cons)
      obtain g' where g': "?g = st # g'" using True g by (cases ?g) auto
      have split: "st # rest = ?g @ ys" unfolding g ys_def by simp
      then have rest: "rest = g' @ ys" using g' by simp
      obtain outs m1 w1 rs' fs' where
        run: "runGroup R ?g (sched (length rest)) m w = (outs, m1, w1)" and
        l: "steps_loop R collect sched members (executed \<union> st_ID ` set ?g) rest m1 w1 = (rs', fs', m', w')" and
        rs: "rs = map fst outs @ rs'"
        using less.prems(4) ne True by (auto simp: Cons Let_def split: prod.splits)
      have l': "steps_loop R collect sched members (executed \<union> st_ID ` set ?g) ys m1 w1 = (rs', fs', m', w')"
      proof -
        have "st_ID ` set g' \<subseteq> executed \<union> st_ID ` set ?g" unfolding g' by auto
        from steps_loop_skip [OF this] l show ?thesis by (simp add: rest)
      qed
      have d: "distinct (map st_ID (?g @ ys))" "executed \<inter> st_ID ` set (?g @ ys) = {}"
        using less.prems(2,3) unfolding split [symmetric] Cons by simp_all
      have "ids rs' = map st_ID ys"
      proof (rule less.hyps [OF _ _ _ _ l'])
        show "length ys < length steps" using rest by (simp add: Cons)
        show "distinct (map st_ID ys)" "(executed \<union> st_ID ` set ?g) \<inter> st_ID ` set ys = {}"
          using d by auto
        show "collect (a # b) (st_ID a) members = takeWhile (\<lambda>s. st_ID s \<in> members) (a # b)"
          if "ys = xs @ a # b" "st_ID a \<in> members" for xs a b
          using that less.prems(1) [of "st # g' @ xs" a b] by (simp add: Cons rest)
      qed
      moreover have "ids (map fst outs) = map st_ID ?g" using runGroup_ids [OF run] by simp
      ultimately have "ids rs = map st_ID (?g @ ys)" by (simp add: rs)
      then show ?thesis unfolding split [symmetric] Cons .
    next
      case False
      then obtain sr fs0 w1 rs' fs' where
        e: "executeStep R st m w = ((sr, fs0), w1)" and
        l: "steps_loop R collect sched members (insert (st_ID st) executed) rest (m(st_ID st \<mapsto> sr)) w1 = (rs', fs', m', w')"
        and rs: "rs = sr # rs'"
        using less.prems(4) ne by (auto simp: Cons Let_def split: prod.splits)
      have "ids rs' = map st_ID rest"
      proof (rule less.hyps [OF _ _ _ _ l])
        show "collect (a # b) (st_ID a) members = takeWhile (\<lambda>s. st_ID s \<in> members) (a # b)"
          if "rest = xs @ a # b" "st_ID a \<in> members" for xs a b
          using that less.prems(1) [of "st # xs" a b] by (simp add: Cons)
      qed (use less.prems(2,3) in \<open>auto simp: Cons\<close>)
      moreover have "sr_StepID sr = st_ID st" using execute_labelled [OF e] by (simp add: labelled_def)
      ultimately show ?thesis by (simp add: rs Cons)
    qed
  qed (use less.prems in simp)
qed

text \<open>Without parallel steps, only the first step of every id is executed.\<close>

lemma steps_loop_first_occurrences:
  "ids (fst (steps_loop R collect sched {} executed steps m w)) = first_occurrences executed (map st_ID steps)"
proof (induction steps arbitrary: executed m w)
  case (Cons st rest)
  obtain sr fs w1 where e: "executeStep R st m w = ((sr, fs), w1)" by (metis prod.exhaust)
  then have "sr_StepID sr = st_ID st" using execute_labelled [OF e] by (simp add: labelled_def)
  then show ?case
    using Cons.IH [of "insert (st_ID st) executed" "m(st_ID st \<mapsto> sr)" w1] Cons.IH [of executed m w]
    by (auto simp: e simp del: fun_upd_apply split: prod.splits)
qed simp

end

end
