(* ===== verification/HttpRunner.thy ===== *)
theory HttpRunner
  imports Scheduler
begin

text \<open>
  The HTTP runner, runner/http/runner.go: \<open>executeStep\<close> in its three phases over an HTTP
  client on a world \<open>'w\<close>, and its \<open>collectParallelGroup\<close>. The client is a parameter:
  \<open>http_sleep\<close> is \<open>time.Sleep\<close>, \<open>http_new\<close> the error of \<open>http.NewRequest\<close> for a method and a
  URL, and \<open>http_do\<close> is \<open>client.Do\<close> with the time it took, whose response body still has to
  be read (an error or the bytes).
\<close>

record http_request =
  rq_Method :: string
  rq_URL :: string
  rq_Header :: "(string \<times> string) list"
  rq_Body :: "string option"

record http_response =
  rs_StatusCode :: int
  rs_Header :: "(string \<times> string list) list"
  rs_Body :: "string + string"

record 'w http_ops =
  http_sleep :: "int \<Rightarrow> 'w \<Rightarrow> 'w"
  http_new :: "string \<Rightarrow> string \<Rightarrow> string option"
  http_do :: "http_request \<Rightarrow> 'w \<Rightarrow> (string + http_response) \<times> int \<times> 'w"

definition ojsMediaType :: string where
  "ojsMediaType = ''application/openjobspec+json''"

text \<open>\<open>time.Duration(ms) * time.Millisecond\<close>, in 64 bits.\<close>

definition ms_duration :: "int \<Rightarrow> int" where
  "ms_duration ms = signed_take_bit 63 (ms * millisecond)"

text \<open>The delay of a step, and the pure delay of a \<open>WAIT\<close>.\<close>

definition step_delay :: "(int \<Rightarrow> 'w \<Rightarrow> 'w) \<Rightarrow> Step \<Rightarrow> 'w \<Rightarrow> 'w" where
  "step_delay slp st w = (if 0 < st_DelayMs st then slp (ms_duration (st_DelayMs st)) w else w)"

definition is_wait :: "Step \<Rightarrow> bool" where
  "is_wait st \<longleftrightarrow> equalFoldASCII (st_Action st) ''WAIT''"

definition wait_delay :: "(int \<Rightarrow> 'w \<Rightarrow> 'w) \<Rightarrow> Step \<Rightarrow> 'w \<Rightarrow> 'w" where
  "wait_delay slp st w =
     (let waitMs = (if st_DurationMs st \<le> 0 then st_DelayMs st else st_DurationMs st)
      in if 0 < waitMs then slp (ms_duration waitMs) w else w)"

text \<open>\<open>http.Header.Set\<close>.\<close>

definition header_set :: "(string \<times> string) list \<Rightarrow> string \<Rightarrow> string \<Rightarrow> (string \<times> string) list" where
  "header_set hs k v = AList.update (canonicalKey k) v hs"

definition request_headers :: "go_env \<Rightarrow> Step \<Rightarrow> bool \<Rightarrow> (string \<times> string) list" where
  "request_headers env st has_body =
     (let hs = fold (\<lambda>(k, v) acc. header_set acc k v)
                 (ranged env (case st_Headers st of None \<Rightarrow> [] | Some h \<Rightarrow> h)) [];
          ct = (case map_of hs ''Content-Type'' of Some v \<Rightarrow> v | None \<Rightarrow> [])
      in if ct = [] \<and> has_body then header_set hs ''Content-Type'' ojsMediaType else hs)"

subsection \<open>executeStep\<close>

definition http_begin ::
    "go_env \<Rightarrow> 'w http_ops \<Rightarrow> string \<Rightarrow> Step \<Rightarrow> results \<Rightarrow> 'w \<Rightarrow> (unit fmsg outcome + http_request) \<times> 'w" where
  "http_begin env ops baseURL st m w =
     (let w1 = step_delay (http_sleep ops) st w in
      if is_wait st then (Inl (empty_result (st_ID st), []), wait_delay (http_sleep ops) st w1)
      else
        let path = resolveTemplates env m (st_Path st);
            body = map_option (\<lambda>b. resolveTemplates env m (raw_text b)) (st_Body st);
            url = baseURL @ path
        in case http_new ops (st_Action st) url of
             Some err \<Rightarrow> (Inl (empty_result (st_ID st), [failure (st_ID st) [] [] [] (MCreateRequest err)]), w1)
           | None \<Rightarrow>
               (Inr \<lparr>rq_Method = st_Action st, rq_URL = url,
                     rq_Header = request_headers env st (body \<noteq> None), rq_Body = body\<rparr>, w1))"

definition http_send ::
    "'w http_ops \<Rightarrow> Step \<Rightarrow> http_request \<Rightarrow> 'w \<Rightarrow> (unit fmsg outcome + StepResult) \<times> 'w" where
  "http_send ops st req w =
     (case http_do ops req w of
        (Inl err, d, w1) \<Rightarrow>
          (Inl (empty_result (st_ID st), [failure (st_ID st) [] [] [] (MRequest err)]), w1)
      | (Inr resp, d, w1) \<Rightarrow>
          (case rs_Body resp of
             Inl err \<Rightarrow> (Inl (empty_result (st_ID st), [failure (st_ID st) [] [] [] (MReadBody err)]), w1)
           | Inr respBody \<Rightarrow>
               (Inr \<lparr>sr_StepID = st_ID st, sr_StatusCode = rs_StatusCode resp, sr_Headers = Some (rs_Header resp),
                     sr_Body = Some respBody, sr_DurationMs = Milliseconds d,
                     sr_Parsed = (if respBody \<noteq> [] then unmarshal_obj respBody else None)\<rparr>, w1)))"

definition http_check :: "go_env \<Rightarrow> TimingConfig \<Rightarrow> Step \<Rightarrow> StepResult \<Rightarrow> results \<Rightarrow> unit fmsg Failure list" where
  "http_check env cfg st sr m =
     (case st_Assertions st of
        None \<Rightarrow> []
      | Some a \<Rightarrow> http_evaluateAssertions env cfg (st_ID st) a sr m)"

definition http_runner ::
    "go_env \<Rightarrow> TimingConfig \<Rightarrow> 'w http_ops \<Rightarrow> string \<Rightarrow> (http_request, unit fmsg, 'w) runner" where
  "http_runner env cfg ops baseURL =
     \<lparr>r_begin = http_begin env ops baseURL, r_send = http_send ops, r_check = http_check env cfg\<rparr>"

subsection \<open>collectParallelGroup and the step loop\<close>

fun http_collect_loop :: "string \<Rightarrow> string set \<Rightarrow> bool \<Rightarrow> Step list \<Rightarrow> Step list" where
  "http_collect_loop trigger members started [] = []"
| "http_collect_loop trigger members started (s # ss) =
     (let add = (st_ID s \<in> members \<and>
                 (st_ID s = trigger \<or> st_ParallelWith s = trigger \<or> st_ParallelWith s \<noteq> []));
          started' = (started \<or> add)
      in (if add then [s] else []) @
         (if started' \<and> st_ID s \<notin> members then [] else http_collect_loop trigger members started' ss))"

definition http_collectParallelGroup :: collector where
  "http_collectParallelGroup steps trigger members = http_collect_loop trigger members False steps"

definition http_executeStepsWithParallel where
  "http_executeStepsWithParallel env cfg ops baseURL sched steps m w =
     executeStepsWithParallel (http_runner env cfg ops baseURL) http_collectParallelGroup sched steps m w"

definition http_runTest where
  "http_runTest env cfg ops baseURL sched elapsed tc w =
     runTest (http_runner env cfg ops baseURL) http_collectParallelGroup sched MSetup elapsed tc w"

subsection \<open>The contracts\<close>

lemma http_collect_subset: "set (http_collect_loop trigger members started steps) \<subseteq> set steps"
  by (induction steps arbitrary: started) (auto simp: Let_def split: if_splits)

lemma http_runner_labelled:
  "step_runner (http_runner env cfg ops baseURL)"
  by unfold_locales
    (auto simp: http_runner_def http_begin_def http_send_def http_check_def labelled_def empty_result_def Let_def
      evaluate_labels split: if_splits option.splits prod.splits sum.splits)

interpretation http: scheduler "http_runner env cfg ops baseURL" http_collectParallelGroup
  for env :: go_env and cfg :: TimingConfig and ops :: "'w http_ops" and baseURL :: string
proof (rule scheduler.intro [OF http_runner_labelled], unfold_locales)
  show "st \<in> set (http_collectParallelGroup (st # rest) (st_ID st) members)" if "st_ID st \<in> members"
    for st rest members
    using that by (simp add: http_collectParallelGroup_def Let_def)
  show "set (http_collectParallelGroup steps trigger members) \<subseteq> set steps" for steps trigger members
    unfolding http_collectParallelGroup_def by (rule http_collect_subset)
qed

subsection \<open>Properties\<close>

text \<open>A group is separated from the next when only its first step has no \<open>parallel_with\<close>.\<close>

definition groups_separated :: "string set \<Rightarrow> Step list \<Rightarrow> bool" where
  "groups_separated members steps \<longleftrightarrow>
     successively (\<lambda>a b. st_ID a \<in> members \<and> st_ID b \<in> members \<longrightarrow> st_ParallelWith b \<noteq> []) steps"

lemma http_collect_started:
  "st_ID a \<in> members \<Longrightarrow> groups_separated members (a # steps) \<Longrightarrow>
   http_collect_loop trigger members True steps = takeWhile (\<lambda>s. st_ID s \<in> members) steps"
proof (induction steps arbitrary: a)
  case (Cons s steps)
  then show ?case
    by (cases "st_ID s \<in> members") (auto simp: groups_separated_def)
qed simp

lemma http_collect_separated:
  "st_ID st \<in> members \<Longrightarrow> groups_separated members (st # rest) \<Longrightarrow>
   http_collectParallelGroup (st # rest) (st_ID st) members = takeWhile (\<lambda>s. st_ID s \<in> members) (st # rest)"
  by (simp add: http_collectParallelGroup_def http_collect_started)

lemma groups_separated_suffix: "groups_separated members (xs @ ys) \<Longrightarrow> groups_separated members ys"
  by (auto simp: groups_separated_def successively_append_iff)

text \<open>C1. When the step ids are distinct and the parallel groups of a test are separated from each other,
  the HTTP runner executes every step exactly once and reports the results in the order of the
  test file, whatever the interleaving of the goroutines of each parallel group.\<close>

theorem http_steps_once_in_order:
  assumes "distinct (map st_ID steps)" "groups_separated (parallelGroups steps) steps"
  shows "map sr_StepID (fst (http_executeStepsWithParallel env cfg ops baseURL sched steps m w)) = map st_ID steps"
proof -
  obtain rs fs m' w' where l: "steps_loop (http_runner env cfg ops baseURL) http_collectParallelGroup sched
      (parallelGroups steps) {} steps m w = (rs, fs, m', w')"
    by (metis prod.exhaust)
  have c: "http_collectParallelGroup (st # rest) (st_ID st) (parallelGroups steps) =
      takeWhile (\<lambda>s. st_ID s \<in> parallelGroups steps) (st # rest)"
    if "steps = xs @ st # rest" "st_ID st \<in> parallelGroups steps" for xs st rest
    using that groups_separated_suffix [of "parallelGroups steps" xs "st # rest"] assms(2)
    by (intro http_collect_separated) auto
  from http.steps_loop_in_order [OF c assms(1) _ l] l show ?thesis
    by (simp add: http_executeStepsWithParallel_def executeStepsWithParallel_def)
qed

definition sample_step :: "string \<Rightarrow> string \<Rightarrow> Step" where
  "sample_step sid pw = \<lparr>st_ID = sid, st_Action = ''GET'', st_Intent = [], st_Path = ''/'', st_Headers = None,
     st_Body = None, st_DelayMs = 0, st_DurationMs = 0, st_Assertions = None, st_Description = [],
     st_ParallelWith = pw\<rparr>"

lemma sample_step_sel [simp]: "st_ID (sample_step sid pw) = sid" "st_ParallelWith (sample_step sid pw) = pw"
  by (simp_all add: sample_step_def)

text \<open>A server that answers 204; its world counts the requests.\<close>

definition sample_ops :: "nat http_ops" where
  "sample_ops = \<lparr>http_sleep = (\<lambda>d w. w), http_new = (\<lambda>m u. None),
     http_do = (\<lambda>r w. (Inr \<lparr>rs_StatusCode = 204, rs_Header = [], rs_Body = Inr []\<rparr>, 0, w + 1))\<rparr>"

theorem http_steps_once_in_order_witness:
  "map sr_StepID (fst (http_executeStepsWithParallel sample_env DefaultTimingConfig sample_ops ''http://h'' (\<lambda>_. [1, 0])
     [sample_step ''a'' [], sample_step ''b'' ''a'', sample_step ''c'' ''a'', sample_step ''d'' []] Map.empty 0))
   = [''a'', ''b'', ''c'', ''d'']"
  by (subst http_steps_once_in_order) (simp_all add: groups_separated_def parallelGroups_def)

theorem http_every_step_has_result:
  "sr_StepID ` set (fst (http_executeStepsWithParallel env cfg ops baseURL sched steps m w)) = st_ID ` set steps"
proof -
  obtain rs fs m' w' where l: "steps_loop (http_runner env cfg ops baseURL) http_collectParallelGroup sched
      (parallelGroups steps) {} steps m w = (rs, fs, m', w')"
    by (metis prod.exhaust)
  from http.steps_loop_covers [OF l] l show ?thesis
    by (auto simp: http_executeStepsWithParallel_def executeStepsWithParallel_def)
qed

text \<open>Two parallel groups one after the other: the second group's follower is executed twice.\<close>

theorem http_follower_runs_twice:
  assumes "distinct [st_ID a, st_ID b, st_ID c, st_ID d]" "st_ID a \<noteq> []" "st_ID c \<noteq> []"
    "st_ParallelWith a = []" "st_ParallelWith b = st_ID a" "st_ParallelWith c = []" "st_ParallelWith d = st_ID c"
  shows "map sr_StepID (fst (http_executeStepsWithParallel env cfg ops baseURL sched [a, b, c, d] m w)) =
    [st_ID a, st_ID b, st_ID d, st_ID c, st_ID d]"
proof -
  let ?R = "http_runner env cfg ops baseURL"
  let ?ms = "{st_ID a, st_ID b, st_ID c, st_ID d}"
  have ms: "parallelGroups [a, b, c, d] = ?ms" using assms by (auto simp: parallelGroups_def)
  have c1: "http_collectParallelGroup [a, b, c, d] (st_ID a) ?ms = [a, b, d]"
    and c2: "http_collectParallelGroup [c, d] (st_ID c) ?ms = [c, d]"
    using assms by (auto simp: http_collectParallelGroup_def)
  obtain outs1 m1 w1 where g1: "runGroup ?R [a, b, d] (sched 3) m w = (outs1, m1, w1)"
    by (metis prod.exhaust)
  obtain outs2 m2 w2 where g2: "runGroup ?R [c, d] (sched 1) m1 w1 = (outs2, m2, w2)"
    by (metis prod.exhaust)
  have "fst (steps_loop ?R http_collectParallelGroup sched ?ms {} [a, b, c, d] m w) = map fst outs1 @ map fst outs2"
    using assms by (auto simp: c1 c2 g1 g2 [simplified] numeral_3_eq_3 [symmetric])
  then show ?thesis
    using http.runGroup_ids [OF g1] http.runGroup_ids [OF g2]
    by (simp add: http_executeStepsWithParallel_def executeStepsWithParallel_def ms)
qed

theorem http_follower_runs_twice_witness:
  "map sr_StepID (fst (http_executeStepsWithParallel sample_env DefaultTimingConfig sample_ops ''http://h'' (\<lambda>_. [])
     [sample_step ''a'' [], sample_step ''b'' ''a'', sample_step ''c'' [], sample_step ''d'' ''c''] Map.empty 0))
   = [''a'', ''b'', ''d'', ''c'', ''d'']"
  by (subst http_follower_runs_twice) simp_all

text \<open>Of sequential steps with the same id, also an absent id, only the first is executed.\<close>

lemma parallelGroups_none: "list_all (\<lambda>st. st_ParallelWith st = []) steps \<Longrightarrow> parallelGroups steps = {}"
  by (auto simp: parallelGroups_def list_all_iff)

theorem http_repeated_ids_skipped:
  assumes "list_all (\<lambda>st. st_ParallelWith st = []) steps"
  shows "map sr_StepID (fst (http_executeStepsWithParallel env cfg ops baseURL sched steps m w)) =
     first_occurrences {} (map st_ID steps)"
  unfolding http_executeStepsWithParallel_def executeStepsWithParallel_def parallelGroups_none [OF assms]
  by (rule http.steps_loop_first_occurrences)

theorem http_repeated_ids_skipped_witness:
  "map sr_StepID (fst (http_executeStepsWithParallel sample_env DefaultTimingConfig sample_ops ''http://h'' (\<lambda>_. [])
     [sample_step [] [], sample_step [] [], sample_step [] []] Map.empty 0)) = [[]]"
  by (subst http_repeated_ids_skipped) simp_all

text \<open>
  Steps executed one after the other, whatever they report: each reads the results of the earlier ones and
  adds its own. \<open>reported\<close> are the failures of the next step in such a state.
\<close>

definition step_after ::
    "('req, 'm, 'w) runner \<Rightarrow> Step \<Rightarrow> results \<times> 'w \<Rightarrow> results \<times> 'w" where
  "step_after R st c = (let ((sr, fs), w1) = executeStep R st (fst c) (snd c) in ((fst c)(st_ID st \<mapsto> sr), w1))"

definition steps_after ::
    "('req, 'm, 'w) runner \<Rightarrow> Step list \<Rightarrow> results \<times> 'w \<Rightarrow> results \<times> 'w" where
  "steps_after R sts c = fold (step_after R) sts c"

definition reported :: "('req, 'm, 'w) runner \<Rightarrow> Step \<Rightarrow> results \<times> 'w \<Rightarrow> 'm Failure list" where
  "reported R st c = snd (fst (executeStep R st (fst c) (snd c)))"

lemma setup_loop_failing:
  assumes "\<And>i. i < length ok \<Longrightarrow> reported R (ok ! i) (steps_after R (take i ok) c) = []"
    "reported R st (steps_after R ok c) = f # fs"
  shows "setup_loop R (ok @ st # rest) (fst c) (snd c) =
    (Some (st_ID st, f_Message f), steps_after R (ok @ [st]) c)"
  using assms
proof (induction ok arbitrary: c)
  case Nil
  then show ?case by (auto simp: reported_def steps_after_def step_after_def Let_def split: prod.splits)
next
  case (Cons q ok)
  have "reported R (ok ! i) (steps_after R (take i ok) (step_after R q c)) = []" if "i < length ok" for i
    using Cons.prems(1) [of "Suc i"] that by (simp add: steps_after_def)
  moreover have "reported R st (steps_after R ok (step_after R q c)) = f # fs"
    using Cons.prems(2) by (simp add: steps_after_def)
  ultimately have "setup_loop R (ok @ st # rest) (fst (step_after R q c)) (snd (step_after R q c)) =
      (Some (st_ID st, f_Message f), steps_after R (ok @ [st]) (step_after R q c))"
    by (rule Cons.IH)
  moreover have "reported R q c = []" using Cons.prems(1) [of 0] by (simp add: steps_after_def)
  ultimately show ?case
    by (auto simp: reported_def steps_after_def step_after_def Let_def split: prod.splits)
qed

text \<open>C7. When the first setup steps, executed one after the other, report no failure and the next one
  does, this ends the test, whatever setup steps follow: the status is error, the only failure
  names that setup step and carries the message of its first failure, no step result is reported,
  and the world is the one that this step left, so that no further setup step, no test step and no
  teardown step touches the server.\<close>

theorem http_setup_failure:
  assumes "tc_Setup tc = Some (ok @ st # rest)"
    "\<And>i. i < length ok \<Longrightarrow>
       reported (http_runner env cfg ops baseURL) (ok ! i)
         (steps_after (http_runner env cfg ops baseURL) (take i ok) (Map.empty, w)) = []"
    "reported (http_runner env cfg ops baseURL) st
       (steps_after (http_runner env cfg ops baseURL) ok (Map.empty, w)) = f # fs"
  shows "let (tr, w') = http_runTest env cfg ops baseURL sched elapsed tc w in
     tr_Status tr = ''error'' \<and> tr_StepResults tr = []
     \<and> tr_Failures tr = [failure (st_ID st) [] [] [] (MSetup (f_Message f))]
     \<and> w' = snd (steps_after (http_runner env cfg ops baseURL) (ok @ [st]) (Map.empty, w))"
proof -
  let ?R = "http_runner env cfg ops baseURL"
  obtain m1 w1 where "steps_after ?R (ok @ [st]) (Map.empty, w) = (m1, w1)" by (metis prod.exhaust)
  with setup_loop_failing [OF assms(2,3), of rest] show ?thesis
    by (simp add: http_runTest_def runTest_def new_result_def option_list_def assms(1))
qed

text \<open>A server that refuses every connection.\<close>

definition down_ops :: "nat http_ops" where
  "down_ops = \<lparr>http_sleep = (\<lambda>d w. w), http_new = (\<lambda>m u. None), http_do = (\<lambda>r w. (Inl ''refused'', 0, w + 1))\<rparr>"

text \<open>A server that answers one request and is down afterwards.\<close>

definition flaky_ops :: "nat http_ops" where
  "flaky_ops = \<lparr>http_sleep = (\<lambda>d w. w), http_new = (\<lambda>m u. None),
     http_do = (\<lambda>r w. (if w = 0 then Inr \<lparr>rs_StatusCode = 204, rs_Header = [], rs_Body = Inr []\<rparr> else Inl ''refused'', 0, w + 1))\<rparr>"

text \<open>The second of three setup steps fails: two requests are sent, none of the third, the test or the teardown.\<close>

theorem http_setup_failure_witness:
  "let (tr, w') = http_runTest sample_env DefaultTimingConfig flaky_ops ''http://h'' (\<lambda>_. []) (\<lambda>w. 0)
      ((sample_case None)\<lparr>tc_Setup := Some [sample_step ''one'' [], sample_step ''two'' [], sample_step ''three'' []],
         tc_Steps := [sample_step ''a'' []], tc_Teardown := Some [sample_step ''clean'' []]\<rparr>) 0
   in tr_Status tr = ''error'' \<and> tr_StepResults tr = []
      \<and> tr_Failures tr = [failure ''two'' [] [] [] (MSetup (MRequest ''refused''))] \<and> w' = 2"
proof -
  let ?tc = "(sample_case None)\<lparr>tc_Setup := Some ([sample_step ''one'' []] @ sample_step ''two'' [] # [sample_step ''three'' []]),
         tc_Steps := [sample_step ''a'' []], tc_Teardown := Some [sample_step ''clean'' []]\<rparr>"
  let ?R = "http_runner sample_env DefaultTimingConfig flaky_ops ''http://h''"
  note run = reported_def steps_after_def step_after_def executeStep_def http_runner_def http_begin_def http_send_def
    http_check_def step_delay_def is_wait_def flaky_ops_def sample_step_def equalFoldASCII_def lower_char_def Let_def
  have "reported ?R (sample_step ''two'' []) (steps_after ?R [sample_step ''one'' []] (Map.empty, 0))
      = [failure ''two'' [] [] [] (MRequest ''refused'')]"
    "reported ?R ([sample_step ''one'' []] ! i) (steps_after ?R (take i [sample_step ''one'' []]) (Map.empty, 0)) = []"
      if "i < length [sample_step ''one'' []]" for i
    using that by (simp_all add: run)
  moreover have "snd (steps_after ?R [sample_step ''one'' [], sample_step ''two'' []] (Map.empty, 0)) = 2"
    by (simp add: run)
  ultimately show ?thesis
    using http_setup_failure [of ?tc "[sample_step ''one'' []]" "sample_step ''two'' []" "[sample_step ''three'' []]"
        sample_env DefaultTimingConfig flaky_ops "''http://h''" 0 "failure ''two'' [] [] [] (MRequest ''refused'')" "[]"]
    by (simp add: failure_def)
qed

text \<open>Otherwise the status is the one the failures of the test steps give, teardown or not.\<close>

text \<open>C6. When the setup of a test succeeds, its status is pass exactly if no test step reported a
  failure, whatever the teardown steps report; its results are those of the step loop and cover
  exactly the ids of its steps, and every failure names a step that has a result.\<close>

theorem http_status_from_failures:
  assumes "setup_loop (http_runner env cfg ops baseURL) (option_list (tc_Setup tc)) Map.empty w = (None, m1, w1)"
  shows "let tr = fst (http_runTest env cfg ops baseURL sched elapsed tc w) in
     tr_Status tr = (if tr_Failures tr = [] then ''pass'' else ''fail'')
   \<and> (tr_StepResults tr, tr_Failures tr) =
       (let (rs, fs, _) = http_executeStepsWithParallel env cfg ops baseURL sched (tc_Steps tc) m1 w1 in (rs, fs))
   \<and> f_StepID ` set (tr_Failures tr) \<subseteq> sr_StepID ` set (tr_StepResults tr)
   \<and> sr_StepID ` set (tr_StepResults tr) = st_ID ` set (tc_Steps tc)"
proof -
  let ?R = "http_runner env cfg ops baseURL"
  obtain rs fs m2 w2 where st: "executeStepsWithParallel ?R http_collectParallelGroup sched (tc_Steps tc) m1 w1
      = (rs, fs, m2, w2)" by (metis prod_cases4)
  then have l: "steps_loop ?R http_collectParallelGroup sched (parallelGroups (tc_Steps tc)) {} (tc_Steps tc) m1 w1
      = (rs, fs, m2, w2)" by (simp add: executeStepsWithParallel_def)
  show ?thesis
    using assms st http.steps_loop_failures [OF l] http.steps_loop_covers [OF l]
    by (auto simp: http_runTest_def runTest_def http_executeStepsWithParallel_def split: prod.splits)
qed

text \<open>A test with a step that cannot connect.\<close>

theorem http_status_from_failures_witness:
  "let tr = fst (http_runTest sample_env DefaultTimingConfig down_ops ''http://h'' (\<lambda>_. []) (\<lambda>w. 0)
       ((sample_case None)\<lparr>tc_Steps := [sample_step ''a'' []]\<rparr>) 0)
   in tr_Status tr = ''fail'' \<and> map f_StepID (tr_Failures tr) = [''a'']"
proof -
  let ?tc = "(sample_case None)\<lparr>tc_Steps := [sample_step ''a'' []]\<rparr>"
  have s: "setup_loop (http_runner sample_env DefaultTimingConfig down_ops ''http://h'') (option_list (tc_Setup ?tc)) Map.empty 0
      = (None, Map.empty, 0)" by (simp add: sample_case_def option_list_def)
  have "http_executeStepsWithParallel sample_env DefaultTimingConfig down_ops ''http://h'' (\<lambda>_. []) [sample_step ''a'' []] Map.empty 0
      = ([empty_result ''a''], [failure ''a'' [] [] [] (MRequest ''refused'')], [''a'' \<mapsto> empty_result ''a''], 1)"
    by (simp add: http_executeStepsWithParallel_def executeStepsWithParallel_def parallelGroups_def
        executeStep_def http_runner_def http_begin_def http_send_def step_delay_def is_wait_def
        down_ops_def sample_step_def equalFoldASCII_def lower_char_def)
  then show ?thesis
    using http_status_from_failures [OF s, of "\<lambda>_. []" "\<lambda>w. 0"] by (simp add: Let_def)
qed

end
