(* ===== verification/GrpcRunner.thy ===== *)
theory GrpcRunner
  imports HttpRunner GrpcEval
begin

text \<open>
  The gRPC runner: the route and status tables of runner/grpc/adapter.go, and \<open>executeStep\<close> and
  \<open>collectParallelGroup\<close> of runner/grpc/runner.go on the client of \<open>GrpcClient\<close>. The service, the sleep and the clock
  are parameters.
\<close>

subsection \<open>Status codes\<close>

fun GRPCCodeToHTTPStatus :: "grpc_code \<Rightarrow> int" where
  "GRPCCodeToHTTPStatus OK = 200"
| "GRPCCodeToHTTPStatus InvalidArgument = 400"
| "GRPCCodeToHTTPStatus Unauthenticated = 401"
| "GRPCCodeToHTTPStatus PermissionDenied = 403"
| "GRPCCodeToHTTPStatus NotFound = 404"
| "GRPCCodeToHTTPStatus AlreadyExists = 409"
| "GRPCCodeToHTTPStatus FailedPrecondition = 412"
| "GRPCCodeToHTTPStatus ResourceExhausted = 429"
| "GRPCCodeToHTTPStatus Internal = 500"
| "GRPCCodeToHTTPStatus Unimplemented = 501"
| "GRPCCodeToHTTPStatus Unavailable = 503"
| "GRPCCodeToHTTPStatus DeadlineExceeded = 504"
| "GRPCCodeToHTTPStatus _ = 500"

subsection \<open>Routes\<close>

record RouteMapping =
  HTTPAction :: string
  PathPrefix :: string
  RPCMethod :: string
  Exact :: bool

definition exact_route :: "string \<Rightarrow> string \<Rightarrow> string \<Rightarrow> RouteMapping" where
  "exact_route a p r = \<lparr>HTTPAction = a, PathPrefix = p, RPCMethod = r, Exact = True\<rparr>"

definition prefix_route :: "string \<Rightarrow> string \<Rightarrow> string \<Rightarrow> RouteMapping" where
  "prefix_route a p r = \<lparr>HTTPAction = a, PathPrefix = p, RPCMethod = r, Exact = False\<rparr>"

definition routeTable :: "RouteMapping list" where
  "routeTable =
     [exact_route ''GET'' ''/ojs/manifest'' ''Manifest'',
      exact_route ''GET'' ''/ojs/v1/health'' ''Health'',
      exact_route ''POST'' ''/ojs/v1/jobs/batch'' ''EnqueueBatch'',
      exact_route ''POST'' ''/ojs/v1/jobs'' ''Enqueue'',
      prefix_route ''GET'' ''/ojs/v1/jobs/'' ''GetJob'',
      prefix_route ''DELETE'' ''/ojs/v1/jobs/'' ''CancelJob'',
      exact_route ''POST'' ''/ojs/v1/workers/fetch'' ''Fetch'',
      exact_route ''POST'' ''/ojs/v1/workers/ack'' ''Ack'',
      exact_route ''POST'' ''/ojs/v1/workers/nack'' ''Nack'',
      exact_route ''POST'' ''/ojs/v1/workers/heartbeat'' ''Heartbeat'',
      exact_route ''GET'' ''/ojs/v1/queues'' ''ListQueues'',
      prefix_route ''GET'' ''/ojs/v1/queues/'' ''QueueStats'',
      prefix_route ''POST'' ''/ojs/v1/queues/'' ''PauseOrResumeQueue'',
      exact_route ''GET'' ''/ojs/v1/dead-letter'' ''ListDeadLetter'',
      prefix_route ''POST'' ''/ojs/v1/dead-letter/'' ''RetryDeadLetter'',
      prefix_route ''DELETE'' ''/ojs/v1/dead-letter/'' ''DeleteDeadLetter'',
      exact_route ''GET'' ''/ojs/v1/cron'' ''ListCron'',
      exact_route ''POST'' ''/ojs/v1/cron'' ''RegisterCron'',
      prefix_route ''DELETE'' ''/ojs/v1/cron/'' ''UnregisterCron'',
      exact_route ''POST'' ''/ojs/v1/workflows'' ''CreateWorkflow'',
      prefix_route ''GET'' ''/ojs/v1/workflows/'' ''GetWorkflow'',
      prefix_route ''DELETE'' ''/ojs/v1/workflows/'' ''CancelWorkflow'',
      prefix_route ''PUT'' ''/ojs/v1/jobs/'' ''SaveCheckpoint'',
      prefix_route ''GET'' ''/ojs/v1/jobs/'' ''GetCheckpointOrJob'',
      prefix_route ''DELETE'' ''/ojs/v1/jobs/'' ''DeleteCheckpointOrCancel'']"

definition ResolveRoute :: "string \<Rightarrow> string \<Rightarrow> string" where
  "ResolveRoute action path =
     (case find (\<lambda>r. Exact r \<and> HTTPAction r = action \<and> PathPrefix r = path) routeTable of
        Some r \<Rightarrow> RPCMethod r
      | None \<Rightarrow>
          (case find (\<lambda>r. \<not> Exact r \<and> HTTPAction r = action \<and> hasPrefix path (PathPrefix r)) routeTable of
             Some r \<Rightarrow> RPCMethod r
           | None \<Rightarrow> []))"

text \<open>The queue and checkpoint disambiguation that \<open>executeStep\<close> does after a route is found.\<close>

definition disambiguate :: "string \<Rightarrow> string \<Rightarrow> string" where
  "disambiguate method path =
     (let m1 = (if method = ''PauseOrResumeQueue'' then
                  (if hasSuffix path ''/pause'' then ''PauseQueue''
                   else if hasSuffix path ''/resume'' then ''ResumeQueue'' else method)
                else method);
          m2 = (if m1 = ''SaveCheckpoint'' \<and> \<not> hasSuffix path ''/checkpoint'' then [] else m1);
          m3 = (if m2 = ''GetCheckpointOrJob'' then
                  (if hasSuffix path ''/checkpoint'' then ''GetCheckpoint'' else ''GetJob'') else m2)
      in if m3 = ''DeleteCheckpointOrCancel'' then
           (if hasSuffix path ''/checkpoint'' then ''DeleteCheckpoint'' else ''CancelJob'') else m3)"

definition RPCCreatesResource :: "string \<Rightarrow> bool" where
  "RPCCreatesResource method \<longleftrightarrow>
     method \<in> set [''Enqueue'', ''EnqueueBatch'', ''RegisterCron'', ''CreateWorkflow'']"

subsection \<open>executeStep\<close>

text \<open>The clock counts nanoseconds.\<close>

record 'w grpc_ops =
  grpc_sleep :: "int \<Rightarrow> 'w \<Rightarrow> 'w"
  grpc_now :: "'w \<Rightarrow> int"
  grpc_pb :: pb_env
  grpc_client :: "'w OJSServiceClient"

record grpc_request =
  gq_Method :: string
  gq_Path :: string
  gq_Body :: "(string \<times> any) list option"

definition grpc_begin ::
    "go_env \<Rightarrow> 'w grpc_ops \<Rightarrow> Step \<Rightarrow> results \<Rightarrow> 'w \<Rightarrow> (grpc_msg outcome + grpc_request) \<times> 'w" where
  "grpc_begin env ops st m w =
     (let w1 = step_delay (grpc_sleep ops) st w in
      if is_wait st then (Inl (empty_result (st_ID st), []), wait_delay (grpc_sleep ops) st w1)
      else
        let path = grpc_resolveTemplates env m (st_Path st);
            body = (case st_Body st of
                      None \<Rightarrow> None
                    | Some b \<Rightarrow> unmarshal_obj (grpc_resolveTemplates env m (raw_text b)));
            method = ResolveRoute (st_Action st) path
        in if method = []
           then (Inl (empty_result (st_ID st), [failure (st_ID st) [] [] [] (MNoMethod (st_Action st) path)]), w1)
           else (Inr \<lparr>gq_Method = disambiguate method path, gq_Path = path, gq_Body = body\<rparr>, w1))"

definition grpc_send ::
    "'w grpc_ops \<Rightarrow> Step \<Rightarrow> grpc_request \<Rightarrow> 'w \<Rightarrow> (grpc_msg outcome + StepResult) \<times> 'w" where
  "grpc_send ops st req w =
     (case CallRPC (grpc_pb ops) (grpc_client ops) (gq_Method req) (gq_Path req) (gq_Body req) w of
        (Inl err, w1) \<Rightarrow>
          (Inl (empty_result (st_ID st), [failure (st_ID st) [] [] [] (MRequest err)]), w1)
      | (Inr r, w1) \<Rightarrow>
          (let httpStatus =
             (if 0 < rr_HTTPStatusOverride r \<and> rr_GRPCCode r = OK then rr_HTTPStatusOverride r
              else GRPCCodeToHTTPStatus (rr_GRPCCode r))
           in (Inr \<lparr>sr_StepID = st_ID st, sr_StatusCode = httpStatus, sr_Headers = None,
                    sr_Body = (if rr_ResponseJSON r = [] then None else Some (rr_ResponseJSON r)), sr_DurationMs = Milliseconds (grpc_now ops w1 - grpc_now ops w),
                    sr_Parsed = (if rr_ResponseJSON r \<noteq> [] then unmarshal_obj (rr_ResponseJSON r) else None)\<rparr>, w1)))"

definition grpc_check :: "go_env \<Rightarrow> TimingConfig \<Rightarrow> Step \<Rightarrow> StepResult \<Rightarrow> results \<Rightarrow> grpc_msg Failure list" where
  "grpc_check env cfg st sr m =
     (case st_Assertions st of
        None \<Rightarrow> []
      | Some a \<Rightarrow> grpc_evaluateAssertions env cfg (st_ID st) a sr m)"

definition grpc_runner :: "go_env \<Rightarrow> TimingConfig \<Rightarrow> 'w grpc_ops \<Rightarrow> (grpc_request, grpc_msg, 'w) runner" where
  "grpc_runner env cfg ops =
     \<lparr>r_begin = grpc_begin env ops, r_send = grpc_send ops, r_check = grpc_check env cfg\<rparr>"

subsection \<open>collectParallelGroup and the step loop\<close>

fun grpc_collect_loop :: "string \<Rightarrow> string set \<Rightarrow> Step list \<Rightarrow> Step list" where
  "grpc_collect_loop trigger members [] = []"
| "grpc_collect_loop trigger members (s # ss) =
     (if st_ID s \<in> members then [s] else []) @
     (if st_ParallelWith s = trigger \<or> st_ID s = trigger then grpc_collect_loop trigger members ss
      else if st_ID s \<notin> members then [] else grpc_collect_loop trigger members ss)"

definition grpc_collectParallelGroup :: collector where
  "grpc_collectParallelGroup steps trigger members = grpc_collect_loop trigger members steps"

definition grpc_executeStepsWithParallel where
  "grpc_executeStepsWithParallel env cfg ops sched steps m w =
     executeStepsWithParallel (grpc_runner env cfg ops) grpc_collectParallelGroup sched steps m w"

definition grpc_runTest where
  "grpc_runTest env cfg ops sched elapsed tc w =
     runTest (grpc_runner env cfg ops) grpc_collectParallelGroup sched MSetup elapsed tc w"

subsection \<open>The contracts\<close>

lemma grpc_collect_subset: "set (grpc_collect_loop trigger members steps) \<subseteq> set steps"
  by (induction steps) (auto split: if_splits)

lemma grpc_runner_labelled: "step_runner (grpc_runner env cfg ops)"
  by unfold_locales
    (auto simp: grpc_runner_def grpc_begin_def grpc_send_def grpc_check_def labelled_def empty_result_def Let_def grpc_evaluate_labels
      split: if_splits option.splits prod.splits sum.splits)

interpretation grpc: scheduler "grpc_runner env cfg ops" grpc_collectParallelGroup
  for env :: go_env and cfg :: TimingConfig and ops :: "'w grpc_ops"
proof (rule scheduler.intro [OF grpc_runner_labelled], unfold_locales)
  show "st \<in> set (grpc_collectParallelGroup (st # rest) (st_ID st) members)" if "st_ID st \<in> members"
    for st rest members
    using that by (simp add: grpc_collectParallelGroup_def)
  show "set (grpc_collectParallelGroup steps trigger members) \<subseteq> set steps" for steps trigger members
    unfolding grpc_collectParallelGroup_def by (rule grpc_collect_subset)
qed

subsection \<open>Properties\<close>

theorem grpc_status_round_trip:
  "HTTPStatusToGRPCCode (GRPCCodeToHTTPStatus c) =
     (case c of Canceled \<Rightarrow> Internal | UnknownCode \<Rightarrow> Internal | Aborted \<Rightarrow> Internal
      | OutOfRange \<Rightarrow> Internal | DataLoss \<Rightarrow> Internal | OtherCode n \<Rightarrow> Internal | _ \<Rightarrow> c)"
  by (cases c) (simp_all add: HTTPStatusToGRPCCode_def httpStatusToGRPCCode_def)

lemmas route_defs = ResolveRoute_def routeTable_def exact_route_def prefix_route_def

lemma resolve_job_paths:
  "ResolveRoute ''GET'' (''/ojs/v1/jobs/'' @ rest) = ''GetJob''"
  "ResolveRoute ''DELETE'' (''/ojs/v1/jobs/'' @ rest) = ''CancelJob''"
  by (simp_all add: route_defs hasPrefix_def)

theorem checkpoint_routes_shadowed:
  "ResolveRoute action path \<noteq> ''GetCheckpointOrJob'' \<and> ResolveRoute action path \<noteq> ''DeleteCheckpointOrCancel''"
  by (simp add: route_defs split: if_splits)

lemma extract_id: "CHR ''/'' \<notin> set jid \<Longrightarrow>
    extractIDFromPath (''/ojs/v1/jobs/'' @ jid @ ''/checkpoint'') ''/ojs/v1/jobs/'' = jid"
  by (auto simp: extractIDFromPath_def trimPrefix_def hasPrefix_def takeWhile_append)

text \<open>C40. The checkpoint endpoints of a job are not routed to checkpoint calls: a GET of a checkpoint
  reads the job, a DELETE of a checkpoint cancels the job itself, and a PUT resolves to a method
  the client does not support.\<close>

theorem checkpoint_paths_reach_jobs:
  assumes "CHR ''/'' \<notin> set jid" "path = ''/ojs/v1/jobs/'' @ jid @ ''/checkpoint''"
  shows "disambiguate (ResolveRoute ''GET'' path) path = ''GetJob''
    \<and> disambiguate (ResolveRoute ''DELETE'' path) path = ''CancelJob''
    \<and> extractIDFromPath path ''/ojs/v1/jobs/'' = jid
    \<and> disambiguate (ResolveRoute ''PUT'' path) path \<notin> set supported_methods"
proof -
  have "ResolveRoute ''PUT'' path = ''SaveCheckpoint''"
    by (simp add: assms(2) route_defs hasPrefix_def)
  moreover have "hasSuffix path ''/checkpoint''" by (simp add: assms(2) hasSuffix_def)
  ultimately show ?thesis
    using extract_id [OF assms(1)] assms(2) resolve_job_paths [of "jid @ ''/checkpoint''"]
    by (simp add: disambiguate_def supported_methods_def)
qed

theorem checkpoint_paths_reach_jobs_witness:
  "disambiguate (ResolveRoute ''DELETE'' ''/ojs/v1/jobs/j1/checkpoint'') ''/ojs/v1/jobs/j1/checkpoint'' = ''CancelJob''"
  using checkpoint_paths_reach_jobs [of "''j1''" "''/ojs/v1/jobs/j1/checkpoint''"] by simp

lemma grpc_collect_run:
  assumes "trigger \<noteq> []" "trigger \<in> members" "\<And>s. s \<in> set steps \<Longrightarrow> st_ParallelWith s \<noteq> [] \<Longrightarrow> st_ID s \<in> members"
  shows "grpc_collect_loop trigger members steps = takeWhile (\<lambda>s. st_ID s \<in> members) steps"
  using assms(3)
proof (induction steps)
  case (Cons s ss)
  have "st_ParallelWith s = trigger \<or> st_ID s = trigger \<Longrightarrow> st_ID s \<in> members"
    using Cons.prems [of s] assms(1,2) by auto
  then show ?case using Cons by auto
qed simp

lemma parallelGroups_member: "s \<in> set steps \<Longrightarrow> st_ParallelWith s \<noteq> [] \<Longrightarrow> st_ID s \<in> parallelGroups steps"
  by (auto simp: parallelGroups_def)

text \<open>C5. When the step ids are distinct and not empty the gRPC runner executes every step exactly once
  and reports the results in the order of the test file, with no condition on the parallel groups.\<close>

theorem grpc_steps_once_in_order:
  assumes "distinct (map st_ID steps)" "[] \<notin> st_ID ` set steps"
  shows "map sr_StepID (fst (grpc_executeStepsWithParallel env cfg ops sched steps m w)) = map st_ID steps"
proof -
  obtain rs fs m' w' where l: "steps_loop (grpc_runner env cfg ops) grpc_collectParallelGroup sched
      (parallelGroups steps) {} steps m w = (rs, fs, m', w')"
    by (metis prod.exhaust)
  have c: "grpc_collectParallelGroup (st # rest) (st_ID st) (parallelGroups steps) =
      takeWhile (\<lambda>s. st_ID s \<in> parallelGroups steps) (st # rest)"
    if "steps = xs @ st # rest" "st_ID st \<in> parallelGroups steps" for xs st rest
    unfolding grpc_collectParallelGroup_def
  proof (rule grpc_collect_run)
    show "st_ID st \<noteq> []" using that(1) assms(2) by auto
  qed (use that in \<open>auto intro: parallelGroups_member\<close>)
  from grpc.steps_loop_in_order [OF c assms(1) _ l] l show ?thesis
    by (simp add: grpc_executeStepsWithParallel_def executeStepsWithParallel_def)
qed

text \<open>A service that accepts every call, for the witnesses: its world counts the calls.\<close>

definition sample_pb :: pb_env where
  "sample_pb = \<lparr>pb_NewValue = Some, pb_NewStruct = Some, pb_JobStates = [''JOB_STATE_ACTIVE''], pb_CodeName = \<lambda>c. ''code'',
     pb_oob64 = \<lambda>x. 0, pb_oob32 = \<lambda>x. 0\<rparr>"

definition sample_client :: "nat OJSServiceClient" where
  "sample_client = \<lparr>pc_Enqueue = \<lambda>r w. (Inr None, Suc w), pc_EnqueueBatch = \<lambda>r w. (Inr ([], ANil), Suc w), pc_GetJob = \<lambda>r w. (Inr None, Suc w),
      pc_CancelJob = \<lambda>r r1 w. (Inr None, Suc w), pc_Fetch = \<lambda>r w. (Inr [], Suc w), pc_Ack = \<lambda>r w. (Inr True, Suc w),
      pc_Nack = \<lambda>r w. (Inr ([], None), Suc w), pc_Heartbeat = \<lambda>r w. (Inr ([], None), Suc w),
      pc_ListQueues = \<lambda>w. (Inr [], Suc w), pc_QueueStats = \<lambda>r w. (Inr ([], None), Suc w),
      pc_PauseQueue = \<lambda>r w. (Inr (), Suc w), pc_ResumeQueue = \<lambda>r w. (Inr (), Suc w),
      pc_ListDeadLetter = \<lambda>r w. (Inr ([], ANil), Suc w), pc_RetryDeadLetter = \<lambda>r w. (Inr None, Suc w),
      pc_DeleteDeadLetter = \<lambda>r w. (Inr (), Suc w), pc_RegisterCron = \<lambda>r w. (Inr ([], None), Suc w),
      pc_UnregisterCron = \<lambda>r w. (Inr (), Suc w), pc_ListCron = \<lambda>w. (Inr [], Suc w),
      pc_CreateWorkflow = \<lambda>r w. (Inr None, Suc w), pc_GetWorkflow = \<lambda>r w. (Inr None, Suc w),
      pc_CancelWorkflow = \<lambda>r w. (Inr None, Suc w), pc_Health = \<lambda>w. (Inr ([], None), Suc w),
      pc_Manifest = \<lambda>w. (Inr \<lparr>mf_OjsVersion = [], mf_ConformanceLevel = ANil, mf_Protocols = ANil, mf_Backend = ANil,
        mf_SchemaValidation = ANil, mf_Implementation = None, mf_Extensions = None\<rparr>, Suc w)\<rparr>"

definition sample_grpc :: "nat grpc_ops" where
  "sample_grpc = \<lparr>grpc_sleep = (\<lambda>d w. w), grpc_now = int, grpc_pb = sample_pb, grpc_client = sample_client\<rparr>"

theorem grpc_steps_once_in_order_witness:
  "map sr_StepID (fst (grpc_executeStepsWithParallel sample_env DefaultTimingConfig sample_grpc (\<lambda>_. [2, 0, 1])
     [sample_step ''a'' [], sample_step ''b'' ''a'', sample_step ''c'' [], sample_step ''d'' ''c''] Map.empty 0))
   = [''a'', ''b'', ''c'', ''d'']"
  by (subst grpc_steps_once_in_order) simp_all

end
