(* ===== verification/Report.thy ===== *)
theory Report
  imports Schema Go_Time
begin

text \<open>
  The conformance report: \<open>ResultsSummary\<close>, \<open>LevelSummary\<close> and \<open>SuiteReport\<close> of lib/schema.go
  and the two \<open>buildReport\<close> functions, runner/http/runner.go and runner/grpc/runner.go. What they
  take from their surroundings, the clock and the schema version, commit and environment that
  functions of package lib give which the repository does not contain, is an argument.
\<close>

record LevelSummary =
  ls_Total :: int
  ls_Passed :: int
  ls_Failed :: int
  ls_Skipped :: int
  ls_Errored :: int
  ls_AllPass :: bool

definition zero_level :: LevelSummary where
  "zero_level = \<lparr>ls_Total = 0, ls_Passed = 0, ls_Failed = 0, ls_Skipped = 0, ls_Errored = 0, ls_AllPass = False\<rparr>"

record ResultsSummary =
  rs_Total :: int
  rs_Passed :: int
  rs_Failed :: int
  rs_Skipped :: int
  rs_Errored :: int
  rs_ByLevel :: "int \<Rightarrow> LevelSummary option"

definition zero_summary :: "int \<Rightarrow> ResultsSummary" where
  "zero_summary n = \<lparr>rs_Total = n, rs_Passed = 0, rs_Failed = 0, rs_Skipped = 0, rs_Errored = 0, rs_ByLevel = Map.empty\<rparr>"

record provenance =
  pv_Now :: go_time
  pv_SchemaVersion :: string
  pv_Commit :: "CommitInfo option"
  pv_Environment :: "EnvironmentInfo option"

record 'm SuiteReport =
  rp_TestSuiteVersion :: string
  rp_Target :: string
  rp_RunAt :: string
  rp_DurationMs :: int
  rp_RequestedLevel :: int
  rp_Results :: ResultsSummary
  rp_Conformant :: bool
  rp_ConformantLevel :: int
  rp_Failures :: "'m TestResult list"
  rp_Skipped :: "'m TestResult list"
  rp_ReportSchemaVersion :: string
  rp_Commit :: "CommitInfo option"
  rp_Environment :: "EnvironmentInfo option"
  rp_Backend :: "BackendInfo option"
  rp_Submitter :: "SubmitterInfo option"

definition suiteVersion :: string where
  "suiteVersion = ''1.0''"

text \<open>\<open>time.Now().UTC().Format(time.RFC3339)\<close>.\<close>

definition run_at :: "provenance \<Rightarrow> string" where
  "run_at pv = rfc3339 ((pv_Now pv)\<lparr>gt_off := 0\<rparr>)"

definition level_of :: "ResultsSummary \<Rightarrow> int \<Rightarrow> LevelSummary" where
  "level_of s l = (case rs_ByLevel s l of Some ls \<Rightarrow> ls | None \<Rightarrow> zero_level)"

subsection \<open>The HTTP runner's report\<close>

text \<open>One round of the loop: the summary, the failures and the skipped results so far.\<close>

definition http_count ::
    "'m TestResult \<Rightarrow> ResultsSummary \<times> 'm TestResult list \<times> 'm TestResult list
       \<Rightarrow> ResultsSummary \<times> 'm TestResult list \<times> 'm TestResult list" where
  "http_count r acc =
     (let (s, fails, skips) = acc;
          ls = (level_of s (tr_Level r))\<lparr>ls_Total := ls_Total (level_of s (tr_Level r)) + 1\<rparr>;
          (s1, ls1, fails1, skips1) =
            (if tr_Status r = ''pass'' then
               (s\<lparr>rs_Passed := rs_Passed s + 1\<rparr>, ls\<lparr>ls_Passed := ls_Passed ls + 1\<rparr>, fails, skips)
             else if tr_Status r = ''fail'' then
               (s\<lparr>rs_Failed := rs_Failed s + 1\<rparr>, ls\<lparr>ls_Failed := ls_Failed ls + 1\<rparr>, fails @ [r], skips)
             else if tr_Status r = ''skip'' then
               (s\<lparr>rs_Skipped := rs_Skipped s + 1\<rparr>, ls\<lparr>ls_Skipped := ls_Skipped ls + 1\<rparr>, fails, skips @ [r])
             else if tr_Status r = ''error'' then
               (s\<lparr>rs_Errored := rs_Errored s + 1\<rparr>, ls\<lparr>ls_Errored := ls_Errored ls + 1\<rparr>, fails @ [r], skips)
             else (s, ls, fails, skips))
      in (s1\<lparr>rs_ByLevel := (rs_ByLevel s1)(tr_Level r \<mapsto> ls1)\<rparr>, fails1, skips1))"

text \<open>The loop over the levels 0 to 4: a level without results is passed over.\<close>

fun http_levels :: "int list \<Rightarrow> (int \<Rightarrow> LevelSummary option) \<Rightarrow> int \<Rightarrow> (int \<Rightarrow> LevelSummary option) \<times> int" where
  "http_levels [] by cl = (by, cl)"
| "http_levels (lvl # ls) by cl =
     (case by lvl of
        None \<Rightarrow> http_levels ls by cl
      | Some l \<Rightarrow>
          (let l1 = l\<lparr>ls_AllPass := (ls_Failed l = 0 \<and> ls_Errored l = 0)\<rparr>;
               by1 = by(lvl \<mapsto> l1)
           in if ls_AllPass l1 \<and> 0 < ls_Total l1 then http_levels ls by1 lvl else (by1, cl)))"

definition http_buildReport :: "provenance \<Rightarrow> 'm TestResult list \<Rightarrow> string \<Rightarrow> int \<Rightarrow> int \<Rightarrow> 'm SuiteReport" where
  "http_buildReport pv results target requestedLevel duration =
     (let (s, fails, skips) = fold http_count results (zero_summary (int (length results)), [], []);
          (by, cl) = http_levels [0, 1, 2, 3, 4] (rs_ByLevel s) (- 1)
      in \<lparr>rp_TestSuiteVersion = suiteVersion, rp_Target = target, rp_RunAt = run_at pv,
          rp_DurationMs = Milliseconds duration, rp_RequestedLevel = requestedLevel,
          rp_Results = s\<lparr>rs_ByLevel := by\<rparr>,
          rp_Conformant = (rs_Failed s = 0 \<and> rs_Errored s = 0),
          rp_ConformantLevel = cl, rp_Failures = fails, rp_Skipped = skips,
          rp_ReportSchemaVersion = pv_SchemaVersion pv, rp_Commit = pv_Commit pv, rp_Environment = pv_Environment pv,
          rp_Backend = Some \<lparr>bi_Name = [], bi_Version = [], bi_URL = target\<rparr>, rp_Submitter = None\<rparr>)"

subsection \<open>The gRPC runner's report\<close>

definition grpc_count ::
    "'m TestResult \<Rightarrow> ResultsSummary \<times> 'm TestResult list \<times> 'm TestResult list
       \<Rightarrow> ResultsSummary \<times> 'm TestResult list \<times> 'm TestResult list" where
  "grpc_count r acc =
     (let (s0, fails, skips) = acc;
          s = s0\<lparr>rs_Total := rs_Total s0 + 1\<rparr>;
          ls = (level_of s (tr_Level r))\<lparr>ls_Total := ls_Total (level_of s (tr_Level r)) + 1\<rparr>;
          (s1, ls1, fails1, skips1) =
            (if tr_Status r = ''pass'' then
               (s\<lparr>rs_Passed := rs_Passed s + 1\<rparr>, ls\<lparr>ls_Passed := ls_Passed ls + 1\<rparr>, fails, skips)
             else if tr_Status r = ''skip'' then
               (s\<lparr>rs_Skipped := rs_Skipped s + 1\<rparr>, ls\<lparr>ls_Skipped := ls_Skipped ls + 1\<rparr>, fails, skips @ [r])
             else if tr_Status r = ''error'' then
               (s\<lparr>rs_Errored := rs_Errored s + 1\<rparr>, ls\<lparr>ls_Errored := ls_Errored ls + 1\<rparr>, fails @ [r], skips)
             else
               (s\<lparr>rs_Failed := rs_Failed s + 1\<rparr>, ls\<lparr>ls_Failed := ls_Failed ls + 1\<rparr>, fails @ [r], skips));
          ls2 = ls1\<lparr>ls_AllPass := (0 < ls_Total ls1 \<and> ls_Passed ls1 = ls_Total ls1)\<rparr>
      in (s1\<lparr>rs_ByLevel := (rs_ByLevel s1)(tr_Level r \<mapsto> ls2)\<rparr>, fails1, skips1))"

fun grpc_levels :: "int list \<Rightarrow> (int \<Rightarrow> LevelSummary option) \<Rightarrow> int \<Rightarrow> int" where
  "grpc_levels [] by cl = cl"
| "grpc_levels (lvl # ls) by cl =
     (case by lvl of
        None \<Rightarrow> cl
      | Some l \<Rightarrow> if \<not> ls_AllPass l then cl else grpc_levels ls by lvl)"

definition grpc_buildReport :: "provenance \<Rightarrow> 'm TestResult list \<Rightarrow> string \<Rightarrow> int \<Rightarrow> int \<Rightarrow> 'm SuiteReport" where
  "grpc_buildReport pv results target requestedLevel duration =
     (let (s, fails, skips) = fold grpc_count results (zero_summary 0, [], [])
      in \<lparr>rp_TestSuiteVersion = suiteVersion, rp_Target = target, rp_RunAt = run_at pv,
          rp_DurationMs = Milliseconds duration, rp_RequestedLevel = requestedLevel,
          rp_Results = s,
          rp_Conformant = (0 < rs_Total s \<and> rs_Passed s = rs_Total s),
          rp_ConformantLevel = grpc_levels [0, 1, 2, 3, 4] (rs_ByLevel s) (- 1),
          rp_Failures = fails, rp_Skipped = skips,
          rp_ReportSchemaVersion = pv_SchemaVersion pv, rp_Commit = pv_Commit pv, rp_Environment = pv_Environment pv,
          rp_Backend = Some \<lparr>bi_Name = [], bi_Version = [], bi_URL = target\<rparr>, rp_Submitter = None\<rparr>)"

subsection \<open>What the loops count\<close>

definition cnt :: "('a \<Rightarrow> bool) \<Rightarrow> 'a list \<Rightarrow> int" where
  "cnt P xs = int (length (filter P xs))"

lemma cnt_simps [simp]:
  "cnt P [] = 0" "cnt P (xs @ ys) = cnt P xs + cnt P ys" "cnt P [x] = (if P x then 1 else 0)"
  by (simp_all add: cnt_def)

lemma cnt_nonneg [simp]: "0 \<le> cnt P xs"
  by (simp add: cnt_def)

lemma cnt_0: "cnt P xs = 0 \<longleftrightarrow> (\<forall>x \<in> set xs. \<not> P x)"
  by (auto simp: cnt_def filter_empty_conv)

lemma cnt_pos: "0 < cnt P xs \<longleftrightarrow> (\<exists>x \<in> set xs. P x)"
  by (metis cnt_0 cnt_nonneg less_le)

lemma cnt_plus_1 [simp]: "cnt P xs + 1 \<noteq> 0"
  using cnt_nonneg [of P xs] by linarith

lemma cnt_all: "cnt P xs = cnt (\<lambda>x. P x \<and> Q x) xs \<longleftrightarrow> (\<forall>x \<in> set xs. P x \<longrightarrow> Q x)"
proof -
  have "cnt P xs = cnt (\<lambda>x. P x \<and> Q x) xs + cnt (\<lambda>x. P x \<and> \<not> Q x) xs"
    by (induction xs) (auto simp: cnt_def)
  then have "cnt P xs = cnt (\<lambda>x. P x \<and> Q x) xs \<longleftrightarrow> cnt (\<lambda>x. P x \<and> \<not> Q x) xs = 0" by linarith
  then show ?thesis by (auto simp: cnt_0)
qed

definition at_level :: "int \<Rightarrow> 'm TestResult \<Rightarrow> bool" where
  "at_level l r \<longleftrightarrow> tr_Level r = l"

definition counted_as_failed :: "'m TestResult \<Rightarrow> bool" where
  "counted_as_failed r \<longleftrightarrow> tr_Status r \<notin> {''pass'', ''skip'', ''error''}"

text \<open>The summary that counting gives; \<open>bad\<close> says which statuses count as failed.\<close>

definition level_summary :: "('m TestResult \<Rightarrow> bool) \<Rightarrow> (int \<Rightarrow> int \<Rightarrow> bool) \<Rightarrow> 'm TestResult list \<Rightarrow> int \<Rightarrow> LevelSummary option" where
  "level_summary bad ap rs l =
     (if cnt (at_level l) rs = 0 then None
      else Some \<lparr>ls_Total = cnt (at_level l) rs,
                 ls_Passed = cnt (\<lambda>r. at_level l r \<and> tr_Status r = ''pass'') rs,
                 ls_Failed = cnt (\<lambda>r. at_level l r \<and> bad r) rs,
                 ls_Skipped = cnt (\<lambda>r. at_level l r \<and> tr_Status r = ''skip'') rs,
                 ls_Errored = cnt (\<lambda>r. at_level l r \<and> tr_Status r = ''error'') rs,
                 ls_AllPass = ap (cnt (at_level l) rs) (cnt (\<lambda>r. at_level l r \<and> tr_Status r = ''pass'') rs)\<rparr>)"

definition summary_of :: "('m TestResult \<Rightarrow> bool) \<Rightarrow> (int \<Rightarrow> int \<Rightarrow> bool) \<Rightarrow> int \<Rightarrow> 'm TestResult list \<Rightarrow> ResultsSummary" where
  "summary_of bad ap n rs =
     \<lparr>rs_Total = n, rs_Passed = cnt (\<lambda>r. tr_Status r = ''pass'') rs, rs_Failed = cnt bad rs,
      rs_Skipped = cnt (\<lambda>r. tr_Status r = ''skip'') rs, rs_Errored = cnt (\<lambda>r. tr_Status r = ''error'') rs,
      rs_ByLevel = level_summary bad ap rs\<rparr>"

definition status_fail :: "'m TestResult \<Rightarrow> bool" where
  "status_fail r \<longleftrightarrow> tr_Status r = ''fail''"

lemma level_of_summary:
  "level_of (summary_of bad ap n rs) l =
     \<lparr>ls_Total = cnt (at_level l) rs,
      ls_Passed = cnt (\<lambda>r. at_level l r \<and> tr_Status r = ''pass'') rs,
      ls_Failed = cnt (\<lambda>r. at_level l r \<and> bad r) rs,
      ls_Skipped = cnt (\<lambda>r. at_level l r \<and> tr_Status r = ''skip'') rs,
      ls_Errored = cnt (\<lambda>r. at_level l r \<and> tr_Status r = ''error'') rs,
      ls_AllPass = (cnt (at_level l) rs \<noteq> 0 \<and> ap (cnt (at_level l) rs) (cnt (\<lambda>r. at_level l r \<and> tr_Status r = ''pass'') rs))\<rparr>"
  by (auto simp: level_of_def summary_of_def level_summary_def zero_level_def cnt_0)

lemma http_count_step:
  "http_count r (summary_of status_fail (\<lambda>t p. False) n rs, filter (\<lambda>r. tr_Status r \<in> {''fail'', ''error''}) rs,
       filter (\<lambda>r. tr_Status r = ''skip'') rs) =
     (summary_of status_fail (\<lambda>t p. False) n (rs @ [r]), filter (\<lambda>r. tr_Status r \<in> {''fail'', ''error''}) (rs @ [r]),
       filter (\<lambda>r. tr_Status r = ''skip'') (rs @ [r]))"
  unfolding http_count_def Let_def prod.case level_of_summary
  by (auto simp: summary_of_def level_summary_def status_fail_def at_level_def fun_eq_iff cnt_0)

lemma grpc_count_step:
  "grpc_count r (summary_of counted_as_failed (\<lambda>t p. 0 < t \<and> p = t) n rs,
       filter (\<lambda>r. tr_Status r \<notin> {''pass'', ''skip''}) rs, filter (\<lambda>r. tr_Status r = ''skip'') rs) =
     (summary_of counted_as_failed (\<lambda>t p. 0 < t \<and> p = t) (n + 1) (rs @ [r]),
       filter (\<lambda>r. tr_Status r \<notin> {''pass'', ''skip''}) (rs @ [r]), filter (\<lambda>r. tr_Status r = ''skip'') (rs @ [r]))"
proof -
  have l: "level_of (summary_of bad ap n rs\<lparr>rs_Total := k\<rparr>) l = level_of (summary_of bad ap n rs) l" for bad ap n k l
    by (simp add: level_of_def)
  show ?thesis
    unfolding grpc_count_def Let_def prod.case l level_of_summary
    by (auto simp: summary_of_def level_summary_def counted_as_failed_def at_level_def fun_eq_iff cnt_0)
qed

lemma http_count_fold:
  "fold http_count rs (zero_summary n, [], []) =
     (summary_of status_fail (\<lambda>t p. False) n rs, filter (\<lambda>r. tr_Status r \<in> {''fail'', ''error''}) rs,
       filter (\<lambda>r. tr_Status r = ''skip'') rs)"
proof (induction rs rule: rev_induct)
  case Nil
  show ?case by (simp add: zero_summary_def summary_of_def level_summary_def fun_eq_iff)
next
  case (snoc r rs)
  then show ?case by (simp only: fold_append o_apply fold_simps http_count_step)
qed

lemma grpc_count_fold:
  "fold grpc_count rs (zero_summary 0, [], []) =
     (summary_of counted_as_failed (\<lambda>t p. 0 < t \<and> p = t) (int (length rs)) rs,
       filter (\<lambda>r. tr_Status r \<notin> {''pass'', ''skip''}) rs, filter (\<lambda>r. tr_Status r = ''skip'') rs)"
proof (induction rs rule: rev_induct)
  case Nil
  show ?case by (simp add: zero_summary_def summary_of_def level_summary_def fun_eq_iff)
next
  case (snoc r rs)
  then show ?case by (simp only: fold_append o_apply fold_simps grpc_count_step) (simp add: add.commute)
qed

text \<open>The levels of a report, as the two loops see them.\<close>

definition present :: "'m TestResult list \<Rightarrow> int \<Rightarrow> bool" where
  "present rs l \<longleftrightarrow> (\<exists>r \<in> set rs. tr_Level r = l)"

definition no_failure :: "'m TestResult list \<Rightarrow> int \<Rightarrow> bool" where
  "no_failure rs l \<longleftrightarrow> (\<forall>r \<in> set rs. tr_Level r = l \<longrightarrow> tr_Status r \<notin> {''fail'', ''error''})"

definition all_passed :: "'m TestResult list \<Rightarrow> int \<Rightarrow> bool" where
  "all_passed rs l \<longleftrightarrow> (\<forall>r \<in> set rs. tr_Level r = l \<longrightarrow> tr_Status r = ''pass'')"

text \<open>The highest level a report claims when \<open>ok\<close> says which levels hold.\<close>

fun climb :: "(int \<Rightarrow> bool) \<Rightarrow> int list \<Rightarrow> int \<Rightarrow> int" where
  "climb ok [] cl = cl"
| "climb ok (l # ls) cl = (if ok l then climb ok ls l else cl)"

lemma grpc_levels_climb:
  "grpc_levels ls (level_summary counted_as_failed (\<lambda>t p. 0 < t \<and> p = t) rs) cl =
     climb (\<lambda>l. present rs l \<and> all_passed rs l) ls cl"
proof (induction ls arbitrary: cl)
  case (Cons l ls)
  have pres: "cnt (at_level l) rs = 0 \<longleftrightarrow> \<not> present rs l"
    by (simp add: cnt_0 at_level_def present_def)
  have "cnt (\<lambda>r. at_level l r \<and> tr_Status r = ''pass'') rs = cnt (at_level l) rs \<longleftrightarrow> all_passed rs l"
    using cnt_all [of "at_level l" rs "\<lambda>r. tr_Status r = ''pass''"] by (auto simp: at_level_def all_passed_def)
  moreover have "0 < cnt (at_level l) rs \<longleftrightarrow> present rs l"
    by (simp add: cnt_pos at_level_def present_def)
  ultimately show ?case using Cons by (auto simp: level_summary_def pres)
qed simp

lemma http_levels_climb:
  assumes "distinct ls" "\<And>l. l \<in> set ls \<Longrightarrow> by l = level_summary status_fail (\<lambda>t p. False) rs l"
  shows "snd (http_levels ls by cl) = climb (no_failure rs) (filter (present rs) ls) cl"
  using assms
proof (induction ls arbitrary: "by" cl)
  case (Cons l ls)
  have bl: "by l = level_summary status_fail (\<lambda>t p. False) rs l" using Cons.prems by simp
  have pres: "cnt (at_level l) rs = 0 \<longleftrightarrow> \<not> present rs l"
    by (simp add: cnt_0 at_level_def present_def)
  have pos: "0 < cnt (at_level l) rs \<longleftrightarrow> present rs l"
    by (simp add: cnt_pos at_level_def present_def)
  have nf: "cnt (\<lambda>r. at_level l r \<and> status_fail r) rs = 0 \<and> cnt (\<lambda>r. at_level l r \<and> tr_Status r = ''error'') rs = 0
      \<longleftrightarrow> no_failure rs l"
    by (auto simp: cnt_0 at_level_def status_fail_def no_failure_def)
  have IH: "snd (http_levels ls (by(l \<mapsto> x)) cl') = climb (no_failure rs) (filter (present rs) ls) cl'" for x cl'
    using Cons.prems by (intro Cons.IH) auto
  have IH0: "snd (http_levels ls by cl') = climb (no_failure rs) (filter (present rs) ls) cl'" for cl'
    using Cons.prems by (intro Cons.IH) auto
  show ?case
    using nf IH IH0 by (auto simp: bl level_summary_def pres pos Let_def)
qed simp

theorem http_report_counts:
  "let rep = http_buildReport pv rs target lvl d; s = rp_Results rep in
     rs_Total s = int (length rs)
   \<and> rs_Passed s = cnt (\<lambda>r. tr_Status r = ''pass'') rs \<and> rs_Failed s = cnt (\<lambda>r. tr_Status r = ''fail'') rs
   \<and> rs_Skipped s = cnt (\<lambda>r. tr_Status r = ''skip'') rs \<and> rs_Errored s = cnt (\<lambda>r. tr_Status r = ''error'') rs
   \<and> rp_Failures rep = filter (\<lambda>r. tr_Status r \<in> {''fail'', ''error''}) rs
   \<and> rp_Skipped rep = filter (\<lambda>r. tr_Status r = ''skip'') rs
   \<and> rp_Conformant rep = list_all (\<lambda>r. tr_Status r \<notin> {''fail'', ''error''}) rs"
  by (auto simp: list_all_iff http_buildReport_def http_count_fold summary_of_def status_fail_def [abs_def] cnt_0 Let_def split: prod.splits)

lemma grpc_report_counted:
  "let rep = grpc_buildReport pv rs target lvl d; s = rp_Results rep in
     rs_Total s = int (length rs)
   \<and> rs_Total s = rs_Passed s + rs_Failed s + rs_Skipped s + rs_Errored s
   \<and> rp_Failures rep = filter (\<lambda>r. tr_Status r \<notin> {''pass'', ''skip''}) rs
   \<and> rp_Skipped rep = filter (\<lambda>r. tr_Status r = ''skip'') rs
   \<and> rp_Conformant rep = (rs \<noteq> [] \<and> list_all (\<lambda>r. tr_Status r = ''pass'') rs)"
proof -
  have tot: "int (length rs) = cnt (\<lambda>r. tr_Status r = ''pass'') rs + cnt counted_as_failed rs
      + cnt (\<lambda>r. tr_Status r = ''skip'') rs + cnt (\<lambda>r. tr_Status r = ''error'') rs"
    by (induction rs) (auto simp: cnt_def counted_as_failed_def)
  have "cnt (\<lambda>r. tr_Status r = ''pass'') rs = int (length rs) \<longleftrightarrow> (\<forall>r \<in> set rs. tr_Status r = ''pass'')"
    using cnt_all [of "\<lambda>_. True" rs "\<lambda>r. tr_Status r = ''pass''"] by (auto simp: cnt_def)
  then show ?thesis
    by (simp add: grpc_buildReport_def grpc_count_fold summary_of_def Let_def tot [symmetric] list_all_iff)
qed

theorem grpc_report_counts:
  "let rep = grpc_buildReport pv rs target lvl d; s = rp_Results rep in
     rs_Total s = int (length rs)
   \<and> rs_Total s = rs_Passed s + rs_Failed s + rs_Skipped s + rs_Errored s
   \<and> rp_Failures rep = filter (\<lambda>r. tr_Status r \<notin> {''pass'', ''skip''}) rs
   \<and> rp_Skipped rep = filter (\<lambda>r. tr_Status r = ''skip'') rs
   \<and> rp_Conformant rep = (rs \<noteq> [] \<and> list_all (\<lambda>r. tr_Status r = ''pass'') rs)"
  by (rule grpc_report_counted)

lemma http_conformant_level:
  "rp_ConformantLevel (http_buildReport pv rs target lvl d) =
      climb (no_failure rs) (filter (present rs) [0, 1, 2, 3, 4]) (- 1)"
proof -
  have "snd (http_levels [0, 1, 2, 3, 4] (level_summary status_fail (\<lambda>t p. False) rs) (- 1)) =
      climb (no_failure rs) (filter (present rs) [0, 1, 2, 3, 4]) (- 1)"
    by (rule http_levels_climb) simp_all
  then show ?thesis
    unfolding http_buildReport_def http_count_fold Let_def prod.case summary_of_def ResultsSummary.simps
    by (simp add: case_prod_unfold del: http_levels.simps climb.simps filter.simps)
qed

lemma grpc_conformant_level:
  "rp_ConformantLevel (grpc_buildReport pv rs target lvl d) =
      climb (\<lambda>l. present rs l \<and> all_passed rs l) [0, 1, 2, 3, 4] (- 1)"
  by (simp add: grpc_buildReport_def grpc_count_fold summary_of_def grpc_levels_climb del: climb.simps grpc_levels.simps)

lemma climb_ge:
  "sorted_wrt (<) ls \<Longrightarrow> \<forall>l \<in> set ls. cl < l \<Longrightarrow>
   L \<le> climb ok ls cl \<longleftrightarrow> L \<le> cl \<or> (\<exists>l \<in> set ls. L \<le> l \<and> (\<forall>k \<in> set ls. k \<le> l \<longrightarrow> ok k))"
proof (induction ls arbitrary: cl)
  case (Cons a ls)
  show ?case
  proof (cases "ok a")
    case True
    have "L \<le> climb ok ls a \<longleftrightarrow> L \<le> a \<or> (\<exists>l \<in> set ls. L \<le> l \<and> (\<forall>k \<in> set ls. k \<le> l \<longrightarrow> ok k))"
      using Cons.prems by (intro Cons.IH) auto
    with True Cons.prems show ?thesis by force
  next
    case False
    with Cons.prems show ?thesis by force
  qed
qed simp

lemma levels_0_4: "sorted_wrt (<) [0, 1, 2, 3, 4 :: int]" "set [0, 1, 2, 3, 4] = {0..4 :: int}"
  by auto

text \<open>C8. The gRPC report claims at least level L, for L from 0 to 4, exactly if every level from 0 to L
  has results and all of them passed.\<close>

theorem grpc_level_cumulative:
  assumes "0 \<le> L" "L \<le> 4"
  shows "L \<le> rp_ConformantLevel (grpc_buildReport pv rs target lvl d) \<longleftrightarrow>
     (\<forall>l \<in> set [0..L]. present rs l \<and> all_passed rs l)"
proof -
  have "L \<le> rp_ConformantLevel (grpc_buildReport pv rs target lvl d) \<longleftrightarrow>
      (\<exists>l \<in> {0..4}. L \<le> l \<and> (\<forall>k \<in> {0..4}. k \<le> l \<longrightarrow> present rs k \<and> all_passed rs k))"
    using assms levels_0_4 by (simp only: grpc_conformant_level, subst climb_ge) auto
  then show ?thesis using assms by (auto 0 3)
qed

text \<open>C21. The HTTP report claims at least level L exactly if some level from L to 4 has results and no
  level up to it has a failed or errored result; levels without results are passed over, so a run
  of level 3 alone can claim level 3.\<close>

theorem http_level_skips_missing:
  assumes "0 \<le> L" "L \<le> 4"
  shows "L \<le> rp_ConformantLevel (http_buildReport pv rs target lvl d) \<longleftrightarrow>
     (\<exists>l \<in> set [L..4]. present rs l \<and> (\<forall>k \<in> set [0..l]. present rs k \<longrightarrow> no_failure rs k))"
proof -
  have s: "sorted_wrt (<) (filter (present rs) [0, 1, 2, 3, 4])"
    using levels_0_4(1) by (rule sorted_wrt_filter)
  have m: "set (filter (present rs) [0, 1, 2, 3, 4]) = {k \<in> {0..4}. present rs k}"
    using levels_0_4(2) by (simp only: set_filter)
  define ok where "ok l \<longleftrightarrow> (\<forall>k \<in> {k \<in> {0..4}. present rs k}. k \<le> l \<longrightarrow> no_failure rs k)" for l
  have "L \<le> rp_ConformantLevel (http_buildReport pv rs target lvl d) \<longleftrightarrow>
      L \<le> - 1 \<or> (\<exists>l \<in> {k \<in> {0..4}. present rs k}. L \<le> l \<and> ok l)"
    unfolding http_conformant_level ok_def m [symmetric]
    by (rule climb_ge [OF s]) (simp only: m, simp)
  also have "\<dots> \<longleftrightarrow> (\<exists>l \<in> set [L..4]. present rs l \<and> ok l)"
    using assms(1) by (simp add: set_upto) (metis assms(1) atLeastAtMost_iff order_trans)
  also have "\<dots> \<longleftrightarrow> (\<exists>l \<in> set [L..4]. present rs l \<and> (\<forall>k \<in> set [0..l]. present rs k \<longrightarrow> no_failure rs k))"
    by (intro bex_cong refl conj_cong) (auto simp: ok_def set_upto)
  finally show ?thesis .
qed

definition level_result :: "int \<Rightarrow> string \<Rightarrow> unit TestResult" where
  "level_result l st = \<lparr>tr_TestID = ''t'', tr_Name = [], tr_Level = l, tr_Category = [], tr_SpecRef = [],
     tr_Status = st, tr_DurationMs = 0, tr_Failures = [], tr_StepResults = [], tr_FilePath = []\<rparr>"

definition sample_provenance :: provenance where
  "sample_provenance = \<lparr>pv_Now = \<lparr>gt_ns = 0, gt_off = 0\<rparr>, pv_SchemaVersion = ''1.1'', pv_Commit = None, pv_Environment = None\<rparr>"

theorem grpc_level_cumulative_witness:
  "2 \<le> rp_ConformantLevel (grpc_buildReport sample_provenance [level_result 0 ''pass'', level_result 1 ''pass'', level_result 2 ''pass''] ''t'' (-1) 0)"
  by (subst grpc_level_cumulative) (auto simp: upto.simps present_def all_passed_def level_result_def)

theorem http_level_skips_missing_witness:
  "3 \<le> rp_ConformantLevel (http_buildReport sample_provenance [level_result 3 ''pass'', level_result 3 ''skip''] ''t'' 3 0)"
proof -
  have "present [level_result 3 ''pass'', level_result 3 ''skip''] 3"
    "no_failure [level_result 3 ''pass'', level_result 3 ''skip''] k" for k
    by (simp_all add: present_def no_failure_def level_result_def)
  then show ?thesis by (subst http_level_skips_missing) (auto simp: set_upto intro: bexI [of _ 3])
qed

end
