(* ===== verification/GrpcClient_Facts.thy ===== *)
theory GrpcClient_Facts
  imports GrpcRunner
begin

text \<open>
  What the gRPC client does: the outcome of a call and the status a step sees, the options of a
  request as a table of look-ups, the durations that are lost, and what a job map tells of a job.
\<close>

subsection \<open>The outcome of a call\<close>

text \<open>
  The call of the service that belongs to a method, as a table: whether it failed, with which error, and
  the world behind it.
\<close>

definition outcome :: "(rpc_error + 'a) \<times> 'w \<Rightarrow> rpc_error option \<times> 'w" where
  "outcome r = (case r of (Inl err, w) \<Rightarrow> (Some err, w) | (Inr resp, w) \<Rightarrow> (None, w))"

definition service_calls ::
    "pb_env \<Rightarrow> 'w OJSServiceClient \<Rightarrow> string \<Rightarrow> gomap \<Rightarrow> 'w \<Rightarrow> (string \<times> rpc_error option \<times> 'w) list" where
  "service_calls pe c path body w =
     [(''Enqueue'', outcome (pc_Enqueue c (enqueue_request pe body) w)),
      (''EnqueueBatch'', outcome (pc_EnqueueBatch c (batch_request pe body) w)),
      (''GetJob'', outcome (pc_GetJob c (extractIDFromPath path ''/ojs/v1/jobs/'') w)),
      (''CancelJob'', outcome (pc_CancelJob c (extractIDFromPath path ''/ojs/v1/jobs/'') (if_str body ''reason'' (\<lambda>v r. v) []) w)),
      (''Fetch'', outcome (pc_Fetch c (fetch_request pe body) w)),
      (''Ack'', outcome (pc_Ack c (ack_request pe body) w)),
      (''Nack'', outcome (pc_Nack c (nack_request body) w)),
      (''Heartbeat'', outcome (pc_Heartbeat c (heartbeat_request pe body) w)),
      (''ListQueues'', outcome (pc_ListQueues c w)),
      (''QueueStats'', outcome (pc_QueueStats c (queue_of path ''/stats'') w)),
      (''PauseQueue'', outcome (pc_PauseQueue c (queue_of path ''/pause'') w)),
      (''ResumeQueue'', outcome (pc_ResumeQueue c (queue_of path ''/resume'') w)),
      (''ListDeadLetter'', outcome (pc_ListDeadLetter c (dead_letter_request pe body) w)),
      (''RetryDeadLetter'', outcome (pc_RetryDeadLetter c (trimSuffix (extractIDFromPath path ''/ojs/v1/dead-letter/'') ''/retry'') w)),
      (''DeleteDeadLetter'', outcome (pc_DeleteDeadLetter c (extractIDFromPath path ''/ojs/v1/dead-letter/'') w)),
      (''RegisterCron'', outcome (pc_RegisterCron c (cron_request pe body) w)),
      (''UnregisterCron'', outcome (pc_UnregisterCron c (extractIDFromPath path ''/ojs/v1/cron/'') w)),
      (''ListCron'', outcome (pc_ListCron c w)),
      (''CreateWorkflow'', outcome (pc_CreateWorkflow c (workflow_request pe body) w)),
      (''GetWorkflow'', outcome (pc_GetWorkflow c (extractIDFromPath path ''/ojs/v1/workflows/'') w)),
      (''CancelWorkflow'', outcome (pc_CancelWorkflow c (extractIDFromPath path ''/ojs/v1/workflows/'') w)),
      (''Health'', outcome (pc_Health c w)),
      (''Manifest'', outcome (pc_Manifest c w))]"

text \<open>The status that a step has to see: of the error of its call, if any, and else by its method.\<close>

definition expected_status :: "string \<Rightarrow> rpc_error option \<Rightarrow> int" where
  "expected_status meth err =
     (case err of
        Some (StatusError code msg) \<Rightarrow> GRPCCodeToHTTPStatus code
      | Some (PlainError msg) \<Rightarrow> 500
      | None \<Rightarrow>
          if meth \<in> {''Enqueue'', ''EnqueueBatch'', ''RegisterCron'', ''CreateWorkflow''} then 201 else 200)"

lemma expected_created: "expected_status meth None = (if RPCCreatesResource meth then 201 else 200)"
  by (simp add: expected_status_def RPCCreatesResource_def)

definition result_status :: "rpc_result \<Rightarrow> int" where
  "result_status r =
     (if 0 < rr_HTTPStatusOverride r \<and> rr_GRPCCode r = OK then rr_HTTPStatusOverride r
      else GRPCCodeToHTTPStatus (rr_GRPCCode r))"

text \<open>A call whose result has the status of its outcome, in the world that it leaves.\<close>

definition reports :: "string \<Rightarrow> rpc_result \<times> 'w \<Rightarrow> rpc_error option \<times> 'w \<Rightarrow> bool" where
  "reports meth x y \<longleftrightarrow> result_status (fst x) = expected_status meth (fst y) \<and> snd x = snd y"

lemma reports_error: "result_status (grpcError pe err) = expected_status meth (Some err)"
  by (simp add: result_status_def grpcError_def expected_status_def split: rpc_error.split)

lemma reports_with_response:
  assumes "\<And>resp. result_status (f resp) = expected_status meth None"
  shows "reports meth (with_response pe r f) (outcome r)"
  using assms by (auto simp: reports_def with_response_def outcome_def reports_error split: prod.split sum.split)

lemma result_status_ok: "result_status (rpc_ok n body) = (if 0 < n then n else 200)"
  by (simp add: result_status_def rpc_ok_def)

lemmas rpc_defs = rpc_enqueue_def rpc_enqueueBatch_def rpc_getJob_def rpc_cancelJob_def rpc_fetch_def rpc_ack_def
  rpc_nack_def rpc_heartbeat_def rpc_listQueues_def rpc_queueStats_def rpc_pauseQueue_def rpc_resumeQueue_def
  rpc_listDeadLetter_def rpc_retryDeadLetter_def rpc_deleteDeadLetter_def rpc_registerCron_def
  rpc_unregisterCron_def rpc_listCron_def rpc_createWorkflow_def rpc_getWorkflow_def rpc_cancelWorkflow_def
  rpc_health_def rpc_manifest_def

lemma CallRPC_outcome:
  "case map_of (service_calls pe c path (body_map b) w) meth of
     None \<Rightarrow> CallRPC pe c meth path b w = (Inl (''unsupported gRPC method: '' @ meth), w)
   | Some y \<Rightarrow> (\<exists>r w1. CallRPC pe c meth path b w = (Inr r, w1) \<and> reports meth (r, w1) y)"
proof (cases "meth \<in> set supported_methods")
  case True
  then show ?thesis
    unfolding supported_methods_def list.set service_calls_def
    by (elim insertE emptyE)
      (simp add: CallRPC_def Let_def split_beta rpc_defs,
       rule reports_with_response, simp add: result_status_ok expected_status_def split: prod.split)+
next
  case False
  then have "map_of (service_calls pe c path (body_map b) w) meth = None"
    by (simp add: service_calls_def supported_methods_def)
  with False show ?thesis by (simp add: CallRPC_def Let_def supported_methods_def)
qed

text \<open>C36. A gRPC step whose method the client does not support fails without touching the server. Any
  other step makes exactly the call of the service that belongs to its method, with the request
  built from its path and body, and ends in the world that this call leaves: if the call fails the
  step sees the HTTP status of the code of that error, 500 for an error without a code, and if it
  succeeds 201 for Enqueue, EnqueueBatch, RegisterCron and CreateWorkflow and 200 for the others.\<close>

theorem step_status_of_call:
  "case map_of (service_calls (grpc_pb ops) (grpc_client ops) (gq_Path req) (body_map (gq_Body req)) w) (gq_Method req) of
     None \<Rightarrow> grpc_send ops st req w =
       (Inl (empty_result (st_ID st),
          [failure (st_ID st) [] [] [] (MRequest (''unsupported gRPC method: '' @ gq_Method req))]), w)
   | Some (err, w1) \<Rightarrow> (\<exists>sr. grpc_send ops st req w = (Inr sr, w1) \<and> sr_StepID sr = st_ID st
       \<and> sr_StatusCode sr = expected_status (gq_Method req) err)"
proof -
  note call = CallRPC_outcome [where pe = "grpc_pb ops" and c = "grpc_client ops" and path = "gq_Path req"
      and b = "gq_Body req" and w = w and meth = "gq_Method req"]
  show ?thesis
  proof (cases "map_of (service_calls (grpc_pb ops) (grpc_client ops) (gq_Path req) (body_map (gq_Body req)) w) (gq_Method req)")
    case None
    with call show ?thesis by (simp add: grpc_send_def)
  next
    case (Some y)
    obtain err w1 where y: "y = (err, w1)" by (cases y)
    from call obtain r where "CallRPC (grpc_pb ops) (grpc_client ops) (gq_Method req) (gq_Path req) (gq_Body req) w = (Inr r, w1)"
      "result_status r = expected_status (gq_Method req) err"
      by (auto simp: Some y reports_def)
    then show ?thesis by (simp add: Some y grpc_send_def Let_def result_status_def)
  qed
qed

subsection \<open>The options of a request as a table\<close>

definition get_str :: "gomap \<Rightarrow> string \<Rightarrow> string" where
  "get_str m k = (case map_of m k of Some (AStr v) \<Rightarrow> v | _ \<Rightarrow> [])"

definition get_int32 :: "pb_env \<Rightarrow> gomap \<Rightarrow> string \<Rightarrow> int" where
  "get_int32 pe m k = (case map_of m k of Some (AFloat x) \<Rightarrow> to_int32 pe x | _ \<Rightarrow> 0)"

definition get_strings :: "gomap \<Rightarrow> string \<Rightarrow> string list" where
  "get_strings m k = (case map_of m k of Some (AArr vs) \<Rightarrow> strings_of vs | _ \<Rightarrow> [])"

definition get_duration :: "pb_env \<Rightarrow> gomap \<Rightarrow> string \<Rightarrow> int option" where
  "get_duration pe m k =
     (case map_of m k of Some (AFloat x) \<Rightarrow> Some (seconds pe x) | Some (AStr v) \<Rightarrow> ParseDuration v | _ \<Rightarrow> None)"

definition get_time :: "gomap \<Rightarrow> string \<Rightarrow> int option" where
  "get_time m k = (case map_of m k of Some (AStr v) \<Rightarrow> parse_rfc3339nano v | _ \<Rightarrow> None)"

definition get_obj :: "(gomap \<Rightarrow> 'a option) \<Rightarrow> gomap \<Rightarrow> string \<Rightarrow> 'a option" where
  "get_obj f m k = (case map_of m k of Some (AObj x) \<Rightarrow> f x | _ \<Rightarrow> None)"

definition has_str :: "gomap \<Rightarrow> string \<Rightarrow> bool" where
  "has_str m k = (case map_of m k of Some (AStr v) \<Rightarrow> True | _ \<Rightarrow> False)"

definition has_num :: "gomap \<Rightarrow> string \<Rightarrow> bool" where
  "has_num m k = (case map_of m k of Some (AFloat v) \<Rightarrow> True | _ \<Rightarrow> False)"

definition has_arr :: "gomap \<Rightarrow> string \<Rightarrow> bool" where
  "has_arr m k = (case map_of m k of Some (AArr v) \<Rightarrow> True | _ \<Rightarrow> False)"

definition options_table :: "pb_env \<Rightarrow> gomap \<Rightarrow> EnqueueOptions" where
  "options_table pe m =
     \<lparr>eo_Queue = get_str m ''queue'', eo_Priority = get_int32 pe m ''priority'',
      eo_MaxAttempts = get_int32 pe m ''max_attempts'', eo_Tags = get_strings m ''tags'',
      eo_TraceId = get_str m ''trace_id'', eo_DelayUntil = get_time m ''scheduled_at'',
      eo_Timeout = get_duration pe m ''timeout'', eo_Ttl = get_duration pe m ''ttl'',
      eo_Retry = get_obj (retry_policy pe) m ''retry'', eo_Unique = get_obj (unique_policy pe) m ''unique'',
      eo_Meta = get_obj (pb_NewStruct pe) m ''meta''\<rparr>"

definition options_given :: "pb_env \<Rightarrow> gomap \<Rightarrow> bool" where
  "options_given pe m \<longleftrightarrow>
     has_str m ''queue'' \<or> has_num m ''priority'' \<or> has_num m ''max_attempts'' \<or> has_arr m ''tags'' \<or> has_str m ''trace_id''
     \<or> get_time m ''scheduled_at'' \<noteq> None \<or> get_duration pe m ''timeout'' \<noteq> None \<or> get_duration pe m ''ttl'' \<noteq> None
     \<or> get_obj (retry_policy pe) m ''retry'' \<noteq> None \<or> get_obj (unique_policy pe) m ''unique'' \<noteq> None
     \<or> get_obj (pb_NewStruct pe) m ''meta'' \<noteq> None"

text \<open>Nested options win over the entries of the body around them, unless they give the zero value.\<close>

definition or_outer :: "pb_env \<Rightarrow> gomap \<Rightarrow> EnqueueOptions \<Rightarrow> EnqueueOptions" where
  "or_outer pe body t =
     t\<lparr>eo_Queue := if eo_Queue t = [] then get_str body ''queue'' else eo_Queue t,
       eo_Priority := if eo_Priority t = 0 then get_int32 pe body ''priority'' else eo_Priority t,
       eo_MaxAttempts := if eo_MaxAttempts t = 0 then get_int32 pe body ''max_attempts'' else eo_MaxAttempts t\<rparr>"

definition outer_given :: "gomap \<Rightarrow> EnqueueOptions \<Rightarrow> bool" where
  "outer_given body t \<longleftrightarrow>
     (has_str body ''queue'' \<and> eo_Queue t = []) \<or> (has_num body ''priority'' \<and> eo_Priority t = 0)
     \<or> (has_num body ''max_attempts'' \<and> eo_MaxAttempts t = 0)"

text \<open>Each statement of \<open>buildEnqueueOptions\<close> sets one field.\<close>

definition or_old :: "'a option \<Rightarrow> 'a option \<Rightarrow> 'a option" where
  "or_old x old = (case x of Some v \<Rightarrow> Some v | None \<Rightarrow> old)"

lemma or_old_None [simp]: "or_old x None = x"
  by (simp add: or_old_def split: option.split)

lemmas statement_defs = assertions_ok setting_def has_str_def has_num_def has_arr_def or_old_def
  get_str_def get_int32_def get_strings_def get_duration_def get_time_def get_obj_def

lemmas getters = get_str_def get_int32_def get_strings_def get_duration_def get_time_def get_obj_def

lemma option_statements:
  "if_str m k (\<lambda>v. setting (\<lambda>o1. o1\<lparr>eo_Queue := v\<rparr>)) (o2, b) =
     (o2\<lparr>eo_Queue := if has_str m k then get_str m k else eo_Queue o2\<rparr>, has_str m k \<or> b)"
  "if_num m k (\<lambda>v. setting (\<lambda>o1. o1\<lparr>eo_Priority := to_int32 pe v\<rparr>)) (o2, b) =
     (o2\<lparr>eo_Priority := if has_num m k then get_int32 pe m k else eo_Priority o2\<rparr>, has_num m k \<or> b)"
  "if_num m k (\<lambda>v. setting (\<lambda>o1. o1\<lparr>eo_MaxAttempts := to_int32 pe v\<rparr>)) (o2, b) =
     (o2\<lparr>eo_MaxAttempts := if has_num m k then get_int32 pe m k else eo_MaxAttempts o2\<rparr>, has_num m k \<or> b)"
  "if_arr m k (\<lambda>vs. setting (\<lambda>o1. o1\<lparr>eo_Tags := eo_Tags o1 @ strings_of vs\<rparr>)) (o2, b) =
     (o2\<lparr>eo_Tags := eo_Tags o2 @ get_strings m k\<rparr>, has_arr m k \<or> b)"
  "if_str m k (\<lambda>v. setting (\<lambda>o1. o1\<lparr>eo_TraceId := v\<rparr>)) (o2, b) =
     (o2\<lparr>eo_TraceId := if has_str m k then get_str m k else eo_TraceId o2\<rparr>, has_str m k \<or> b)"
  "if_str m k (\<lambda>v. if_ok (parse_rfc3339nano v) (\<lambda>t. setting (\<lambda>o1. o1\<lparr>eo_DelayUntil := Some t\<rparr>))) (o2, b) =
     (o2\<lparr>eo_DelayUntil := or_old (get_time m k) (eo_DelayUntil o2)\<rparr>, get_time m k \<noteq> None \<or> b)"
  by (simp_all add: statement_defs split: option.split any.split)

lemma duration_statements:
  "if_str m k (\<lambda>v. if_ok (ParseDuration v) (\<lambda>d. setting (\<lambda>o1. o1\<lparr>eo_Timeout := Some d\<rparr>)))
     (if_num m k (\<lambda>v. setting (\<lambda>o1. o1\<lparr>eo_Timeout := Some (seconds pe v)\<rparr>)) (o2, b)) =
     (o2\<lparr>eo_Timeout := or_old (get_duration pe m k) (eo_Timeout o2)\<rparr>, get_duration pe m k \<noteq> None \<or> b)"
  "if_str m k (\<lambda>v. if_ok (ParseDuration v) (\<lambda>d. setting (\<lambda>o1. o1\<lparr>eo_Ttl := Some d\<rparr>)))
     (if_num m k (\<lambda>v. setting (\<lambda>o1. o1\<lparr>eo_Ttl := Some (seconds pe v)\<rparr>)) (o2, b)) =
     (o2\<lparr>eo_Ttl := or_old (get_duration pe m k) (eo_Ttl o2)\<rparr>, get_duration pe m k \<noteq> None \<or> b)"
  by (simp_all add: statement_defs split: option.split any.split)

lemma object_statements:
  "if_obj m k (\<lambda>x. if_ok (retry_policy pe x) (\<lambda>r. setting (\<lambda>o1. o1\<lparr>eo_Retry := Some r\<rparr>))) (o2, b) =
     (o2\<lparr>eo_Retry := or_old (get_obj (retry_policy pe) m k) (eo_Retry o2)\<rparr>, get_obj (retry_policy pe) m k \<noteq> None \<or> b)"
  "if_obj m k (\<lambda>x. if_ok (unique_policy pe x) (\<lambda>r. setting (\<lambda>o1. o1\<lparr>eo_Unique := Some r\<rparr>))) (o2, b) =
     (o2\<lparr>eo_Unique := or_old (get_obj (unique_policy pe) m k) (eo_Unique o2)\<rparr>, get_obj (unique_policy pe) m k \<noteq> None \<or> b)"
  "if_obj m k (\<lambda>x. if_ok (pb_NewStruct pe x) (\<lambda>r. setting (\<lambda>o1. o1\<lparr>eo_Meta := Some r\<rparr>))) (o2, b) =
     (o2\<lparr>eo_Meta := or_old (get_obj (pb_NewStruct pe) m k) (eo_Meta o2)\<rparr>, get_obj (pb_NewStruct pe) m k \<noteq> None \<or> b)"
  by (simp_all add: statement_defs split: option.split any.split)

lemma unset_getters [simp]: "(if has_str m k then get_str m k else []) = get_str m k"
  "(if has_num m k then get_int32 pe m k else 0) = get_int32 pe m k"
  by (simp_all add: statement_defs split: option.split any.split)

lemma read_options_table: "read_options pe m = (options_table pe m, options_given pe m)"
  by (simp add: read_options_def Let_def zero_options_def option_statements duration_statements object_statements
      options_table_def options_given_def disj_ac cong: if_cong)

lemma outer_statements:
  "if_str m k (\<lambda>v t. if eo_Queue (fst t) = [] then setting (\<lambda>o1. o1\<lparr>eo_Queue := v\<rparr>) t else t) (o2, b) =
     (o2\<lparr>eo_Queue := if eo_Queue o2 = [] then get_str m k else eo_Queue o2\<rparr>, (has_str m k \<and> eo_Queue o2 = []) \<or> b)"
  "if_num m k (\<lambda>v t. if eo_Priority (fst t) = 0 then setting (\<lambda>o1. o1\<lparr>eo_Priority := to_int32 pe v\<rparr>) t else t) (o2, b) =
     (o2\<lparr>eo_Priority := if eo_Priority o2 = 0 then get_int32 pe m k else eo_Priority o2\<rparr>,
      (has_num m k \<and> eo_Priority o2 = 0) \<or> b)"
  "if_num m k (\<lambda>v t. if eo_MaxAttempts (fst t) = 0 then setting (\<lambda>o1. o1\<lparr>eo_MaxAttempts := to_int32 pe v\<rparr>) t else t) (o2, b) =
     (o2\<lparr>eo_MaxAttempts := if eo_MaxAttempts o2 = 0 then get_int32 pe m k else eo_MaxAttempts o2\<rparr>,
      (has_num m k \<and> eo_MaxAttempts o2 = 0) \<or> b)"
  by (simp_all add: statement_defs split: option.split any.split)

lemma fallback_options_outer:
  "fallback_options pe body (o2, b) = (or_outer pe body o2, outer_given body o2 \<or> b)"
  by (auto simp: fallback_options_def Let_def outer_statements or_outer_def outer_given_def)

text \<open>C35. The statements of buildEnqueueOptions compute a table of independent look-ups: every option is
  the value of its key in the nested options, or in the body without them, where it has the right
  form; queue, priority and max_attempts of the body replace zero values of nested options; there
  are no options exactly if no key gave one.\<close>

theorem enqueue_options_by_table:
  "buildEnqueueOptions pe body =
     (case map_of body ''options'' of
        Some (AObj src) \<Rightarrow>
          (let t = options_table pe src
           in if outer_given body t \<or> options_given pe src then Some (or_outer pe body t) else None)
      | _ \<Rightarrow> if options_given pe body then Some (options_table pe body) else None)"
  by (simp add: buildEnqueueOptions_def read_options_table fallback_options_outer Let_def split: option.split any.split)

text \<open>Numbers of seconds lose their fraction, and the product with a second wraps.\<close>

lemma seconds_of_fin:
  assumes "\<bar>rat_trunc x\<bar> \<le> 9223372036"
  shows "seconds pe (Fin x) = rat_trunc x * 10 ^ 9"
proof -
  have "in_int64 (rat_trunc x)" using assms by (simp add: in_int64_def int64_min_def int64_max_def abs_le_iff)
  then have "f64_to_int64 (pb_oob64 pe) (Fin x) = rat_trunc x" by (simp add: f64_to_int64_def)
  moreover have "wrap64 (rat_trunc x * 10 ^ 9) = rat_trunc x * 10 ^ 9"
    using assms by (simp add: wrap64_def abs_le_iff)
  ultimately show ?thesis by (simp add: seconds_def)
qed

theorem seconds_are_truncated:
  assumes "map_of m k = Some (AFloat (Fin x))" "k \<in> {''timeout'', ''ttl''}" "\<bar>rat_trunc x\<bar> \<le> 9223372036"
    "map_of m ''options'' = None"
  shows "\<exists>opts. buildEnqueueOptions pe m = Some opts
    \<and> (if k = ''timeout'' then eo_Timeout opts else eo_Ttl opts) = Some (rat_trunc x * 10 ^ 9)"
proof -
  have d: "get_duration pe m k = Some (rat_trunc x * 10 ^ 9)"
    by (simp add: get_duration_def assms(1) seconds_of_fin [OF assms(3)])
  then have "options_given pe m" using assms(2) by (auto simp: options_given_def)
  then show ?thesis using assms(2,4) d by (auto simp: enqueue_options_by_table options_table_def)
qed

theorem seconds_are_truncated_witness:
  "map_option eo_Timeout (buildEnqueueOptions sample_pb [(''timeout'', AFloat (Fin (1 / 2)))]) = Some (Some 0)"
  using seconds_are_truncated [of "[(''timeout'', AFloat (Fin (1 / 2)))]" "''timeout''" "1 / 2" sample_pb]
  by (auto simp: rat_trunc_def floor_eq_iff)

subsection \<open>Durations in the ISO format\<close>

lemma ParseDuration_iso [simp]: "ParseDuration (CHR ''P'' # v) = None"
  by (subst ParseDuration_def, subst duration_loop.simps)
    (simp add: duration_part_def scan_decimal_def is_digit_def)

definition get_num :: "gomap \<Rightarrow> string \<Rightarrow> f64" where
  "get_num m k = (case map_of m k of Some (AFloat x) \<Rightarrow> x | _ \<Rightarrow> Fin 0)"

definition coefficient :: "gomap \<Rightarrow> f64" where
  "coefficient m =
     (if has_num m ''backoff_coefficient'' then get_num m ''backoff_coefficient'' else get_num m ''multiplier'')"

lemma retry_statements:
  "if_num m k (\<lambda>v. setting (\<lambda>r. r\<lparr>ry_MaxAttempts := to_int32 pe v\<rparr>)) (r2, b) =
     (r2\<lparr>ry_MaxAttempts := if has_num m k then get_int32 pe m k else ry_MaxAttempts r2\<rparr>, has_num m k \<or> b)"
  "if_num m k (\<lambda>v. setting (\<lambda>r. r\<lparr>ry_BackoffCoefficient := v\<rparr>)) (r2, b) =
     (r2\<lparr>ry_BackoffCoefficient := if has_num m k then get_num m k else ry_BackoffCoefficient r2\<rparr>, has_num m k \<or> b)"
  "(if has_num m k then get_num m k else Fin 0) = get_num m k"
  by (simp_all add: statement_defs get_num_def split: option.split any.split)

theorem iso_intervals_dropped:
  assumes "map_of m ''initial_interval'' = Some (AStr (CHR ''P'' # v))" "map_of m ''max_interval'' = Some (AStr u)"
    "\<not> has_num m ''initial_delay''" "\<not> has_num m ''max_delay''"
  shows "retry_policy pe m =
    (if has_num m ''max_attempts'' \<or> has_num m ''multiplier'' \<or> has_num m ''backoff_coefficient''
     then Some \<lparr>ry_MaxAttempts = get_int32 pe m ''max_attempts'', ry_InitialInterval = None, ry_MaxInterval = None,
                ry_BackoffCoefficient = coefficient m\<rparr>
     else None)"
proof -
  have "if_num m k f s = s" if "\<not> has_num m k" for k f and s :: "RetryPolicy \<times> bool"
    using that by (simp add: if_num_def has_num_def split: option.splits any.splits)
  then have d: "if_num m ''initial_delay'' f s = s" "if_num m ''max_delay'' f s = s"
    "if_num m ''initial_interval'' f s = s" "if_num m ''max_interval'' f s = s" for f and s :: "RetryPolicy \<times> bool"
    using assms by (simp_all add: has_num_def)
  have i: "if_str m ''initial_interval'' (\<lambda>v. if_ok (ParseDuration v) f) s = s" for f and s :: "RetryPolicy \<times> bool"
    by (simp add: assms(1) if_str_def if_ok_def)
  show ?thesis
    unfolding retry_policy_def Let_def d i
    by (simp add: retry_statements coefficient_def cong: if_cong)
qed

theorem iso_intervals_dropped_witness:
  "retry_policy sample_pb [(''initial_interval'', AStr ''PT1S''), (''max_interval'', AStr ''PT5M'')] = None"
  using iso_intervals_dropped [of "[(''initial_interval'', AStr ''PT1S''), (''max_interval'', AStr ''PT5M'')]" "''T1S''"
      "''PT5M''" sample_pb]
  by (simp add: has_num_def)

subsection \<open>What the map of a job tells\<close>

lemma map_of_entries:
  "map_of (entry c k v @ r) k1 = (if c \<and> k1 = k then Some v else map_of r k1)"
  "map_of (time_entry k t @ r) k1 = (if t \<noteq> None \<and> k1 = k then map_option (AStr \<circ> rfc3339nano) t else map_of r k1)"
  "map_of (opt_entry k x @ r) k1 = (if x \<noteq> None \<and> k1 = k then x else map_of r k1)"
  "map_of (opt_entry k x) k1 = (if x \<noteq> None \<and> k1 = k then x else None)"
  by (auto simp: entry_def time_entry_def opt_entry_def split: option.split)

definition get_int :: "gomap \<Rightarrow> string \<Rightarrow> int" where
  "get_int m k = (case map_of m k of Some (AInt i n) \<Rightarrow> n | _ \<Rightarrow> 0)"

definition get_arr :: "gomap \<Rightarrow> string \<Rightarrow> any list" where
  "get_arr m k = (case map_of m k of Some (AArr vs) \<Rightarrow> vs | _ \<Rightarrow> [])"

lemma strings_of_map [simp]: "strings_of (map AStr ss) = ss"
  by (induction ss) (simp_all add: strings_of_def)

text \<open>The map without the two policies at its end.\<close>

definition job_fields :: "Job \<Rightarrow> any option \<Rightarrow> any option \<Rightarrow> gomap" where
  "job_fields j retry unique =
     [(''id'', AStr (jb_Id j)), (''type'', AStr (jb_Type j)), (''queue'', AStr (jb_Queue j)),
      (''state'', AStr (enum_text ''JOB_STATE_'' (jb_State j))), (''attempt'', AInt KInt32 (jb_Attempt j))]
     @ entry (jb_Priority j \<noteq> 0) ''priority'' (AInt KInt32 (jb_Priority j))
     @ entry (jb_MaxAttempts j \<noteq> 0) ''max_attempts'' (AInt KInt32 (jb_MaxAttempts j))
     @ entry (jb_Specversion j \<noteq> []) ''specversion'' (AStr (jb_Specversion j))
     @ time_entry ''created_at'' (jb_CreatedAt j) @ time_entry ''enqueued_at'' (jb_EnqueuedAt j)
     @ time_entry ''scheduled_at'' (jb_ScheduledAt j) @ time_entry ''started_at'' (jb_StartedAt j)
     @ time_entry ''completed_at'' (jb_CompletedAt j) @ time_entry ''expires_at'' (jb_ExpiresAt j)
     @ entry (jb_Args j \<noteq> []) ''args'' (AArr (jb_Args j))
     @ entry (jb_Errors j \<noteq> []) ''errors'' (AArr (map job_error_map (jb_Errors j)))
     @ entry (jb_Tags j \<noteq> []) ''tags'' (str_list (jb_Tags j))
     @ entry (jb_TraceId j \<noteq> []) ''trace_id'' (AStr (jb_TraceId j))
     @ entry (jb_WorkflowId j \<noteq> []) ''workflow_id'' (AStr (jb_WorkflowId j))
     @ opt_entry ''result'' (map_option AObj (jb_Result j)) @ opt_entry ''meta'' (map_option AObj (jb_Meta j))
     @ opt_entry ''retry_policy'' retry @ opt_entry ''unique_policy'' unique"

lemma job_fields_read:
  "get_str (job_fields j x y) ''id'' = jb_Id j" "get_str (job_fields j x y) ''type'' = jb_Type j"
  "get_str (job_fields j x y) ''queue'' = jb_Queue j" "get_int (job_fields j x y) ''attempt'' = jb_Attempt j"
  "get_int (job_fields j x y) ''priority'' = jb_Priority j"
  "get_int (job_fields j x y) ''max_attempts'' = jb_MaxAttempts j"
  "get_str (job_fields j x y) ''specversion'' = jb_Specversion j"
  "get_arr (job_fields j x y) ''args'' = jb_Args j" "get_strings (job_fields j x y) ''tags'' = jb_Tags j"
  "get_str (job_fields j x y) ''trace_id'' = jb_TraceId j"
  "get_str (job_fields j x y) ''workflow_id'' = jb_WorkflowId j"
  by (simp_all add: job_fields_def get_str_def get_int_def get_arr_def get_strings_def map_of_entries str_list_def
      del: map_of_append)

lemma job_fields_objects:
  "get_obj Some (job_fields j x y) ''result'' = jb_Result j" "get_obj Some (job_fields j x y) ''meta'' = jb_Meta j"
  "map_of (job_fields j x y) ''scheduled_at'' = map_option (AStr \<circ> rfc3339nano) (jb_ScheduledAt j)"
  by (cases "jb_Result j"; cases "jb_Meta j"; cases "jb_ScheduledAt j";
      simp add: job_fields_def get_obj_def map_of_entries del: map_of_append)+

theorem job_map_reads_back:
  "\<exists>m. protoJobToMap (Some j) = AObj m
     \<and> get_str m ''id'' = jb_Id j \<and> get_str m ''type'' = jb_Type j \<and> get_str m ''queue'' = jb_Queue j
     \<and> get_int m ''attempt'' = jb_Attempt j \<and> get_int m ''priority'' = jb_Priority j
     \<and> get_int m ''max_attempts'' = jb_MaxAttempts j \<and> get_str m ''specversion'' = jb_Specversion j
     \<and> get_arr m ''args'' = jb_Args j \<and> get_strings m ''tags'' = jb_Tags j \<and> get_str m ''trace_id'' = jb_TraceId j
     \<and> get_str m ''workflow_id'' = jb_WorkflowId j \<and> get_obj Some m ''result'' = jb_Result j
     \<and> get_obj Some m ''meta'' = jb_Meta j
     \<and> map_of m ''scheduled_at'' = map_option (AStr \<circ> rfc3339nano) (jb_ScheduledAt j)"
proof (intro exI conjI)
  show "protoJobToMap (Some j) = AObj (job_fields j
      (case jb_RetryPolicy j of None \<Rightarrow> None | Some r \<Rightarrow> nonempty_map (retry_map r))
      (case jb_UniquePolicy j of None \<Rightarrow> None | Some u \<Rightarrow> nonempty_map (unique_map u)))"
    by (simp add: protoJobToMap_def job_fields_def)
qed (simp_all only: job_fields_read job_fields_objects)

end
