(* ===== verification/Go_Mux.thy ===== *)
theory Go_Mux
  imports Go_Json
begin

text \<open>
  The request multiplexer of net/http with patterns of a method and a path: cleaning a path,
  matching its segments, the redirects, and the answers 404 and 405. Hosts do not occur.
\<close>

subsection \<open>Paths\<close>

text \<open>\<open>url.PathUnescape\<close>: \<open>None\<close> for a malformed percent sign.\<close>

fun unescape :: "string \<Rightarrow> string option" where
  "unescape [] = Some []"
| "unescape (c # s) =
     (if c \<noteq> CHR ''%'' then map_option (Cons c) (unescape s)
      else case s of
        a # b # r \<Rightarrow>
          (case (hex_val a, hex_val b) of
             (Some x, Some y) \<Rightarrow> map_option (Cons (ch (x * 16 + y))) (unescape r)
           | _ \<Rightarrow> None)
      | _ \<Rightarrow> None)"

text \<open>A segment as the multiplexer compares it.\<close>

definition seg_text :: "string \<Rightarrow> string" where
  "seg_text s = (case unescape s of Some t \<Rightarrow> t | None \<Rightarrow> s)"

text \<open>\<open>path.Clean\<close> of a rooted path, on its segments.\<close>

fun clean_segs :: "string list \<Rightarrow> string list \<Rightarrow> string list" where
  "clean_segs acc [] = rev acc"
| "clean_segs acc (s # ss) =
     (if s = [] \<or> s = ''.'' then clean_segs acc ss
      else if s = ''..'' then clean_segs (tl acc) ss
      else clean_segs (s # acc) ss)"

text \<open>\<open>cleanPath\<close> keeps a slash at the end.\<close>

definition cleanPath :: "string \<Rightarrow> string" where
  "cleanPath p =
     (let q = (if hasPrefix p ''/'' then p else CHR ''/'' # p);
          np = CHR ''/'' # strJoin ''/'' (clean_segs [] (strSplit (CHR ''/'') q))
      in if hasSuffix q ''/'' \<and> np \<noteq> ''/'' then np @ ''/'' else np)"

subsection \<open>Patterns\<close>

text \<open>A literal segment, a wildcard for one segment, and the slash at the end that matches any rest.\<close>

datatype pat_seg = Lit string | Wild | Rest

record 'h pattern =
  pa_Method :: string
  pa_Segs :: "pat_seg list"
  pa_Handler :: 'h

fun segs_match :: "pat_seg list \<Rightarrow> string list \<Rightarrow> bool" where
  "segs_match [] ss = (ss = [])"
| "segs_match (Rest # ps) ss = (ss \<noteq> [])"
| "segs_match (p # ps) [] = False"
| "segs_match (Lit l # ps) (s # ss) = (seg_text s = l \<and> segs_match ps ss)"
| "segs_match (Wild # ps) (s # ss) = (s \<noteq> [] \<and> segs_match ps ss)"

text \<open>The values of the wildcards.\<close>

fun wild_values :: "pat_seg list \<Rightarrow> string list \<Rightarrow> string list" where
  "wild_values (Wild # ps) (s # ss) = seg_text s # wild_values ps ss"
| "wild_values (Lit l # ps) (s # ss) = wild_values ps ss"
| "wild_values _ _ = []"

text \<open>The segments behind the slash at the front of a path.\<close>

definition path_segs :: "string \<Rightarrow> string list option" where
  "path_segs p = (if hasPrefix p ''/'' then Some (tl (strSplit (CHR ''/'') p)) else None)"

definition path_match :: "pat_seg list \<Rightarrow> string \<Rightarrow> bool" where
  "path_match ps p = (case path_segs p of None \<Rightarrow> False | Some ss \<Rightarrow> segs_match ps ss)"

text \<open>A pattern for GET also matches HEAD.\<close>

definition method_match :: "string \<Rightarrow> string \<Rightarrow> bool" where
  "method_match pat m \<longleftrightarrow> pat = m \<or> pat = ''GET'' \<and> m = ''HEAD''"

text \<open>The multiplexer prefers the most specific pattern; the tables here never have two for one path.\<close>

definition mux_match :: "'h pattern list \<Rightarrow> string \<Rightarrow> string \<Rightarrow> 'h pattern option" where
  "mux_match pats m p = List.find (\<lambda>pt. method_match (pa_Method pt) m \<and> path_match (pa_Segs pt) p) pats"

definition exactMatch :: "'h pattern option \<Rightarrow> string \<Rightarrow> bool" where
  "exactMatch n p =
     (case n of
        None \<Rightarrow> False
      | Some pt \<Rightarrow>
          if pa_Segs pt = [] \<or> last (pa_Segs pt) \<noteq> Rest then True
          else hasSuffix p ''/'' \<and> length (pa_Segs pt) = length (filter (\<lambda>c. c = CHR ''/'') p))"

definition matchingMethods :: "'h pattern list \<Rightarrow> string \<Rightarrow> string list" where
  "matchingMethods pats p =
     map pa_Method (filter (\<lambda>pt. path_match (pa_Segs pt) p \<or> \<not> hasSuffix p ''/'' \<and> path_match (pa_Segs pt) (p @ ''/'')) pats)"

datatype 'h routed =
    Handler 'h "string list"
  | MovedTo string
  | MethodNotAllowed
  | NotFound

text \<open>\<open>findHandler\<close>, from the method and the path as it was sent (escaped); \<open>decoded\<close> is \<open>r.URL.Path\<close>.\<close>

definition findHandler :: "'h pattern list \<Rightarrow> string \<Rightarrow> string \<Rightarrow> string \<Rightarrow> 'h routed" where
  "findHandler pats m escaped decoded =
     (let path = (if m = ''CONNECT'' then escaped else cleanPath escaped);
          n = mux_match pats m path
      in if \<not> exactMatch n path \<and> \<not> hasSuffix path ''/'' \<and> path \<noteq> [] \<and> exactMatch (mux_match pats m (path @ ''/'')) (path @ ''/'')
         then MovedTo (cleanPath decoded @ ''/'')
         else if path \<noteq> escaped then MovedTo path
         else case n of
           Some pt \<Rightarrow> Handler (pa_Handler pt) (wild_values (pa_Segs pt) (the (path_segs path)))
         | None \<Rightarrow> if matchingMethods pats path \<noteq> [] then MethodNotAllowed else NotFound)"

lemma mux_match_some:
  "mux_match pats m p = Some pt \<Longrightarrow> pt \<in> set pats \<and> method_match (pa_Method pt) m \<and> path_match (pa_Segs pt) p"
  by (auto simp: mux_match_def find_Some_iff)

lemma routed_handler:
  assumes "findHandler pats m escaped decoded = Handler h vs"
  shows "\<exists>pt ss. pt \<in> set pats \<and> pa_Handler pt = h \<and> method_match (pa_Method pt) m \<and> path_segs escaped = Some ss
     \<and> segs_match (pa_Segs pt) ss \<and> vs = wild_values (pa_Segs pt) ss"
  using assms
  by (auto simp: findHandler_def Let_def path_match_def split: if_splits option.splits dest!: mux_match_some)

end
