(* ===== verification/Sha256.thy ===== *)
theory Sha256
  imports Prelude "HOL-Library.Word"
begin

text \<open>
  SHA-256 as \<open>crypto/sha256\<close> computes it, on 32-bit words, and \<open>hex.EncodeToString\<close> of the
  digest: the certification portal derives certificate ids and fingerprints from it.
\<close>

unbundle bit_operations_syntax

type_synonym w32 = "32 word"

definition sha_k :: "w32 list" where
  "sha_k =
     [1116352408, 1899447441, 3049323471, 3921009573, 961987163, 1508970993, 2453635748, 2870763221,
      3624381080, 310598401, 607225278, 1426881987, 1925078388, 2162078206, 2614888103, 3248222580,
      3835390401, 4022224774, 264347078, 604807628, 770255983, 1249150122, 1555081692, 1996064986,
      2554220882, 2821834349, 2952996808, 3210313671, 3336571891, 3584528711, 113926993, 338241895,
      666307205, 773529912, 1294757372, 1396182291, 1695183700, 1986661051, 2177026350, 2456956037,
      2730485921, 2820302411, 3259730800, 3345764771, 3516065817, 3600352804, 4094571909, 275423344,
      430227734, 506948616, 659060556, 883997877, 958139571, 1322822218, 1537002063, 1747873779,
      1955562222, 2024104815, 2227730452, 2361852424, 2428436474, 2756734187, 3204031479, 3329325298]"

definition sha_h0 :: "w32 list" where
  "sha_h0 = [1779033703, 3144134277, 1013904242, 2773480762, 1359893119, 2600822924, 528734635, 1541459225]"

definition rotr :: "nat \<Rightarrow> w32 \<Rightarrow> w32" where
  "rotr n x = drop_bit n x OR push_bit (32 - n) x"

definition word_of_bytes :: "nat \<Rightarrow> nat \<Rightarrow> nat \<Rightarrow> nat \<Rightarrow> w32" where
  "word_of_bytes a b c d = of_nat (((a * 256 + b) * 256 + c) * 256 + d)"

text \<open>The padded message: a one bit, zeros, and the length in bits as 64 bits.\<close>

definition sha_pad :: "nat list \<Rightarrow> nat list" where
  "sha_pad bs =
     (let n = length bs; z = (119 - n mod 64) mod 64; bits = 8 * n
      in bs @ [128] @ replicate z 0 @ map (\<lambda>i. bits div 256 ^ (7 - i) mod 256) [0..<8])"

fun to_words :: "nat list \<Rightarrow> w32 list" where
  "to_words (a # b # c # d # bs) = word_of_bytes a b c d # to_words bs"
| "to_words _ = []"

text \<open>The message schedule: from the 16 words of a block, newest first, 48 more.\<close>

definition sha_sigma0 :: "w32 \<Rightarrow> w32" where
  "sha_sigma0 x = rotr 7 x XOR rotr 18 x XOR drop_bit 3 x"

definition sha_sigma1 :: "w32 \<Rightarrow> w32" where
  "sha_sigma1 x = rotr 17 x XOR rotr 19 x XOR drop_bit 10 x"

fun sha_expand :: "nat \<Rightarrow> w32 list \<Rightarrow> w32 list" where
  "sha_expand 0 ws = ws"
| "sha_expand (Suc n) ws =
     sha_expand n ((sha_sigma1 (ws ! 1) + ws ! 6 + sha_sigma0 (ws ! 14) + ws ! 15) # ws)"

definition sha_schedule :: "w32 list \<Rightarrow> w32 list" where
  "sha_schedule block = rev (sha_expand 48 (rev block))"

fun sha_round :: "w32 \<times> w32 \<Rightarrow> w32 list \<Rightarrow> w32 list" where
  "sha_round (k, w) [a, b, c, d, e, f, g, h] =
     (let s1 = rotr 6 e XOR rotr 11 e XOR rotr 25 e;
          chs = (e AND f) XOR (NOT e AND g);
          t1 = h + s1 + chs + k + w;
          s0 = rotr 2 a XOR rotr 13 a XOR rotr 22 a;
          maj = (a AND b) XOR (a AND c) XOR (b AND c)
      in [t1 + s0 + maj, a, b, c, d + t1, e, f, g])"
| "sha_round kw st = st"

definition sha_compress :: "w32 list \<Rightarrow> w32 list \<Rightarrow> w32 list" where
  "sha_compress h block = map2 (+) h (fold sha_round (zip sha_k (sha_schedule block)) h)"

fun sha_blocks :: "nat \<Rightarrow> w32 list \<Rightarrow> w32 list \<Rightarrow> w32 list" where
  "sha_blocks 0 h ws = h"
| "sha_blocks (Suc n) h ws = sha_blocks n (sha_compress h (take 16 ws)) (drop 16 ws)"

definition sha256 :: "string \<Rightarrow> w32 list" where
  "sha256 s = (let ws = to_words (sha_pad (map of_char s)) in sha_blocks (length ws div 16) sha_h0 ws)"

definition lower_hex :: "nat \<Rightarrow> char" where
  "lower_hex n = (if n < 10 then char_of (48 + n) else char_of (87 + n))"

definition hex_of_word :: "w32 \<Rightarrow> string" where
  "hex_of_word w = map (\<lambda>i. lower_hex (unat w div 16 ^ (7 - i) mod 16)) [0..<8]"

definition sha256_hex :: "string \<Rightarrow> string" where
  "sha256_hex s = concat (map hex_of_word (sha256 s))"

lemma sha_round_length: "length h = 8 \<Longrightarrow> length (sha_round kw h) = 8"
  by (cases "(kw, h)" rule: sha_round.cases) (auto simp: Let_def)

lemma sha_fold_length: "length h = 8 \<Longrightarrow> length (fold sha_round kws h) = 8"
  by (induction kws arbitrary: h) (auto simp: sha_round_length)

lemma sha_compress_length: "length h = 8 \<Longrightarrow> length (sha_compress h block) = 8"
  by (simp add: sha_compress_def sha_fold_length)

lemma sha_blocks_length: "length h = 8 \<Longrightarrow> length (sha_blocks n h ws) = 8"
  by (induction n arbitrary: h ws) (auto simp: sha_compress_length)

lemma sha256_hex_length [simp]: "length (sha256_hex s) = 64"
proof -
  have "length (sha256 s) = 8" by (simp add: sha256_def Let_def sha_blocks_length sha_h0_def)
  moreover have "length (concat (map hex_of_word ws)) = 8 * length ws" for ws
    by (induction ws) (auto simp: hex_of_word_def)
  ultimately show ?thesis by (simp add: sha256_hex_def)
qed

end
