(* ===== verification/Portal.thy ===== *)
theory Portal
  imports Go_Json Go_Time Sha256 "HOL-Library.AList" "HOL-Library.Multiset"
begin

text \<open>
  The certification portal, badge/portal.go, and the badge service, badge/badge.go. The store
  is the map from ids to certificates; a Go pointer to a certificate is only shared through
  the store, so the certificate itself stands in the map. The clock and the order in which Go
  ranges over the map are parameters. A response is its status, its content type and the data
  that its body encodes.
\<close>

text \<open>\<open>180 * 24 * time.Hour\<close>.\<close>

definition half_year :: int where
  "half_year = 180 * 24 * (3600 * 10 ^ 9)"

subsection \<open>Requests and certificates\<close>

record CertificationRequest =
  cr_ServerURL :: string
  cr_Name :: string
  cr_Organization :: string
  cr_Repository :: string
  cr_Level :: string
  cr_ContactEmail :: string

record Certificate =
  ct_ID :: string
  ct_Name :: string
  ct_Organization :: string
  ct_Repository :: string
  ct_Level :: string
  ct_Status :: string
  ct_Passed :: int
  ct_Failed :: int
  ct_Total :: int
  ct_BadgeURL :: string
  ct_IssuedAt :: go_time
  ct_ExpiresAt :: go_time
  ct_Fingerprint :: string

type_synonym CertificationStore = "(string \<times> Certificate) list"

definition computeLevel :: "int \<Rightarrow> int \<Rightarrow> string" where
  "computeLevel passed tot =
     (if tot = 0 then ''L0''
      else let ratio = f64_div (f64_of_int passed) (f64_of_int tot) in
        if f64_ge ratio (f64_round 1) then ''L0-L4''
        else if f64_ge ratio (f64_round (8 / 10)) then ''L0-L3''
        else if f64_ge ratio (f64_round (6 / 10)) then ''L0-L2''
        else if f64_ge ratio (f64_round (4 / 10)) then ''L0-L1''
        else ''L0'')"

definition badge_url :: "string \<Rightarrow> string \<Rightarrow> string \<Rightarrow> string" where
  "badge_url level name status = ''/badge/'' @ level @ ''.svg?name='' @ name @ ''&status='' @ status"

subsection \<open>CertificationStore\<close>

definition issue_status :: "int \<Rightarrow> int \<Rightarrow> string" where
  "issue_status passed failed =
     (let status = (if 0 < failed \<and> 0 < passed then ''partial'' else ''pass'')
      in if passed = 0 then ''fail'' else status)"

definition cert_data :: "CertificationRequest \<Rightarrow> int \<Rightarrow> int \<Rightarrow> go_time \<Rightarrow> string" where
  "cert_data req passed tot t =
     cr_Name req @ '':'' @ cr_ServerURL req @ '':'' @ computeLevel passed tot @ '':''
     @ show_int passed @ '':'' @ show_int tot @ '':'' @ rfc3339 t"

definition Issue :: "go_time \<Rightarrow> CertificationRequest \<Rightarrow> int \<Rightarrow> int \<Rightarrow> int \<Rightarrow> CertificationStore \<Rightarrow> Certificate \<times> CertificationStore" where
  "Issue t req passed failed tot cs =
     (let level = computeLevel passed tot;
          status = issue_status passed failed;
          fingerprint = sha256_hex (cert_data req passed tot t);
          cid = ''cert_'' @ take 16 fingerprint;
          cert = \<lparr>ct_ID = cid, ct_Name = cr_Name req, ct_Organization = cr_Organization req,
                  ct_Repository = cr_Repository req, ct_Level = level, ct_Status = status,
                  ct_Passed = passed, ct_Failed = failed, ct_Total = tot,
                  ct_BadgeURL = badge_url level (cr_Name req) status,
                  ct_IssuedAt = t, ct_ExpiresAt = time_add t half_year, ct_Fingerprint = fingerprint\<rparr>
      in (cert, AList.update cid cert cs))"

definition Get :: "CertificationStore \<Rightarrow> string \<Rightarrow> Certificate option" where
  "Get cs cid = map_of cs cid"

text \<open>
  \<open>order\<close> is the order in which Go ranges over the map. \<open>sort.Slice\<close> leaves the order of
  certificates issued at the same instant open, as \<open>order\<close> does.
\<close>

definition List_certs :: "(string list \<Rightarrow> string list) \<Rightarrow> CertificationStore \<Rightarrow> Certificate list" where
  "List_certs order cs = sort_key (\<lambda>c. - gt_ns (ct_IssuedAt c)) (List.map_filter (map_of cs) (order (map fst cs)))"

definition Verify :: "go_time \<Rightarrow> CertificationStore \<Rightarrow> string \<Rightarrow> string \<Rightarrow> bool" where
  "Verify t cs cid fingerprint =
     (case map_of cs cid of
        None \<Rightarrow> False
      | Some c \<Rightarrow> ct_Fingerprint c = fingerprint \<and> gt_ns t < gt_ns (ct_ExpiresAt c))"

definition update_status :: "int \<Rightarrow> int \<Rightarrow> string" where
  "update_status passed failed =
     (if failed = 0 \<and> 0 < passed then ''pass'' else if 0 < passed then ''partial'' else ''fail'')"

text \<open>\<open>None\<close> is the error for an unknown certificate.\<close>

definition UpdateCertificate :: "string \<Rightarrow> int \<Rightarrow> int \<Rightarrow> int \<Rightarrow> CertificationStore \<Rightarrow> CertificationStore option" where
  "UpdateCertificate cid passed failed tot cs =
     (case map_of cs cid of
        None \<Rightarrow> None
      | Some cert \<Rightarrow>
          (let cert1 = cert\<lparr>ct_Passed := passed, ct_Failed := failed, ct_Total := tot,
                            ct_Level := computeLevel passed tot,
                            ct_Status := update_status passed failed\<rparr>
           in Some (AList.update cid
                (cert1\<lparr>ct_BadgeURL := badge_url (ct_Level cert1) (ct_Name cert1) (ct_Status cert1)\<rparr>) cs)))"

subsection \<open>Decoding a certification request\<close>

definition zero_request :: CertificationRequest where
  "zero_request = \<lparr>cr_ServerURL = [], cr_Name = [], cr_Organization = [], cr_Repository = [], cr_Level = [],
     cr_ContactEmail = []\<rparr>"

definition set_field :: "string \<Rightarrow> string \<Rightarrow> CertificationRequest \<Rightarrow> CertificationRequest" where
  "set_field k v req =
     (let n = fold_name k in
      if n = ''server_url'' then req\<lparr>cr_ServerURL := v\<rparr>
      else if n = ''name'' then req\<lparr>cr_Name := v\<rparr>
      else if n = ''organization'' then req\<lparr>cr_Organization := v\<rparr>
      else if n = ''repository'' then req\<lparr>cr_Repository := v\<rparr>
      else if n = ''level'' then req\<lparr>cr_Level := v\<rparr>
      else if n = ''contact_email'' then req\<lparr>cr_ContactEmail := v\<rparr>
      else req)"

definition request_keys :: "string list" where
  "request_keys = [''server_url'', ''name'', ''organization'', ''repository'', ''level'', ''contact_email'']"

text \<open>
  The fields in the order of the text, a later one overwriting an earlier one; \<open>null\<close> leaves
  a field as it is, unknown keys are ignored, any other type is an error.
\<close>

fun decode_fields :: "field list \<Rightarrow> CertificationRequest \<Rightarrow> CertificationRequest option" where
  "decode_fields [] req = Some req"
| "decode_fields (Field k v # fs) req =
     (if fold_name k \<notin> set request_keys then decode_fields fs req
      else case raw_tree v of
        JNull \<Rightarrow> decode_fields fs req
      | JStr s \<Rightarrow> decode_fields fs (set_field k s req)
      | _ \<Rightarrow> None)"

text \<open>\<open>json.NewDecoder(r.Body).Decode(&req)\<close>: the first JSON value of the body; what follows is not read.\<close>

definition decode_request :: "string \<Rightarrow> CertificationRequest option" where
  "decode_request body =
     (let t = skip_ws body in
      case parse_value (2 * length t + 2) 0 t of
        None \<Rightarrow> None
      | Some (v, r) \<Rightarrow>
          (case v of
             JObj fs \<Rightarrow> decode_fields fs zero_request
           | JNull \<Rightarrow> Some zero_request
           | _ \<Rightarrow> None))"

subsection \<open>Handlers\<close>

text \<open>A request as the handlers read it: method, body, path value \<open>id\<close>, URL path, query.\<close>

record portal_request =
  pq_Method :: string
  pq_Body :: string
  pq_PathID :: string
  pq_Path :: string
  pq_Query :: "(string \<times> string) list"

text \<open>\<open>r.URL.Query().Get\<close>.\<close>

definition query_get :: "portal_request \<Rightarrow> string \<Rightarrow> string" where
  "query_get r k = (case map_of (pq_Query r) k of Some v \<Rightarrow> v | None \<Rightarrow> [])"

datatype reply_body =
    ErrorBody string
  | InvalidJSON
  | Queued string
  | OneCertificate Certificate
  | Certificates "Certificate list"
  | Validity bool string
  | Text string

record reply =
  rp_Status :: int
  rp_ContentType :: string
  rp_Body :: reply_body

definition json_reply :: "int \<Rightarrow> reply_body \<Rightarrow> reply" where
  "json_reply status body = \<lparr>rp_Status = status, rp_ContentType = ''application/json'', rp_Body = body\<rparr>"

definition writePortalError :: "int \<Rightarrow> string \<Rightarrow> reply" where
  "writePortalError status message = json_reply status (ErrorBody message)"

definition HandleCertify :: "go_time \<Rightarrow> portal_request \<Rightarrow> CertificationStore \<Rightarrow> reply \<times> CertificationStore" where
  "HandleCertify t r cs =
     (if pq_Method r \<noteq> ''POST'' then (writePortalError 405 ''POST required'', cs)
      else case decode_request (pq_Body r) of
        None \<Rightarrow> (json_reply 400 InvalidJSON, cs)
      | Some req \<Rightarrow>
          (if cr_ServerURL req = [] then (writePortalError 400 ''server_url is required'', cs)
           else if cr_Name req = [] then (writePortalError 400 ''name is required'', cs)
           else let (cert, cs1) = Issue t req 0 0 0 cs in (json_reply 202 (Queued (ct_ID cert)), cs1)))"

definition HandleGetCertificate :: "portal_request \<Rightarrow> CertificationStore \<Rightarrow> reply" where
  "HandleGetCertificate r cs =
     (if pq_PathID r = [] then writePortalError 400 ''certificate id required''
      else case Get cs (pq_PathID r) of
        None \<Rightarrow> writePortalError 404 ''certificate not found''
      | Some cert \<Rightarrow> json_reply 200 (OneCertificate cert))"

definition HandleListCertificates :: "(string list \<Rightarrow> string list) \<Rightarrow> CertificationStore \<Rightarrow> reply" where
  "HandleListCertificates order cs = json_reply 200 (Certificates (List_certs order cs))"

definition HandleVerify :: "go_time \<Rightarrow> portal_request \<Rightarrow> CertificationStore \<Rightarrow> reply" where
  "HandleVerify t r cs =
     (let cid = query_get r ''id''; fp = query_get r ''fingerprint'' in
      if cid = [] \<or> fp = [] then writePortalError 400 ''id and fingerprint are required''
      else json_reply 200 (Validity (Verify t cs cid fp) cid))"

subsection \<open>Badges\<close>

text \<open>\<open>SVG\<close>; lengths count bytes, and \<open>/\<close> of non-negative integers is \<open>div\<close>.\<close>

definition badge_color :: "string \<Rightarrow> string" where
  "badge_color status =
     (if status = ''fail'' then ''#e05d44'' else if status = ''partial'' then ''#dfb317'' else ''#4c1'')"

definition SVG :: "string \<Rightarrow> string \<Rightarrow> string \<Rightarrow> string" where
  \<open>SVG label level status =
     (let color = badge_color status;
          labelWidth = int (length label) * 7 + 10;
          valueWidth = int (length level) * 7 + 10;
          totalWidth = labelWidth + valueWidth
      in
      ''<svg xmlns="http://www.w3.org/2000/svg" width="'' @ show_int totalWidth
      @ ''" height="20" role="img">'' @ [ch 10]
      @ ''  <linearGradient id="s" x2="0" y2="100%"><stop offset="0" stop-color="#bbb" stop-opacity=".1"/><stop offset="1" stop-opacity=".1"/></linearGradient>''
      @ [ch 10] @ ''  <clipPath id="r"><rect width="'' @ show_int totalWidth
      @ ''" height="20" rx="3" fill="#fff"/></clipPath>'' @ [ch 10] @ ''  <g clip-path="url(#r)">''
      @ [ch 10] @ ''    <rect width="'' @ show_int labelWidth @ ''" height="20" fill="#555"/>''
      @ [ch 10] @ ''    <rect x="'' @ show_int labelWidth @ ''" width="'' @ show_int valueWidth
      @ ''" height="20" fill="'' @ color @ ''"/>'' @ [ch 10] @ ''    <rect width="''
      @ show_int totalWidth @ ''" height="20" fill="url(#s)"/>'' @ [ch 10] @ ''  </g>'' @ [ch 10]
      @ ''  <g fill="#fff" text-anchor="middle" font-family="Verdana,Geneva,DejaVu Sans,sans-serif" text-rendering="geometricPrecision" font-size="11">''
      @ [ch 10] @ ''    <text x="'' @ show_int (labelWidth div 2)
      @ ''" y="15" fill="#010101" fill-opacity=".3">'' @ label @ ''</text>'' @ [ch 10]
      @ ''    <text x="'' @ show_int (labelWidth div 2) @ ''" y="14">'' @ label @ ''</text>''
      @ [ch 10] @ ''    <text x="'' @ show_int (labelWidth + valueWidth div 2)
      @ ''" y="15" fill="#010101" fill-opacity=".3">'' @ level @ ''</text>'' @ [ch 10]
      @ ''    <text x="'' @ show_int (labelWidth + valueWidth div 2) @ ''" y="14">'' @ level
      @ ''</text>'' @ [ch 10] @ ''  </g>'' @ [ch 10] @ ''</svg>'')\<close>

text \<open>
  \<open>ServeBadge\<close>; slicing a path shorter than the prefix panics (\<open>None\<close>), which the route
  \<open>GET /badge/\<close> rules out.
\<close>

definition ServeBadge :: "portal_request \<Rightarrow> reply option" where
  "ServeBadge r =
     (if length (pq_Path r) < length ''/badge/'' then None
      else
        let level0 = trimSuffix (drop (length ''/badge/'') (pq_Path r)) ''.svg'';
            level = (if level0 = [] then ''L0-L4'' else level0);
            status = (if query_get r ''status'' = [] then ''pass'' else query_get r ''status'');
            label = (if query_get r ''name'' \<noteq> [] then ''OJS '' @ query_get r ''name'' else ''OJS conformance'')
        in Some \<lparr>rp_Status = 200, rp_ContentType = ''image/svg+xml'', rp_Body = Text (SVG label level status)\<rparr>)"

definition ServeStatus :: reply where
  \<open>ServeStatus = json_reply 200 (Text (
      ''{'' @ [ch 10] @ ''  "service": "OJS Conformance Badge Service",'' @ [ch 10]
      @ ''  "version": "1.0.0",'' @ [ch 10] @ ''  "usage": {'' @ [ch 10]
      @ ''    "badge_url": "/badge/{level}.svg?name={backend_name}&status={pass|fail|partial}",''
      @ [ch 10] @ ''    "examples": ['' @ [ch 10]
      @ ''      "/badge/L0-L4.svg?name=MyBackend&status=pass",'' @ [ch 10]
      @ ''      "/badge/L0-L2.svg?name=CustomImpl&status=partial",'' @ [ch 10]
      @ ''      "/badge/L0.svg?status=fail"'' @ [ch 10] @ ''    ],'' @ [ch 10]
      @ ''    "levels": ["L0", "L0-L1", "L0-L2", "L0-L3", "L0-L4"]'' @ [ch 10] @ ''  }'' @ [ch 10]
      @ ''}''))\<close>

end
