(* ===== verification/Portal_Facts.thy ===== *)
theory Portal_Facts
  imports Portal
begin

text \<open>
  What the certification portal promises: the interface of its store as a locale, the
  consistency of every certificate it ever holds, the meaning of the levels, the life of a
  certificate from certification over an update to its verification, and the listing.
\<close>

subsection \<open>The store as an interface\<close>

locale id_store =
  fixes lookup :: "'s \<Rightarrow> string \<Rightarrow> 'c option"
    and put :: "string \<Rightarrow> 'c \<Rightarrow> 's \<Rightarrow> 's"
    and contents :: "'s \<Rightarrow> (string \<times> 'c) list"
  assumes lookup_put: "lookup (put i c s) j = (if j = i then Some c else lookup s j)"
    and contents_put: "distinct (map fst (contents s)) \<Longrightarrow>
      set (contents (put i c s)) = insert (i, c) {(j, d) \<in> set (contents s). j \<noteq> i}"
    and distinct_put: "distinct (map fst (contents s)) \<Longrightarrow> distinct (map fst (contents (put i c s)))"
    and lookup_contents: "distinct (map fst (contents s)) \<Longrightarrow> lookup s i = Some c \<longleftrightarrow> (i, c) \<in> set (contents s)"
begin

definition all_ok :: "(string \<Rightarrow> 'c \<Rightarrow> bool) \<Rightarrow> 's \<Rightarrow> bool" where
  "all_ok P s \<longleftrightarrow> distinct (map fst (contents s)) \<and> (\<forall>(i, c) \<in> set (contents s). P i c)"

lemma all_ok_put: "all_ok P s \<Longrightarrow> P i c \<Longrightarrow> all_ok P (put i c s)"
  by (auto simp: all_ok_def contents_put distinct_put)

lemma all_ok_lookup: "all_ok P s \<Longrightarrow> lookup s i = Some c \<Longrightarrow> P i c"
  by (auto simp: all_ok_def lookup_contents)

text \<open>Replacing an entry by one that keeps the property.\<close>

lemma all_ok_modify:
  "all_ok P s \<Longrightarrow> lookup s i = Some c \<Longrightarrow> (P i c \<Longrightarrow> P i (g c)) \<Longrightarrow> all_ok P (put i (g c) s)"
  by (blast intro: all_ok_put dest: all_ok_lookup)

lemma lookup_put_same [simp]: "lookup (put i c s) i = Some c"
  by (simp add: lookup_put)

lemma lookup_put_other [simp]: "j \<noteq> i \<Longrightarrow> lookup (put i c s) j = lookup s j"
  by (simp add: lookup_put)

end

lemma set_update: "distinct (map fst kvs) \<Longrightarrow>
  set (AList.update k v kvs) = insert (k, v) {(j, d) \<in> set kvs. j \<noteq> k}"
  by (induction kvs) (auto simp: rev_image_eqI)

interpretation certs: id_store map_of AList.update "\<lambda>cs. cs"
  by unfold_locales (auto simp: update_conv' set_update distinct_update)

subsection \<open>Every certificate is consistent\<close>

text \<open>What changes the store: a certification request, or the results of a conformance run.\<close>

datatype portal_event =
    Certify go_time portal_request
  | Results string int int int

fun portal_step :: "portal_event \<Rightarrow> CertificationStore \<Rightarrow> CertificationStore" where
  "portal_step (Certify t r) cs = snd (HandleCertify t r cs)"
| "portal_step (Results cid p f n) cs =
     (case UpdateCertificate cid p f n cs of None \<Rightarrow> cs | Some cs1 \<Rightarrow> cs1)"

definition cert_ok :: "string \<Rightarrow> Certificate \<Rightarrow> bool" where
  "cert_ok cid c \<longleftrightarrow> ct_ID c = cid \<and> cid = ''cert_'' @ take 16 (ct_Fingerprint c) \<and> length (ct_Fingerprint c) = 64
     \<and> ct_Name c \<noteq> [] \<and> ct_ExpiresAt c = time_add (ct_IssuedAt c) half_year
     \<and> ct_Level c = computeLevel (ct_Passed c) (ct_Total c)
     \<and> ct_Status c = update_status (ct_Passed c) (ct_Failed c)
     \<and> ct_BadgeURL c = badge_url (ct_Level c) (ct_Name c) (ct_Status c)"

lemma Issue_fields:
  assumes "Issue t req p f n cs = (c, cs1)"
  shows "cs1 = AList.update (ct_ID c) c cs \<and> ct_ID c = ''cert_'' @ take 16 (sha256_hex (cert_data req p n t))
    \<and> ct_Name c = cr_Name req \<and> ct_Organization c = cr_Organization req"
  using assms by (auto simp: Issue_def Let_def)

lemma issue_cert_ok:
  assumes "Issue t req p f n cs = (c, cs1)" "cr_Name req \<noteq> []" "issue_status p f = update_status p f"
  shows "cert_ok (ct_ID c) c \<and> cs1 = AList.update (ct_ID c) c cs"
  using assms by (auto simp: Issue_def Let_def cert_ok_def)

lemma portal_step_ok: "certs.all_ok cert_ok cs \<Longrightarrow> certs.all_ok cert_ok (portal_step e cs)"
proof (induction e cs rule: portal_step.induct)
  case (1 t r cs)
  show ?case
  proof (cases "decode_request (pq_Body r)")
    case (Some req)
    obtain c cs1 where i: "Issue t req 0 0 0 cs = (c, cs1)" by (metis prod.exhaust)
    have "issue_status 0 0 = update_status 0 0" by (simp add: issue_status_def update_status_def)
    with issue_cert_ok [OF i] 1 certs.all_ok_put [of cert_ok cs "ct_ID c" c] show ?thesis
      by (auto simp: HandleCertify_def Some i)
  qed (use 1 in \<open>simp add: HandleCertify_def\<close>)
next
  case (2 cid p f n cs)
  show ?case
  proof (cases "map_of cs cid")
    case (Some c)
    then show ?thesis
      using certs.all_ok_modify [OF 2 Some,
          of "\<lambda>c. c\<lparr>ct_Passed := p, ct_Failed := f, ct_Total := n, ct_Level := computeLevel p n,
                    ct_Status := update_status p f,
                    ct_BadgeURL := badge_url (computeLevel p n) (ct_Name c) (update_status p f)\<rparr>"]
      by (simp add: UpdateCertificate_def cert_ok_def Let_def)
  qed (use 2 in \<open>simp add: UpdateCertificate_def\<close>)
qed

lemma portal_steps_ok: "certs.all_ok cert_ok cs \<Longrightarrow> certs.all_ok cert_ok (fold portal_step es cs)"
  by (induction es arbitrary: cs) (simp_all add: portal_step_ok)

text \<open>C29. After any sequence of certification requests and results, every certificate in the store stands
  under its own id, which is derived from its fingerprint, expires 180 days after it was issued,
  and its level, status and badge belong to its counts.\<close>

theorem portal_certificates_consistent:
  "let cs = fold portal_step es [] in
     distinct (map fst cs) \<and> list_all (\<lambda>(cid, c). cert_ok cid c) cs"
proof -
  have "certs.all_ok cert_ok []" by (simp add: certs.all_ok_def)
  from portal_steps_ok [OF this] show ?thesis by (auto simp: certs.all_ok_def list_all_iff)
qed

subsection \<open>Levels\<close>

lemma ratio_ge_iff:
  assumes "0 \<le> p" "p \<le> 2 ^ 53" "0 < t" "t \<le> 2 ^ 48" "0 < k" "k \<le> 10"
  shows "f64_ge (f64_div (f64_of_int p) (f64_of_int t)) (f64_round (of_int k / 10)) \<longleftrightarrow> k * t \<le> 10 * p"
proof -
  have r: "f64_div (f64_of_int p) (f64_of_int t) = f64_round (of_int p / of_int t)"
    using assms by (intro f64_div_ints) auto
  show ?thesis
  proof (cases "k * t \<le> 10 * p")
    case True
    then have "(of_int k :: rat) / 10 \<le> of_int p / of_int t"
    proof -
      have "(of_int (k * t) :: rat) \<le> of_int (10 * p)" using True by (simp only: of_int_le_iff)
      then show ?thesis using assms by (simp add: field_simps)
    qed
    then have "f64_le (f64_round (of_int k / 10)) (f64_round (of_int p / of_int t))" by (rule f64_round_mono)
    with True show ?thesis by (simp add: r f64_ge_def)
  next
    case False
    have "(of_int p :: rat) / of_int t + 1 / (10 * of_int t) \<le> of_int k / 10"
    proof -
      have "10 * p + 1 \<le> k * t" using False by simp
      then have "(of_int (10 * p + 1) :: rat) \<le> of_int (k * t)" by (simp only: of_int_le_iff)
      then show ?thesis using assms by (simp add: field_simps)
    qed
    moreover have "2 powi (- 52) < (1 :: rat) / (10 * of_int t)"
    proof -
      have "(of_int t :: rat) \<le> of_int (2 ^ 48)" using assms(4) by (simp only: of_int_le_iff)
      then have "10 * (of_int t :: rat) < 2 ^ 52" by simp
      moreover have "0 < (of_int t :: rat)" using assms by simp
      moreover have "(2 :: rat) powi (- 52) = 1 / 2 ^ 52" by (simp add: power_int_def power_one_over)
      ultimately show ?thesis by (simp add: divide_simps)
    qed
    ultimately have gap: "(of_int p :: rat) / of_int t + 2 powi (- 52) < of_int k / 10" by linarith
    have "(of_int k :: rat) \<le> of_int 10" using assms(6) by (simp only: of_int_le_iff)
    then have "(of_int k :: rat) / 10 \<le> 1" by simp
    moreover have "(0 :: rat) \<le> of_int p / of_int t" using assms by simp
    ultimately have "f64_lt (f64_round (of_int p / of_int t)) (f64_round (of_int k / 10))"
      using gap by (intro f64_round_separates)
    with False show ?thesis by (auto simp: r f64_ge_def f64_le_def) 
  qed
qed

text \<open>C32. The level of a certificate depends on the share of passed tests, with the exact thresholds 40,
  60, 80 and 100 percent, floating-point division notwithstanding.\<close>

theorem compute_level_thresholds:
  assumes "0 \<le> p" "p \<le> 2 ^ 53" "0 < t" "t \<le> 2 ^ 48"
  shows "computeLevel p t =
    (if t \<le> p then ''L0-L4'' else if 8 * t \<le> 10 * p then ''L0-L3''
     else if 6 * t \<le> 10 * p then ''L0-L2'' else if 4 * t \<le> 10 * p then ''L0-L1'' else ''L0'')"
  using assms ratio_ge_iff [OF assms, of 10] ratio_ge_iff [OF assms, of 8] ratio_ge_iff [OF assms, of 6]
    ratio_ge_iff [OF assms, of 4]
  by (simp add: computeLevel_def Let_def)

theorem compute_level_thresholds_witness:
  "computeLevel 139 175 = ''L0-L2'' \<and> computeLevel 140 175 = ''L0-L3''"
  by (subst compute_level_thresholds; simp)+

subsection \<open>The life of a certificate\<close>

lemma HandleCertify_accepts:
  assumes "pq_Method r = ''POST''" "decode_request (pq_Body r) = Some req" "cr_ServerURL req \<noteq> []" "cr_Name req \<noteq> []"
  shows "HandleCertify t r cs =
    (let (c, cs1) = Issue t req 0 0 0 cs in (json_reply 202 (Queued (ct_ID c)), cs1))"
  using assms by (simp add: HandleCertify_def)

theorem certify_outcomes:
  "let (rep, cs') = HandleCertify t r cs; ok = (pq_Method r = ''POST'' \<and>
      (case decode_request (pq_Body r) of None \<Rightarrow> False | Some req \<Rightarrow> cr_ServerURL req \<noteq> [] \<and> cr_Name req \<noteq> [])) in
   rp_Status rep = (if ok then 202 else if pq_Method r = ''POST'' then 400 else 405) \<and> (ok \<or> cs' = cs)"
  by (auto simp: HandleCertify_def writePortalError_def json_reply_def split: option.splits prod.splits)

text \<open>
  The certificate that a request is answered with can be fetched, is marked as failed until
  results arrive, and its fingerprint verifies for 180 days, whatever results are filed in
  the meantime: an update does not renew the fingerprint.
\<close>

text \<open>C33. A certificate that was requested can be fetched and is marked as failed until results are filed;
  then it shows the three counts and the status, level and badge that follow from them, no other
  certificate changes, and its fingerprint, which an update does not renew, verifies until 180
  days after the request.\<close>

theorem certificate_life:
  assumes "HandleCertify t r cs = (json_reply 202 (Queued cid), cs1)" "UpdateCertificate cid p f n cs1 = Some cs2"
  shows "\<exists>c c2. HandleGetCertificate (r\<lparr>pq_PathID := cid\<rparr>) cs1 = json_reply 200 (OneCertificate c)
      \<and> ct_Status c = ''fail'' \<and> ct_Level c = ''L0''
      \<and> HandleGetCertificate (r\<lparr>pq_PathID := cid\<rparr>) cs2 = json_reply 200 (OneCertificate c2)
      \<and> ct_Passed c2 = p \<and> ct_Failed c2 = f \<and> ct_Total c2 = n
      \<and> ct_Status c2 = (if f = 0 \<and> 0 < p then ''pass'' else if 0 < p then ''partial'' else ''fail'')
      \<and> ct_Level c2 = computeLevel p n \<and> ct_BadgeURL c2 = badge_url (ct_Level c2) (ct_Name c2) (ct_Status c2)
      \<and> ct_ID c2 = cid \<and> ct_Name c2 = ct_Name c \<and> ct_Fingerprint c2 = ct_Fingerprint c
      \<and> Verify now cs2 cid (ct_Fingerprint c) = (gt_ns now < gt_ns t + half_year)
      \<and> (\<forall>j. j \<noteq> cid \<longrightarrow> Get cs2 j = Get cs j)"
proof -
  obtain req where req: "decode_request (pq_Body r) = Some req" "cr_ServerURL req \<noteq> []" "cr_Name req \<noteq> []"
    "pq_Method r = ''POST''"
    using assms(1) by (auto simp: HandleCertify_def writePortalError_def json_reply_def split: if_splits option.splits)
  obtain c cs' where i: "Issue t req 0 0 0 cs = (c, cs')" by (metis prod.exhaust)
  have cs1: "cid = ct_ID c" "cs1 = AList.update cid c cs"
    using assms(1) i issue_cert_ok [OF i req(3)]
    by (auto simp: HandleCertify_accepts [OF req(4,1,2,3)] json_reply_def issue_status_def update_status_def)
  have c: "ct_Status c = ''fail''" "ct_Level c = ''L0''" "ct_ExpiresAt c = time_add t half_year" "cid \<noteq> []"
    using i cs1(1) by (auto simp: Issue_def Let_def issue_status_def computeLevel_def)
  let ?c2 = "c\<lparr>ct_Passed := p, ct_Failed := f, ct_Total := n, ct_Level := computeLevel p n,
      ct_Status := update_status p f, ct_BadgeURL := badge_url (computeLevel p n) (ct_Name c) (update_status p f)\<rparr>"
  have cs2: "cs2 = AList.update cid ?c2 cs1"
    using assms(2) by (simp add: UpdateCertificate_def cs1(2) Let_def)
  have "HandleGetCertificate (r\<lparr>pq_PathID := cid\<rparr>) cs1 = json_reply 200 (OneCertificate c)"
    "HandleGetCertificate (r\<lparr>pq_PathID := cid\<rparr>) cs2 = json_reply 200 (OneCertificate ?c2)"
    using c(4) by (simp_all add: HandleGetCertificate_def Get_def cs1(2) cs2)
  moreover have "Verify now cs2 cid (ct_Fingerprint c) = (gt_ns now < gt_ns t + half_year)"
    using c(3) by (simp add: Verify_def cs2 time_add_def)
  moreover have "\<forall>j. j \<noteq> cid \<longrightarrow> Get cs2 j = Get cs j"
    by (simp add: Get_def cs2 cs1(2))
  ultimately show ?thesis
    by (intro exI [of _ c] exI [of _ ?c2]) (simp add: c cs1(1) update_status_def)
qed

definition sample_body :: string where
  \<open>sample_body = ''{"server_url":"u","name":"n"}''\<close>

definition sample_certify :: portal_request where
  "sample_certify = \<lparr>pq_Method = ''POST'', pq_Body = sample_body, pq_PathID = [], pq_Path = ''/api/certify'', pq_Query = []\<rparr>"

lemma decode_sample: "decode_request sample_body = Some (zero_request\<lparr>cr_ServerURL := ''u'', cr_Name := ''n''\<rparr>)"
  by code_simp

lemma decode_certify:
  "decode_request (pq_Body sample_certify) = Some (zero_request\<lparr>cr_ServerURL := ''u'', cr_Name := ''n''\<rparr>)"
  by (simp add: sample_certify_def decode_sample)

theorem certificate_life_witness:
  "let (c, cs1) = Issue \<lparr>gt_ns = 0, gt_off = 0\<rparr> (zero_request\<lparr>cr_ServerURL := ''u'', cr_Name := ''n''\<rparr>) 0 0 0 [] in
   \<exists>c2. HandleGetCertificate (sample_certify\<lparr>pq_PathID := ct_ID c\<rparr>) (the (UpdateCertificate (ct_ID c) 7 1 9 cs1))
          = json_reply 200 (OneCertificate c2)
      \<and> ct_Status c2 = ''partial'' \<and> ct_Passed c2 = 7 \<and> ct_Failed c2 = 1 \<and> ct_Total c2 = 9
      \<and> Verify \<lparr>gt_ns = 5, gt_off = 0\<rparr> (the (UpdateCertificate (ct_ID c) 7 1 9 cs1)) (ct_ID c) (ct_Fingerprint c2)"
proof -
  let ?t = "\<lparr>gt_ns = 0, gt_off = 0\<rparr>" let ?now = "\<lparr>gt_ns = 5, gt_off = 0\<rparr>"
  obtain c cs1 where i: "Issue ?t (zero_request\<lparr>cr_ServerURL := ''u'', cr_Name := ''n''\<rparr>) 0 0 0 [] = (c, cs1)"
    by (metis prod.exhaust)
  have h: "HandleCertify ?t sample_certify [] = (json_reply 202 (Queued (ct_ID c)), cs1)"
    by (subst HandleCertify_accepts [OF _ decode_certify]) (simp_all add: i, simp_all add: sample_certify_def)
  have "map_of cs1 (ct_ID c) = Some c" using i by (auto simp: Issue_def Let_def)
  then obtain cs2 where u: "UpdateCertificate (ct_ID c) 7 1 9 cs1 = Some cs2"
    by (simp add: UpdateCertificate_def Let_def)
  show ?thesis
    using certificate_life [OF h u, of ?now]
    by (elim exE conjE) (simp add: i u half_year_def json_reply_def)
qed

subsection \<open>Identifiers\<close>

lemma rfc3339_same_second:
  "gt_off t = gt_off t' \<Longrightarrow> gt_ns t div 10 ^ 9 = gt_ns t' div 10 ^ 9 \<Longrightarrow> rfc3339 t = rfc3339 t'"
  by (simp add: rfc3339_def)

text \<open>
  The id depends on the name and the URL only through their concatenation, and on the time
  only in whole seconds: a second request that agrees in these replaces the first certificate.
\<close>

theorem certify_same_second_overwrites:
  assumes "cr_Name r1 @ '':'' @ cr_ServerURL r1 = cr_Name r2 @ '':'' @ cr_ServerURL r2"
    "gt_off t1 = gt_off t2" "gt_ns t1 div 10 ^ 9 = gt_ns t2 div 10 ^ 9"
    "Issue t1 r1 p f n cs = (c1, cs1)" "Issue t2 r2 p f n cs1 = (c2, cs2)"
  shows "ct_ID c1 = ct_ID c2 \<and> Get cs2 (ct_ID c1) = Some c2 \<and> map fst cs2 = map fst cs1
    \<and> ct_Name c2 = cr_Name r2 \<and> ct_Organization c2 = cr_Organization r2"
proof -
  have "rfc3339 t1 = rfc3339 t2" using assms(2,3) by (rule rfc3339_same_second)
  then have "cert_data r1 p n t1 = cert_data r2 p n t2"
    using arg_cong [OF assms(1), of "\<lambda>s. s @ rest" for rest] by (simp add: cert_data_def)
  then have "ct_ID c1 = ct_ID c2" using Issue_fields [OF assms(4)] Issue_fields [OF assms(5)] by simp
  moreover have "map fst (AList.update k v (AList.update k u cs)) = map fst (AList.update k u cs)" for k u v
    by (simp only: update_keys split: if_split) simp
  ultimately show ?thesis
    using Issue_fields [OF assms(4)] Issue_fields [OF assms(5)] by (simp add: Get_def)
qed

theorem certify_same_second_overwrites_witness:
  "let r = (\<lambda>o'. zero_request\<lparr>cr_ServerURL := ''u'', cr_Name := ''n'', cr_Organization := o'\<rparr>);
       (c1, cs1) = Issue \<lparr>gt_ns = 1000, gt_off = 0\<rparr> (r ''first'') 0 0 0 [];
       (c2, cs2) = Issue \<lparr>gt_ns = 2000, gt_off = 0\<rparr> (r ''second'') 0 0 0 cs1
   in map_option ct_Organization (Get cs2 (ct_ID c1)) = Some ''second''"
proof -
  define r where "r = (\<lambda>o'. zero_request\<lparr>cr_ServerURL := ''u'', cr_Name := ''n'', cr_Organization := o'\<rparr>)"
  obtain c1 cs1 where 1: "Issue \<lparr>gt_ns = 1000, gt_off = 0\<rparr> (r ''first'') 0 0 0 [] = (c1, cs1)" by (metis prod.exhaust)
  obtain c2 cs2 where 2: "Issue \<lparr>gt_ns = 2000, gt_off = 0\<rparr> (r ''second'') 0 0 0 cs1 = (c2, cs2)" by (metis prod.exhaust)
  from certify_same_second_overwrites [OF _ _ _ 1 2] have "Get cs2 (ct_ID c1) = Some c2" "ct_Organization c2 = ''second''"
    by (auto simp: r_def)
  then show ?thesis unfolding r_def [symmetric] by (simp add: 1 2)
qed

subsection \<open>The listing\<close>

lemma map_filter_map_of:
  "distinct (map fst cs) \<Longrightarrow> List.map_filter (map_of cs) (map fst cs) = map snd cs"
proof -
  assume d: "distinct (map fst cs)"
  then have "map (map_of cs) (map fst cs) = map (Some \<circ> snd) cs"
    by (auto simp: comp_def intro!: map_cong)
  then show ?thesis unfolding List.map_filter_def
    by (simp add: filter_map comp_def)
qed

lemma mset_map_filter: "mset xs = mset ys \<Longrightarrow> mset (List.map_filter f xs) = mset (List.map_filter f ys)"
  by (simp add: List.map_filter_def mset_filter del: not_None_eq)

theorem list_newest_first:
  assumes "\<And>ks. mset (order ks) = mset ks"
  shows "let cs = fold portal_step es []; l = List_certs order cs in
     mset l = mset (map snd cs) \<and> sorted_wrt (\<lambda>a b. gt_ns (ct_IssuedAt b) \<le> gt_ns (ct_IssuedAt a)) l"
proof -
  let ?cs = "fold portal_step es []"
  have "certs.all_ok cert_ok []" by (simp add: certs.all_ok_def)
  from portal_steps_ok [OF this] have "distinct (map fst ?cs)" by (simp add: certs.all_ok_def)
  then have "mset (List_certs order ?cs) = mset (map snd ?cs)"
    using mset_map_filter [OF assms, of "map_of ?cs" "map fst ?cs"]
    by (simp add: List_certs_def map_filter_map_of)
  moreover have "sorted_wrt (\<lambda>a b. gt_ns (ct_IssuedAt b) \<le> gt_ns (ct_IssuedAt a)) (List_certs order ?cs)"
    using sorted_sort_key [of "\<lambda>c. - gt_ns (ct_IssuedAt c)"]
    by (simp add: List_certs_def sorted_map)
  ultimately show ?thesis by (simp add: Let_def)
qed

theorem list_newest_first_witness:
  "let cs = fold portal_step [Certify \<lparr>gt_ns = 0, gt_off = 0\<rparr> sample_certify, Certify \<lparr>gt_ns = 10 ^ 10, gt_off = 0\<rparr> sample_certify] [];
       l = List_certs rev cs in
   mset l = mset (map snd cs) \<and> sorted_wrt (\<lambda>a b. gt_ns (ct_IssuedAt b) \<le> gt_ns (ct_IssuedAt a)) l"
  by (rule list_newest_first) simp

subsection \<open>Badges\<close>

text \<open>The badge URL of a certificate, split as a server splits it, shows the certificate.\<close>

theorem badge_of_certificate:
  assumes "cert_ok cid c" "pq_Path r = ''/badge/'' @ ct_Level c @ ''.svg''"
    "query_get r ''name'' = ct_Name c" "query_get r ''status'' = ct_Status c"
  shows "ct_BadgeURL c = pq_Path r @ ''?name='' @ ct_Name c @ ''&status='' @ ct_Status c
    \<and> map_option rp_Body (ServeBadge r) = Some (Text (SVG (''OJS '' @ ct_Name c) (ct_Level c) (ct_Status c)))"
proof -
  have "ct_Level c \<noteq> []" using assms(1) by (simp add: cert_ok_def computeLevel_def Let_def)
  moreover have "ct_Name c \<noteq> []" "ct_Status c \<noteq> []" using assms(1) by (auto simp: cert_ok_def update_status_def)
  moreover have "trimSuffix (ct_Level c @ ''.svg'') ''.svg'' = ct_Level c"
    by (simp add: trimSuffix_def hasSuffix_def)
  ultimately show ?thesis
    using assms by (simp add: ServeBadge_def cert_ok_def badge_url_def)
qed

theorem badge_of_certificate_witness:
  "map_option rp_Body (ServeBadge \<lparr>pq_Method = ''GET'', pq_Body = [], pq_PathID = [], pq_Path = ''/badge/L0.svg'',
      pq_Query = [(''name'', ''n''), (''status'', ''fail'')]\<rparr>) = Some (Text (SVG ''OJS n'' ''L0'' ''fail''))"
proof -
  obtain c cs where i: "Issue \<lparr>gt_ns = 0, gt_off = 0\<rparr> (zero_request\<lparr>cr_Name := ''n''\<rparr>) 0 0 0 [] = (c, cs)"
    by (metis prod.exhaust)
  then have c: "cert_ok (ct_ID c) c" "ct_Name c = ''n''"
    using issue_cert_ok [OF i] Issue_fields [OF i] by (simp_all add: issue_status_def update_status_def)
  have "ct_Level c = ''L0''" "ct_Status c = ''fail''"
    using i by (auto simp: Issue_def Let_def computeLevel_def issue_status_def)
  then show ?thesis
    using badge_of_certificate [OF c(1), of "\<lparr>pq_Method = ''GET'', pq_Body = [], pq_PathID = [], pq_Path = ''/badge/L0.svg'',
      pq_Query = [(''name'', ''n''), (''status'', ''fail'')]\<rparr>"] c(2)
    by (simp add: query_get_def)
qed

end
