(* ===== verification/PortalServer.thy ===== *)
theory PortalServer
  imports Go_Mux Portal_Facts
begin

text \<open>
  The portal as a server: the routes of \<open>RegisterRoutes\<close> (badge/portal.go) and of
  cmd/portal/main.go, what a request does to the store, and the program from its environment to
  its exit code. net/http rejects a request whose path has a malformed percent sign; the body
  of the answer to a HEAD request, which net/http drops, is kept here.
\<close>

subsection \<open>Routes\<close>

datatype portal_handler = HCertify | HGetCertificate | HListCertificates | HVerify | HBadge | HStatus | HHealth

definition RegisterRoutes :: "portal_handler pattern list" where
  "RegisterRoutes =
     [\<lparr>pa_Method = ''POST'', pa_Segs = [Lit ''api'', Lit ''certify''], pa_Handler = HCertify\<rparr>,
      \<lparr>pa_Method = ''GET'', pa_Segs = [Lit ''api'', Lit ''certificates'', Wild], pa_Handler = HGetCertificate\<rparr>,
      \<lparr>pa_Method = ''GET'', pa_Segs = [Lit ''api'', Lit ''certificates''], pa_Handler = HListCertificates\<rparr>,
      \<lparr>pa_Method = ''GET'', pa_Segs = [Lit ''api'', Lit ''verify''], pa_Handler = HVerify\<rparr>,
      \<lparr>pa_Method = ''GET'', pa_Segs = [Lit ''badge'', Rest], pa_Handler = HBadge\<rparr>,
      \<lparr>pa_Method = ''GET'', pa_Segs = [Lit ''status''], pa_Handler = HStatus\<rparr>]"

definition portal_routes :: "portal_handler pattern list" where
  "portal_routes = RegisterRoutes @ [\<lparr>pa_Method = ''GET'', pa_Segs = [Lit ''healthz''], pa_Handler = HHealth\<rparr>]"

definition serve_health :: reply where
  \<open>serve_health = json_reply 200 (Text ''{"status":"ok","service":"ojs-conformance-portal"}'')\<close>

text \<open>A request: method, path as sent, query and body.\<close>

record http_request =
  hq_Method :: string
  hq_Path :: string
  hq_Query :: "(string \<times> string) list"
  hq_Body :: string

datatype served = Answer reply | Moved string | Refused int | Panicked

definition as_portal_request :: "http_request \<Rightarrow> string \<Rightarrow> string list \<Rightarrow> portal_request" where
  "as_portal_request r decoded vs =
     \<lparr>pq_Method = hq_Method r, pq_Body = hq_Body r, pq_PathID = (case vs of [] \<Rightarrow> [] | v # _ \<Rightarrow> v),
      pq_Path = decoded, pq_Query = hq_Query r\<rparr>"

definition run_handler :: "go_time \<Rightarrow> (string list \<Rightarrow> string list) \<Rightarrow> portal_handler \<Rightarrow> portal_request
    \<Rightarrow> CertificationStore \<Rightarrow> served \<times> CertificationStore" where
  "run_handler t order h r cs =
     (case h of
        HCertify \<Rightarrow> (let (rep, cs1) = HandleCertify t r cs in (Answer rep, cs1))
      | HGetCertificate \<Rightarrow> (Answer (HandleGetCertificate r cs), cs)
      | HListCertificates \<Rightarrow> (Answer (HandleListCertificates order cs), cs)
      | HVerify \<Rightarrow> (Answer (HandleVerify t r cs), cs)
      | HBadge \<Rightarrow> (case ServeBadge r of None \<Rightarrow> Panicked | Some rep \<Rightarrow> Answer rep, cs)
      | HStatus \<Rightarrow> (Answer ServeStatus, cs)
      | HHealth \<Rightarrow> (Answer serve_health, cs))"

definition portal_serve :: "go_time \<Rightarrow> (string list \<Rightarrow> string list) \<Rightarrow> http_request \<Rightarrow> CertificationStore
    \<Rightarrow> served \<times> CertificationStore" where
  "portal_serve t order r cs =
     (case unescape (hq_Path r) of
        None \<Rightarrow> (Refused 400, cs)
      | Some decoded \<Rightarrow>
          (case findHandler portal_routes (hq_Method r) (hq_Path r) decoded of
             Handler h vs \<Rightarrow> run_handler t order h (as_portal_request r decoded vs) cs
           | MovedTo p \<Rightarrow> (Moved p, cs)
           | MethodNotAllowed \<Rightarrow> (Refused 405, cs)
           | NotFound \<Rightarrow> (Refused 404, cs)))"

subsection \<open>The program\<close>

text \<open>The default, the environment variable, the second argument behind \<open>-addr\<close>.\<close>

definition portal_addr :: "(string \<Rightarrow> string) \<Rightarrow> string list \<Rightarrow> string" where
  "portal_addr getenv args =
     (let addr = (if getenv ''PORTAL_ADDR'' \<noteq> [] then getenv ''PORTAL_ADDR'' else '':8090'')
      in case args of a # b # _ \<Rightarrow> (if a = ''-addr'' then b else addr) | _ \<Rightarrow> addr)"

text \<open>How the server ends: it cannot listen, or a signal asks it to shut down, with the error of that.\<close>

datatype server_end = ListenFailed string | Signalled "string option"

datatype log_line = PortalStarting string | ServerError string | ShuttingDown | ShutdownError string

text \<open>Exit code, log and what is printed at the end.\<close>

definition portal_main :: "(string \<Rightarrow> string) \<Rightarrow> string list \<Rightarrow> server_end \<Rightarrow> int \<times> log_line list \<times> string" where
  "portal_main getenv args e =
     (let start = PortalStarting (portal_addr getenv args) in
      case e of
        ListenFailed err \<Rightarrow> (1, [start, ServerError err], [])
      | Signalled err \<Rightarrow>
          (0, [start, ShuttingDown] @ (case err of None \<Rightarrow> [] | Some x \<Rightarrow> [ShutdownError x]),
           ''portal stopped'' @ [ch 10]))"

subsection \<open>What requests do\<close>

lemma routes_handler:
  assumes "findHandler portal_routes m p decoded = Handler h vs"
  shows "(h = HCertify \<longrightarrow> m = ''POST'' \<and> (\<exists>a b. path_segs p = Some [a, b] \<and> seg_text a = ''api'' \<and> seg_text b = ''certify''))
    \<and> (h \<noteq> HCertify \<longrightarrow> m = ''GET'' \<or> m = ''HEAD'')"
proof -
  obtain pt ss where pt: "pt \<in> set portal_routes" "pa_Handler pt = h" "method_match (pa_Method pt) m"
    "path_segs p = Some ss" "segs_match (pa_Segs pt) ss"
    using routed_handler [OF assms] by blast
  have two: "segs_match [Lit a, Lit b] ss \<Longrightarrow> \<exists>x y. ss = [x, y] \<and> seg_text x = a \<and> seg_text y = b" for a b
    by (cases ss; cases "tl ss") auto
  show ?thesis using pt two by (auto simp: portal_routes_def RegisterRoutes_def method_match_def)
qed

lemma handler_store: "run_handler t order h r cs = (out, cs1) \<Longrightarrow> cs1 = (if h = HCertify then snd (HandleCertify t r cs) else cs)"
  by (auto simp: run_handler_def split: portal_handler.splits prod.splits)

text \<open>A request acts on the store as a certification, or not at all.\<close>

definition certify_path :: "string \<Rightarrow> bool" where
  "certify_path p \<longleftrightarrow> p = cleanPath p \<and> map_option (map seg_text) (path_segs p) = Some [''api'', ''certify'']"

lemma serve_store:
  "snd (portal_serve t order r cs) = cs \<or>
   (\<exists>pr. pq_Method pr = hq_Method r \<and> pq_Body pr = hq_Body r \<and> hq_Method r = ''POST'' \<and> certify_path (hq_Path r)
      \<and> portal_serve t order r cs = (Answer (fst (HandleCertify t pr cs)), snd (HandleCertify t pr cs)))"
proof (cases "unescape (hq_Path r)")
  case (Some decoded)
  show ?thesis
  proof (cases "findHandler portal_routes (hq_Method r) (hq_Path r) decoded")
    case h: (Handler h vs)
    show ?thesis
    proof (cases "h = HCertify")
      case True
      have m: "hq_Method r = ''POST''" using routes_handler [OF h] True by blast
      then have "cleanPath (hq_Path r) = hq_Path r" using h by (auto simp: findHandler_def Let_def split: if_splits)
      then have "certify_path (hq_Path r)" using routes_handler [OF h] True by (auto simp: certify_path_def)
      with m True Some h show ?thesis
        by (intro disjI2 exI [of _ "as_portal_request r decoded vs"])
          (auto simp: portal_serve_def run_handler_def as_portal_request_def split: prod.split)
    next
      case False
      with Some h handler_store [of t order h "as_portal_request r decoded vs" cs] show ?thesis
        by (cases "run_handler t order h (as_portal_request r decoded vs) cs") (simp add: portal_serve_def)
    qed
  qed (simp_all add: portal_serve_def Some)
qed (simp add: portal_serve_def)

lemma certify_writes:
  assumes "snd (HandleCertify t pr cs) \<noteq> cs"
  shows "\<exists>req c cs1. decode_request (pq_Body pr) = Some req \<and> cr_ServerURL req \<noteq> [] \<and> cr_Name req \<noteq> []
     \<and> Issue t req 0 0 0 cs = (c, cs1) \<and> HandleCertify t pr cs = (json_reply 202 (Queued (ct_ID c)), cs1)"
  using assms by (auto simp: HandleCertify_def split: if_splits option.splits prod.splits)

text \<open>C30. Whatever is requested from the portal, its store changes only by a POST with the path of the
  certification endpoint whose body names a server and a name; the answer is then 202 and the
  store has one certificate more or renewed.\<close>

theorem only_certification_writes:
  assumes "portal_serve t order r cs = (out, cs1)" "cs1 \<noteq> cs"
  shows "hq_Method r = ''POST'' \<and> certify_path (hq_Path r)
    \<and> (\<exists>req c. decode_request (hq_Body r) = Some req \<and> cr_ServerURL req \<noteq> [] \<and> cr_Name req \<noteq> []
        \<and> out = Answer (json_reply 202 (Queued (ct_ID c))) \<and> cs1 = AList.update (ct_ID c) c cs)"
proof -
  obtain pr where pr: "pq_Body pr = hq_Body r" "hq_Method r = ''POST''" "certify_path (hq_Path r)"
    "portal_serve t order r cs = (Answer (fst (HandleCertify t pr cs)), snd (HandleCertify t pr cs))"
    using serve_store [of t order r cs] assms by auto
  then obtain req c cs2 where w: "decode_request (hq_Body r) = Some req" "cr_ServerURL req \<noteq> []" "cr_Name req \<noteq> []"
    "Issue t req 0 0 0 cs = (c, cs2)" "HandleCertify t pr cs = (json_reply 202 (Queued (ct_ID c)), cs2)"
    using certify_writes [of t pr cs] assms by auto
  then have "cs2 = AList.update (ct_ID c) c cs" using Issue_fields by blast
  with pr w assms(1) show ?thesis by auto
qed

definition sample_request :: http_request where
  "sample_request = \<lparr>hq_Method = ''POST'', hq_Path = ''/api/certify'', hq_Query = [], hq_Body = sample_body\<rparr>"

lemma sample_served:
  "\<exists>c :: Certificate. portal_serve \<lparr>gt_ns = 0, gt_off = 0\<rparr> (\<lambda>ks. ks) sample_request []
     = (Answer (json_reply 202 (Queued (ct_ID c))), [(ct_ID c, c)])"
proof -
  let ?t = "\<lparr>gt_ns = 0, gt_off = 0\<rparr>" and ?pr = "as_portal_request sample_request ''/api/certify'' []"
  have f: "unescape (hq_Path sample_request) = Some ''/api/certify''"
    "findHandler portal_routes (hq_Method sample_request) (hq_Path sample_request) ''/api/certify'' = Handler HCertify []"
    by code_simp+
  obtain c cs2 where i: "Issue ?t (zero_request\<lparr>cr_ServerURL := ''u'', cr_Name := ''n''\<rparr>) 0 0 0 [] = (c, cs2)"
    by (metis prod.exhaust)
  have pr: "pq_Method ?pr = ''POST''" "pq_Body ?pr = sample_body" by (simp_all add: as_portal_request_def sample_request_def)
  have "portal_serve ?t (\<lambda>ks. ks) sample_request [] = run_handler ?t (\<lambda>ks. ks) HCertify ?pr []"
    by (simp add: portal_serve_def f)
  then show ?thesis using i Issue_fields [OF i] decode_sample by (auto simp: run_handler_def HandleCertify_def pr)
qed

theorem only_certification_writes_witness:
  "\<exists>c :: Certificate. fst (portal_serve \<lparr>gt_ns = 0, gt_off = 0\<rparr> (\<lambda>ks. ks) sample_request []) = Answer (json_reply 202 (Queued (ct_ID c)))"
proof -
  obtain c :: Certificate where s: "portal_serve \<lparr>gt_ns = 0, gt_off = 0\<rparr> (\<lambda>ks. ks) sample_request [] =
      (Answer (json_reply 202 (Queued (ct_ID c))), [(ct_ID c, c)])"
    using sample_served by blast
  from only_certification_writes [OF s] s show ?thesis by auto
qed

subsection \<open>What the portal can ever show\<close>

definition pending :: "Certificate \<Rightarrow> bool" where
  "pending c \<longleftrightarrow> ct_Status c = ''fail'' \<and> ct_Level c = ''L0'' \<and> ct_Passed c = 0 \<and> ct_Failed c = 0 \<and> ct_Total c = 0"

definition shows_pending :: "served \<Rightarrow> bool" where
  "shows_pending out =
     (case out of
        Answer rep \<Rightarrow>
          (case rp_Body rep of
             OneCertificate c \<Rightarrow> pending c
           | Certificates cs \<Rightarrow> list_all pending cs
           | _ \<Rightarrow> True)
      | _ \<Rightarrow> True)"

type_synonym portal_visit = "go_time \<times> (string list \<Rightarrow> string list) \<times> http_request"

definition visits :: "portal_visit list \<Rightarrow> CertificationStore \<Rightarrow> CertificationStore" where
  "visits vs cs = fold (\<lambda>(t, order, r) cs. snd (portal_serve t order r cs)) vs cs"

lemma serve_pending:
  assumes "certs.all_ok (\<lambda>cid. pending) cs"
  shows "certs.all_ok (\<lambda>cid. pending) (snd (portal_serve t order r cs))"
proof (cases "snd (portal_serve t order r cs) = cs")
  case False
  then obtain pr where pr: "snd (portal_serve t order r cs) = snd (HandleCertify t pr cs)"
    using serve_store [of t order r cs] by auto
  with False obtain req c cs2 where w: "Issue t req 0 0 0 cs = (c, cs2)" "snd (portal_serve t order r cs) = cs2"
    using certify_writes [of t pr cs] by auto
  then have "cs2 = AList.update (ct_ID c) c cs" "pending c"
    by (auto simp: Issue_def Let_def pending_def issue_status_def computeLevel_def)
  with assms w show ?thesis by (simp add: certs.all_ok_put)
qed (simp add: assms)

lemma visits_pending: "certs.all_ok (\<lambda>cid. pending) cs \<Longrightarrow> certs.all_ok (\<lambda>cid. pending) (visits vs cs)"
  unfolding visits_def by (induction vs arbitrary: cs) (auto simp: serve_pending)

lemma answer_pending:
  assumes "certs.all_ok (\<lambda>cid. pending) cs"
  shows "shows_pending (fst (portal_serve t order r cs))"
proof -
  have look: "map_of cs cid = Some c \<Longrightarrow> pending c" for cid c using certs.all_ok_lookup [OF assms] by blast
  have "list_all pending (List_certs order cs)"
    by (auto simp: List_certs_def list_all_iff List.map_filter_def look)
  then have "shows_pending (fst (run_handler t order h pr cs))" for h pr
    by (cases h) (auto simp: run_handler_def shows_pending_def HandleCertify_def HandleGetCertificate_def Get_def look
        HandleListCertificates_def HandleVerify_def ServeBadge_def ServeStatus_def serve_health_def writePortalError_def
        json_reply_def Let_def split: prod.split option.split)
  then show ?thesis
    by (auto simp: portal_serve_def shows_pending_def [of "Refused _"] shows_pending_def [of "Moved _"]
        split: option.split routed.split)
qed

text \<open>C31. Over its endpoints the portal never certifies anything: after any requests, every certificate
  that it stores or shows is one without results, of status fail and level L0.\<close>

theorem portal_never_certifies:
  "list_all (\<lambda>(cid, c). pending c) (visits vs []) \<and> shows_pending (fst (portal_serve t order r (visits vs [])))"
proof -
  have "certs.all_ok (\<lambda>cid. pending) (visits vs [])" by (rule visits_pending) (simp add: certs.all_ok_def)
  from answer_pending [OF this] this show ?thesis by (auto simp: certs.all_ok_def list_all_iff)
qed

subsection \<open>A certificate under its address\<close>

definition plain_id :: "string \<Rightarrow> bool" where
  "plain_id s \<longleftrightarrow> s \<noteq> [] \<and> CHR ''/'' \<notin> set s \<and> CHR ''%'' \<notin> set s \<and> CHR ''.'' \<notin> set s"

lemma lower_hex_plain: "n < 16 \<Longrightarrow> lower_hex n \<notin> {CHR ''/'', CHR ''%'', CHR ''.''}"
proof -
  have "\<forall>n \<in> set [0..<16]. lower_hex n \<notin> {CHR ''/'', CHR ''%'', CHR ''.''}" by code_simp
  then show "n < 16 \<Longrightarrow> lower_hex n \<notin> {CHR ''/'', CHR ''%'', CHR ''.''}" by simp
qed

lemma sha256_hex_plain: "c \<in> set (sha256_hex s) \<Longrightarrow> c \<notin> {CHR ''/'', CHR ''%'', CHR ''.''}"
proof -
  assume "c \<in> set (sha256_hex s)"
  then obtain m where "c = lower_hex (m mod 16)" by (auto simp: sha256_hex_def hex_of_word_def)
  then show ?thesis using lower_hex_plain [of "m mod 16"] by simp
qed

lemma issued_id_plain:
  assumes "Issue t req p f n cs = (c, cs1)"
  shows "plain_id (ct_ID c)"
proof -
  have "ct_ID c = ''cert_'' @ take 16 (sha256_hex (cert_data req p n t))" using Issue_fields [OF assms] by blast
  then have "set (ct_ID c) \<subseteq> set ''cert_'' \<union> set (sha256_hex (cert_data req p n t))" "ct_ID c \<noteq> []"
    using set_take_subset [of 16 "sha256_hex (cert_data req p n t)"] by auto
  moreover have "x \<notin> set (sha256_hex (cert_data req p n t))" if "x \<in> {CHR ''/'', CHR ''%'', CHR ''.''}" for x
    using sha256_hex_plain that by blast
  ultimately show ?thesis unfolding plain_id_def by fastforce
qed

lemma hasSuffix_last: "hasSuffix s [c] \<longleftrightarrow> s \<noteq> [] \<and> last s = c"
  by (cases s rule: rev_cases) (simp_all add: hasSuffix_def)

lemma unescape_plain: "CHR ''%'' \<notin> set s \<Longrightarrow> unescape s = Some s"
  by (induction s rule: unescape.induct) auto

lemma strSplit_plain: "sep \<notin> set s \<Longrightarrow> strSplit sep s = [s]"
  by (induction s) auto

lemma certificate_path:
  assumes "plain_id cid"
  shows "path_segs (''/api/certificates/'' @ cid) = Some [''api'', ''certificates'', cid]"
    "cleanPath (''/api/certificates/'' @ cid) = ''/api/certificates/'' @ cid"
    "unescape (''/api/certificates/'' @ cid) = Some (''/api/certificates/'' @ cid)"
    "\<not> hasSuffix (''/api/certificates/'' @ cid) ''/''"
proof -
  let ?p = "''/api/certificates/'' @ cid"
  have s: "strSplit (CHR ''/'') ?p = [[], ''api'', ''certificates'', cid]"
    using assms by (simp add: plain_id_def strSplit_plain)
  show "path_segs ?p = Some [''api'', ''certificates'', cid]" unfolding path_segs_def s by (simp add: hasPrefix_def)
  have "cid \<noteq> ''.''" "cid \<noteq> ''..''" "cid \<noteq> []" using assms by (auto simp: plain_id_def)
  then have c: "clean_segs [] [[], ''api'', ''certificates'', cid] = [''api'', ''certificates'', cid]" by simp
  show ns: "\<not> hasSuffix ?p ''/''"
  proof -
    have "last cid \<noteq> CHR ''/''" "cid \<noteq> []" using assms last_in_set unfolding plain_id_def by metis+
    then show ?thesis by (simp add: hasSuffix_last)
  qed
  have q: "(if hasPrefix ?p ''/'' then ?p else CHR ''/'' # ?p) = ?p" by (simp add: hasPrefix_def)
  show "cleanPath ?p = ?p" unfolding cleanPath_def Let_def q s c using ns by simp
  show "unescape ?p = Some ?p" using assms by (intro unescape_plain) (auto simp: plain_id_def)
qed

lemma routed_certificate:
  assumes "path_segs p = Some [''api'', ''certificates'', cid]" "cleanPath p = p" "cid \<noteq> []" "seg_text cid = cid"
  shows "findHandler portal_routes ''GET'' p d = Handler HGetCertificate [cid]"
proof -
  have st: "seg_text ''api'' = ''api''" "seg_text ''certificates'' = ''certificates''" by (simp_all add: seg_text_def)
  have m: "mux_match portal_routes ''GET'' p =
      Some \<lparr>pa_Method = ''GET'', pa_Segs = [Lit ''api'', Lit ''certificates'', Wild], pa_Handler = HGetCertificate\<rparr>"
    using assms by (simp add: mux_match_def portal_routes_def RegisterRoutes_def method_match_def path_match_def st)
  then show ?thesis using assms by (simp add: findHandler_def Let_def exactMatch_def st)
qed

lemma get_certificate_routed:
  "plain_id cid \<Longrightarrow> findHandler portal_routes ''GET'' (''/api/certificates/'' @ cid) d = Handler HGetCertificate [cid]"
  by (rule routed_certificate [OF certificate_path(1,2)])
    (simp_all add: plain_id_def seg_text_def unescape_plain)

lemma queued_by_certify:
  assumes "portal_serve t order r cs = (Answer (json_reply 202 b), cs1)"
  shows "\<exists>req c. Issue t req 0 0 0 cs = (c, cs1) \<and> b = Queued (ct_ID c)"
proof -
  obtain decoded h vs where d: "unescape (hq_Path r) = Some decoded"
    "findHandler portal_routes (hq_Method r) (hq_Path r) decoded = Handler h vs"
    using assms by (auto simp: portal_serve_def split: option.splits routed.splits)
  then have run: "run_handler t order h (as_portal_request r decoded vs) cs = (Answer (json_reply 202 b), cs1)"
    using assms by (simp add: portal_serve_def)
  then have "h = HCertify"
    by (cases h) (auto simp: run_handler_def HandleGetCertificate_def HandleListCertificates_def HandleVerify_def
        ServeBadge_def ServeStatus_def serve_health_def writePortalError_def json_reply_def Let_def
        split: if_splits option.splits)
  with run show ?thesis
    by (auto simp: run_handler_def HandleCertify_def writePortalError_def json_reply_def split: if_splits option.splits prod.splits)
qed

text \<open>C34. The id in the answer to an accepted request is an address: a GET of the certificate endpoint
  with it is routed to the certificate just issued, whatever the clock and the query, and leaves
  the store as it is.\<close>

theorem queued_certificate_served:
  assumes "portal_serve t order r cs = (Answer (json_reply 202 (Queued cid)), cs1)"
  shows "\<exists>c. portal_serve now order1 \<lparr>hq_Method = ''GET'', hq_Path = ''/api/certificates/'' @ cid, hq_Query = q, hq_Body = b\<rparr> cs1
         = (Answer (json_reply 200 (OneCertificate c)), cs1)
       \<and> ct_ID c = cid \<and> ct_IssuedAt c = t \<and> pending c"
proof -
  obtain req c where i: "Issue t req 0 0 0 cs = (c, cs1)" "ct_ID c = cid"
    using queued_by_certify [OF assms] by auto
  have p: "plain_id cid" using issued_id_plain [OF i(1)] by (simp add: i(2))
  have c: "map_of cs1 cid = Some c" "ct_IssuedAt c = t" "pending c"
    using i by (auto simp: Issue_def Let_def pending_def issue_status_def computeLevel_def)
  have "portal_serve now order1 \<lparr>hq_Method = ''GET'', hq_Path = ''/api/certificates/'' @ cid, hq_Query = q, hq_Body = b\<rparr> cs1
      = (Answer (json_reply 200 (OneCertificate c)), cs1)"
    using p c(1) by (simp add: portal_serve_def certificate_path(3) [OF p] get_certificate_routed [OF p] run_handler_def
        as_portal_request_def HandleGetCertificate_def Get_def plain_id_def del: append.simps)
  with i(2) c show ?thesis by blast
qed


theorem queued_certificate_served_witness:
  "\<exists>cid c. portal_serve \<lparr>gt_ns = 9, gt_off = 0\<rparr> (\<lambda>ks. ks)
       \<lparr>hq_Method = ''GET'', hq_Path = ''/api/certificates/'' @ cid, hq_Query = [], hq_Body = []\<rparr>
       (snd (portal_serve \<lparr>gt_ns = 0, gt_off = 0\<rparr> (\<lambda>ks. ks) sample_request []))
     = (Answer (json_reply 200 (OneCertificate c)), snd (portal_serve \<lparr>gt_ns = 0, gt_off = 0\<rparr> (\<lambda>ks. ks) sample_request []))"
proof -
  obtain cid cs1 where "portal_serve \<lparr>gt_ns = 0, gt_off = 0\<rparr> (\<lambda>ks. ks) sample_request [] = (Answer (json_reply 202 (Queued cid)), cs1)"
    using sample_served by blast
  from queued_certificate_served [OF this] this show ?thesis by fastforce
qed

end
