(* ===== verification/Dap.thy ===== *)
theory Dap
  imports Matchers "HOL-Library.AList" "HOL-Library.Monad_Syntax"
begin

text \<open>
  The debug adapter for execution histories, cmd/exec-history-dap: the message framing shared
  by \<open>ReadDAPMessages\<close>, \<open>readDAPMessage\<close>, \<open>writeMessage\<close> and \<open>writeDAPMessage\<close>, the event
  emitter of main.go and the request server of serve.go. A stream is the text read or
  written; messages are maps, the output of a program the list of the messages it wrote
  (\<open>wire\<close> gives the bytes). Writing to standard output does not fail. The span type
  \<open>ExecHistoryEvent\<close> and the reader \<open>Replay\<close> are not in the repository: the record has the
  fields the program uses, and what \<open>Replay\<close> delivers is a parameter.
\<close>

type_synonym gomap = "(string \<times> any) list"

subsection \<open>Framing\<close>

definition crlf :: string where
  "crlf = [ch 13, ch 10]"

definition frame :: "string \<Rightarrow> string" where
  "frame payload = ''Content-Length: '' @ show_int (int (length payload)) @ crlf @ crlf @ payload"

definition writeMessage :: "gomap \<Rightarrow> string option" where
  "writeMessage msg = map_option frame (marshal (AObj msg))"

text \<open>The writer of the server, \<open>writeDAPMessage\<close>, does the same.\<close>

definition writeDAPMessage :: "gomap \<Rightarrow> string option" where
  "writeDAPMessage msg = map_option frame (marshal (AObj msg))"

lemma writeDAPMessage_same [simp]: "writeDAPMessage msg = writeMessage msg"
  by (simp add: writeDAPMessage_def writeMessage_def)

text \<open>\<open>br.ReadString\<close> up to the newline: the line with it and the rest, or \<open>None\<close> at the end of the stream.\<close>

definition read_line :: "string \<Rightarrow> (string \<times> string) option" where
  "read_line s =
     (let l = takeWhile (\<lambda>c. c \<noteq> ch 10) s in
      if length l < length s then Some (l @ [ch 10], drop (Suc (length l)) s) else None)"

text \<open>\<open>fmt.Sscanf(s, "%d", &n)\<close> on a trimmed text: what follows the digits is not looked at.\<close>

definition sscan_int :: "string \<Rightarrow> int option" where
  "sscan_int s =
     (let (sign, t) = (case s of [] \<Rightarrow> ([], []) | c # cs \<Rightarrow> if c = CHR ''-'' \<or> c = CHR ''+'' then ([c], cs) else ([], s))
      in atoi (sign @ takeWhile is_digit t))"

datatype frame_err =
    BadLength string
  | MissingLength
  | MidHeader
  | BodyEOF
  | ShortBody
  | BadPayload

datatype header_end = HeaderEOF string int | HeaderDone int string | HeaderErr frame_err

text \<open>
  The header loop, from the length so far: the blank line that ends it, an error, or the end
  of the stream with the unfinished line.
\<close>

lemma read_line_shorter: "read_line s = Some (l, r) \<Longrightarrow> length r < length s"
  by (auto simp: read_line_def Let_def split: if_splits)

function read_header :: "int \<Rightarrow> string \<Rightarrow> header_end" where
  "read_header n s =
     (case read_line s of
        None \<Rightarrow> HeaderEOF s n
      | Some (l, r) \<Rightarrow>
          (let line = trimRightSet l crlf in
           if line = [] then HeaderDone n r
           else case cutPrefix line ''Content-Length:'' of
             None \<Rightarrow> read_header n r
           | Some v \<Rightarrow>
               (case sscan_int (trimSpace v) of
                  None \<Rightarrow> HeaderErr (BadLength v)
                | Some n' \<Rightarrow> read_header n' r)))"
  by pat_completeness auto
termination
  by (relation "measure (\<lambda>(n, s). length s)") (auto dest: read_line_shorter)

declare read_header.simps [simp del]

text \<open>Whether every number of a text fits a float64: otherwise decoding reports an error.\<close>

fun numbers_fit :: "json \<Rightarrow> bool"
and numbers_fit_raws :: "rawmsg list \<Rightarrow> bool"
and numbers_fit_fields :: "field list \<Rightarrow> bool" where
  "numbers_fit (JNum l) = (parse_float l \<noteq> None)"
| "numbers_fit (JArr es) = numbers_fit_raws es"
| "numbers_fit (JObj fs) = numbers_fit_fields fs"
| "numbers_fit _ = True"
| "numbers_fit_raws [] = True"
| "numbers_fit_raws (Raw t j # es) = (numbers_fit j \<and> numbers_fit_raws es)"
| "numbers_fit_fields [] = True"
| "numbers_fit_fields (Field k (Raw t j) # fs) = (numbers_fit j \<and> numbers_fit_fields fs)"

text \<open>\<open>json.Unmarshal\<close> into a \<open>map[string]any\<close>, errors reported; \<open>null\<close> gives the nil map.\<close>

definition unmarshal_map :: "string \<Rightarrow> gomap option" where
  "unmarshal_map s =
     (case json_parse s of
        Some (JObj fs) \<Rightarrow> if numbers_fit (JObj fs) then Some (any_fields fs) else None
      | Some JNull \<Rightarrow> Some []
      | _ \<Rightarrow> None)"

text \<open>
  The errors that \<open>errors.Is(err, io.EOF)\<close> accepts: \<open>Sscanf\<close> that runs out of input before a
  digit, and \<open>io.ReadFull\<close> that reads nothing.
\<close>

definition is_eof :: "frame_err \<Rightarrow> bool" where
  "is_eof e = (case e of BadLength v \<Rightarrow> trimSpace v \<in> {[], ''-'', ''+''} | BodyEOF \<Rightarrow> True | _ \<Rightarrow> False)"

text \<open>\<open>io.ReadFull\<close> and the decoding of one payload.\<close>

definition read_payload :: "int \<Rightarrow> string \<Rightarrow> frame_err + gomap \<times> string" where
  "read_payload n s =
     (if n \<le> 0 then Inl MissingLength
      else if s = [] then Inl BodyEOF
      else if int (length s) < n then Inl ShortBody
      else case unmarshal_map (take (nat n) s) of
        None \<Rightarrow> Inl BadPayload
      | Some m \<Rightarrow> Inr (m, drop (nat n) s))"

lemma read_payload_shorter: "read_payload n s = Inr (m, r) \<Longrightarrow> length r < length s"
  by (auto simp: read_payload_def split: if_splits option.splits)

lemma read_header_shorter: "read_header n s = HeaderDone k r \<Longrightarrow> length r < length s"
proof (induction n s rule: read_header.induct)
  case (1 n s)
  show ?case
  proof (cases "read_line s")
    case (Some lr)
    obtain l r' where lr: "lr = (l, r')" by (cases lr)
    with Some have le: "length r' < length s" using read_line_shorter by blast
    note step = read_header.simps [of n s, unfolded Some lr option.case prod.case Let_def]
    show ?thesis
    proof (cases "trimRightSet l crlf = []")
      case True
      with 1(3) le show ?thesis by (simp add: step)
    next
      case ne: False
      show ?thesis
      proof (cases "cutPrefix (trimRightSet l crlf) ''Content-Length:''")
        case None
        with ne 1(3) have "read_header n r' = HeaderDone k r" by (simp add: step)
        with 1(1) [OF Some lr [symmetric] refl ne None] le show ?thesis by simp
      next
        case (Some v)
        show ?thesis
        proof (cases "sscan_int (trimSpace v)")
          case None
          with ne Some 1(3) show ?thesis by (simp add: step)
        next
          case (Some n')
          with ne \<open>_ = Some v\<close> 1(3) have "read_header n' r' = HeaderDone k r" by (simp add: step)
          with 1(2) [OF \<open>read_line s = _\<close> lr [symmetric] refl ne \<open>_ = Some v\<close> Some] le show ?thesis by simp
        qed
      qed
    qed
  qed (use 1 in \<open>simp add: read_header.simps\<close>)
qed

text \<open>
  \<open>ReadDAPMessages\<close>: the messages read and the error, if any. At the end of the stream an
  unfinished line is an error, but a header cut off after a complete line is not.
\<close>

datatype stream_end = CleanEnd | UnexpectedEnd | FrameError frame_err

function ReadDAPMessages :: "string \<Rightarrow> gomap list \<times> stream_end" where
  "ReadDAPMessages s =
     (case read_header 0 s of
        HeaderEOF l n \<Rightarrow> ([], if l = [] then CleanEnd else UnexpectedEnd)
      | HeaderErr e \<Rightarrow> ([], FrameError e)
      | HeaderDone n r \<Rightarrow>
          (case read_payload n r of
             Inl e \<Rightarrow> ([], FrameError e)
           | Inr (m, r') \<Rightarrow> (let (ms, e) = ReadDAPMessages r' in (m # ms, e))))"
  by pat_completeness auto
termination
  by (relation "measure length") (auto dest!: read_header_shorter read_payload_shorter)

declare ReadDAPMessages.simps [simp del]

text \<open>\<open>readDAPMessage\<close>: \<open>None\<close> is \<open>io.EOF\<close>, which only a stream that ends between two messages gives.\<close>

definition readDAPMessage :: "string \<Rightarrow> frame_err + (gomap \<times> string) option" where
  "readDAPMessage s =
     (case read_header (- 1) s of
        HeaderEOF l n \<Rightarrow> if l = [] \<and> n < 0 then Inr None else Inl MidHeader
      | HeaderErr e \<Rightarrow> Inl e
      | HeaderDone n r \<Rightarrow>
          (case read_payload n r of Inl e \<Rightarrow> Inl e | Inr x \<Rightarrow> Inr (Some x)))"

subsection \<open>Spans\<close>

record span =
  SchemaVersion :: string
  EnvelopeID :: string
  SDK :: string
  Lang :: string
  SpanKind :: string
  StartedAt :: string
  DurationMs :: f64
  Outcome :: string
  Attempt :: int
  SpanID :: string
  ParentSpanID :: string
  WorkerID :: string
  Attrs :: gomap

definition spanAsMap :: "span \<Rightarrow> gomap" where
  "spanAsMap ev =
     [(''schema_version'', AStr (SchemaVersion ev)), (''envelope_id'', AStr (EnvelopeID ev)), (''sdk'', AStr (SDK ev)),
      (''lang'', AStr (Lang ev)), (''span_kind'', AStr (SpanKind ev)), (''started_at'', AStr (StartedAt ev)),
      (''duration_ms'', AFloat (DurationMs ev)), (''outcome'', AStr (Outcome ev)),
      (''attempt'', AInt KInt (Attempt ev)), (''span_id'', AStr (SpanID ev))]
     @ (if WorkerID ev \<noteq> [] then [(''worker_id'', AStr (WorkerID ev))] else [])
     @ (if ParentSpanID ev \<noteq> [] then [(''parent_span_id'', AStr (ParentSpanID ev))] else [])
     @ (if Attrs ev \<noteq> [] then [(''attrs'', AObj (sort_fields (Attrs ev)))] else [])"

definition spanStopReason :: "string \<Rightarrow> string" where
  "spanStopReason outcome =
     (if outcome \<in> set [''retryable'', ''discarded'', ''cancelled''] then ''exception'' else ''step'')"

definition thread_key :: "string \<Rightarrow> span \<Rightarrow> string" where
  "thread_key threadBy ev = (if threadBy = ''sdk'' then SDK ev else EnvelopeID ev)"

definition description :: "span \<Rightarrow> string" where
  "description ev = SpanKind ev @ '' ('' @ Outcome ev @ '')''"

text \<open>The verb \<open>%.3f\<close>: the exact value rounded to three decimals, ties to even.\<close>

definition fmt_thousandths :: "nat \<Rightarrow> string" where
  "fmt_thousandths n =
     show_nat (n div 1000) @ ''.''
     @ show_nat (n mod 1000 div 100) @ show_nat (n mod 100 div 10) @ show_nat (n mod 10)"

fun fmt_f3 :: "f64 \<Rightarrow> string" where
  "fmt_f3 (Fin r) = (if r < 0 then ''-'' else []) @ fmt_thousandths (nat (rhe (\<bar>r\<bar> * 1000)))"
| "fmt_f3 NegZero = ''-0.000''"
| "fmt_f3 x = fmt_float x"

subsection \<open>The emitter\<close>

text \<open>\<open>em_out\<close> are the messages written so far. A message that cannot be encoded ends the program (\<open>None\<close>).\<close>

record emitter =
  em_out :: "gomap list"
  em_seq :: int
  em_threadBy :: string
  em_threadIDs :: "(string \<times> int) list"
  em_nextTID :: int
  em_varRefs :: "(int \<times> gomap) list"
  em_nextVar :: int

definition newEmitter :: "string \<Rightarrow> emitter" where
  "newEmitter threadBy = \<lparr>em_out = [], em_seq = 0, em_threadBy = threadBy, em_threadIDs = [], em_nextTID = 1,
     em_varRefs = [], em_nextVar = 1000\<rparr>"

definition event_message :: "int \<Rightarrow> string \<Rightarrow> any option \<Rightarrow> gomap" where
  "event_message seq name body =
     [(''seq'', AInt KInt64 seq), (''type'', AStr ''event''), (''event'', AStr name)]
     @ (case body of None \<Rightarrow> [] | Some b \<Rightarrow> [(''body'', b)])"

definition writeEvent :: "string \<Rightarrow> any option \<Rightarrow> emitter \<Rightarrow> emitter option" where
  "writeEvent name body e =
     (let seq = em_seq e + 1; msg = event_message seq name body in
      case writeMessage msg of
        None \<Rightarrow> None
      | Some bytes \<Rightarrow> Some (e\<lparr>em_seq := seq, em_out := em_out e @ [msg]\<rparr>))"

definition em_threadIDFor :: "string \<Rightarrow> emitter \<Rightarrow> (int \<times> bool) \<times> emitter" where
  "em_threadIDFor key e =
     (case map_of (em_threadIDs e) key of
        Some tid \<Rightarrow> ((tid, False), e)
      | None \<Rightarrow>
          ((em_nextTID e, True),
           e\<lparr>em_nextTID := em_nextTID e + 1, em_threadIDs := AList.update key (em_nextTID e) (em_threadIDs e)\<rparr>))"

definition em_allocVar :: "gomap \<Rightarrow> emitter \<Rightarrow> int \<times> emitter" where
  "em_allocVar v e =
     (em_nextVar e,
      e\<lparr>em_nextVar := em_nextVar e + 1, em_varRefs := AList.update (em_nextVar e) v (em_varRefs e)\<rparr>)"

definition process_body :: "int \<Rightarrow> any" where
  "process_body pid = AObj [(''name'', AStr ''ojs-exec-history''), (''isLocalProcess'', ABool True),
     (''startMethod'', AStr ''launch''), (''systemProcessId'', AInt KInt pid)]"

definition initialize :: "int \<Rightarrow> emitter \<Rightarrow> emitter option" where
  "initialize pid e = do {
     e1 \<leftarrow> writeEvent ''initialized'' None e;
     writeEvent ''process'' (Some (process_body pid)) e1 }"

definition terminate :: "int \<Rightarrow> int \<Rightarrow> emitter \<Rightarrow> emitter option" where
  "terminate ingested dropped e = do {
     e1 \<leftarrow> writeEvent ''output'' (Some (AObj
        [(''category'', AStr ''console''),
         (''output'', AStr (''exec-history-dap: replayed '' @ show_int ingested @ '' span(s), dropped ''
            @ show_int dropped @ '' invalid line(s)'' @ [ch 10]))])) e;
     writeEvent ''terminated'' (Some (AObj [])) e1 }"

definition console_line :: "span \<Rightarrow> string" where
  "console_line ev =
     ''['' @ StartedAt ev @ ''] '' @ SDK ev @ ''/'' @ Lang ev @ '' span_kind='' @ SpanKind ev @ '' outcome='' @ Outcome ev
     @ '' duration='' @ fmt_f3 (DurationMs ev) @ ''ms attempt='' @ show_int (Attempt ev) @ [ch 10]"

definition thread_body :: "int \<Rightarrow> any" where
  "thread_body tid = AObj [(''reason'', AStr ''started''), (''threadId'', AInt KInt tid)]"

definition stopped_body :: "span \<Rightarrow> int \<Rightarrow> int \<Rightarrow> any" where
  "stopped_body ev tid scopeRef = AObj
     [(''reason'', AStr (spanStopReason (Outcome ev))), (''description'', AStr (description ev)),
      (''threadId'', AInt KInt tid), (''preserveFocusHint'', ABool False), (''allThreadsStopped'', ABool False),
      (''hitBreakpointIds'', AArr []),
      (''_ojs'', AObj [(''span_id'', AStr (SpanID ev)), (''parent_span_id'', AStr (ParentSpanID ev)),
         (''envelope_id'', AStr (EnvelopeID ev)), (''variables_ref'', AInt KInt scopeRef),
         (''sdk'', AStr (SDK ev)), (''lang'', AStr (Lang ev))])]"

definition onSpan :: "span \<Rightarrow> emitter \<Rightarrow> emitter option" where
  "onSpan ev e = do {
     let ((tid, fresh), e1) = em_threadIDFor (thread_key (em_threadBy e) ev) e;
     e2 \<leftarrow> (if fresh then writeEvent ''thread'' (Some (thread_body tid)) e1 else Some e1);
     e3 \<leftarrow> writeEvent ''output'' (Some (AObj [(''category'', AStr ''stdout''), (''output'', AStr (console_line ev))])) e2;
     let (scopeRef, e4) = em_allocVar (spanAsMap ev) e3;
     e5 \<leftarrow> writeEvent ''stopped'' (Some (stopped_body ev tid scopeRef)) e4;
     writeEvent ''continued'' (Some (AObj [(''threadId'', AInt KInt tid), (''allThreadsContinued'', ABool False)])) e5 }"

fun on_spans :: "span list \<Rightarrow> emitter \<Rightarrow> emitter option" where
  "on_spans [] e = Some e"
| "on_spans (ev # evs) e = do { e1 \<leftarrow> onSpan ev e; on_spans evs e1 }"

text \<open>
  \<open>emitCmd\<close> after its flags are parsed: \<open>Replay\<close> hands the valid spans to the callback and
  returns its counts, or an error.
\<close>

definition emitCmd :: "int \<Rightarrow> string \<Rightarrow> span list \<Rightarrow> string + int \<times> int \<Rightarrow> emitter option" where
  "emitCmd pid threadBy spans replayed = do {
     e1 \<leftarrow> initialize pid (newEmitter threadBy);
     e2 \<leftarrow> on_spans spans e1;
     case replayed of Inl err \<Rightarrow> None | Inr (ingested, dropped) \<Rightarrow> terminate ingested dropped e2 }"

text \<open>The bytes of a list of messages.\<close>

definition wire :: "gomap list \<Rightarrow> string" where
  "wire msgs = concat (map (\<lambda>m. case writeMessage m of Some bytes \<Rightarrow> bytes | None \<Rightarrow> []) msgs)"

end
