(* ===== verification/DapServe.thy ===== *)
theory DapServe
  imports Dap
begin

text \<open>
  The interactive server, cmd/exec-history-dap/serve.go. \<open>handle\<close> maps a request and the state
  of the server to whether the loop goes on, and the state; \<open>Run\<close> reads the requests from the
  input stream. What a \<open>launch\<close> finds in the trace file is a parameter: the error of opening
  it, or the spans that \<open>Replay\<close> delivers with the error it ends with.
\<close>

record server =
  sv_out :: "gomap list"
  sv_seq :: int
  sv_tracePath :: string
  sv_threadBy :: string
  sv_spans :: "span list"
  sv_cursor :: int
  sv_threadIDs :: "(string \<times> int) list"
  sv_nextTID :: int
  sv_varRefs :: "(int \<times> gomap) list"
  sv_nextVar :: int
  sv_stopped :: bool
  sv_terminated :: bool

definition newServer :: "string \<Rightarrow> string \<Rightarrow> server" where
  "newServer tracePath threadBy =
     \<lparr>sv_out = [], sv_seq = 0, sv_tracePath = tracePath, sv_threadBy = threadBy, sv_spans = [], sv_cursor = - 1,
      sv_threadIDs = [], sv_nextTID = 1, sv_varRefs = [], sv_nextVar = 1000, sv_stopped = False,
      sv_terminated = False\<rparr>"

text \<open>The parameters of a session: the conversion of floats out of the int64 range, the process id, the trace.\<close>

record session =
  se_oob :: "f64 \<Rightarrow> int"
  se_pid :: int
  se_trace :: "string + span list \<times> string option"

text \<open>\<open>Continue\<close> is a nil error, \<open>Stop\<close> is \<open>io.EOF\<close>, \<open>Failed\<close> a message that could not be encoded.\<close>

datatype verdict = Continue | Stop | Failed

definition sv_send :: "gomap \<Rightarrow> server \<Rightarrow> verdict \<times> server" where
  "sv_send msg s =
     (case writeDAPMessage msg of
        None \<Rightarrow> (Failed, s)
      | Some bytes \<Rightarrow> (Continue, s\<lparr>sv_out := sv_out s @ [msg]\<rparr>))"

definition event :: "string \<Rightarrow> any option \<Rightarrow> server \<Rightarrow> verdict \<times> server" where
  "event name body s = sv_send (event_message (sv_seq s + 1) name body) (s\<lparr>sv_seq := sv_seq s + 1\<rparr>)"

definition response_message :: "int \<Rightarrow> int \<Rightarrow> string \<Rightarrow> bool \<Rightarrow> string \<Rightarrow> any option \<Rightarrow> gomap" where
  "response_message seq reqSeq cmd success message body =
     [(''seq'', AInt KInt64 seq), (''type'', AStr ''response''), (''request_seq'', AInt KInt64 reqSeq),
      (''command'', AStr cmd), (''success'', ABool success)]
     @ (if message \<noteq> [] then [(''message'', AStr message)] else [])
     @ (case body of None \<Rightarrow> [] | Some b \<Rightarrow> [(''body'', b)])"

definition respond :: "int \<Rightarrow> string \<Rightarrow> bool \<Rightarrow> string \<Rightarrow> any option \<Rightarrow> server \<Rightarrow> verdict \<times> server" where
  "respond reqSeq cmd success message body s =
     sv_send (response_message (sv_seq s + 1) reqSeq cmd success message body) (s\<lparr>sv_seq := sv_seq s + 1\<rparr>)"

text \<open>\<open>if err := ...; err != nil { return err }\<close> and go on.\<close>

definition and_then :: "verdict \<times> server \<Rightarrow> (server \<Rightarrow> verdict \<times> server) \<Rightarrow> verdict \<times> server" where
  "and_then r k = (case r of (Continue, s) \<Rightarrow> k s | _ \<Rightarrow> r)"

definition sv_threadIDFor :: "string \<Rightarrow> server \<Rightarrow> (int \<times> bool) \<times> server" where
  "sv_threadIDFor key s =
     (case map_of (sv_threadIDs s) key of
        Some tid \<Rightarrow> ((tid, False), s)
      | None \<Rightarrow>
          ((sv_nextTID s, True),
           s\<lparr>sv_nextTID := sv_nextTID s + 1, sv_threadIDs := AList.update key (sv_nextTID s) (sv_threadIDs s)\<rparr>))"

definition sv_allocVar :: "gomap \<Rightarrow> server \<Rightarrow> int \<times> server" where
  "sv_allocVar v s =
     (sv_nextVar s,
      s\<lparr>sv_nextVar := sv_nextVar s + 1, sv_varRefs := AList.update (sv_nextVar s) v (sv_varRefs s)\<rparr>)"

definition currentSpan :: "server \<Rightarrow> span option" where
  "currentSpan s =
     (if \<not> sv_stopped s \<or> sv_cursor s < 0 \<or> int (length (sv_spans s)) \<le> sv_cursor s then None
      else Some (sv_spans s ! nat (sv_cursor s)))"

text \<open>The cursor starts at -1 and only grows, so after the increment it is an index.\<close>

definition sv_stopped_body :: "span \<Rightarrow> int \<Rightarrow> any" where
  "sv_stopped_body ev tid = AObj
     [(''reason'', AStr (spanStopReason (Outcome ev))), (''description'', AStr (description ev)),
      (''threadId'', AInt KInt tid), (''allThreadsStopped'', ABool False)]"

definition advanceAndStop :: "server \<Rightarrow> verdict \<times> server" where
  "advanceAndStop s0 =
     (let s = s0\<lparr>sv_cursor := sv_cursor s0 + 1\<rparr> in
      if int (length (sv_spans s)) \<le> sv_cursor s then
        event ''terminated'' (Some (AObj [])) (s\<lparr>sv_stopped := False, sv_terminated := True\<rparr>)
      else
        let ev = sv_spans s ! nat (sv_cursor s);
            ((tid, fresh), s1) = sv_threadIDFor (thread_key (sv_threadBy s) ev) s
        in and_then (if fresh then event ''thread'' (Some (thread_body tid)) s1 else (Continue, s1))
             (\<lambda>s2. event ''stopped'' (Some (sv_stopped_body ev tid)) (s2\<lparr>sv_stopped := True\<rparr>)))"

text \<open>\<open>loadTrace\<close>: the error, and the state with the spans delivered before it.\<close>

definition loadTrace :: "session \<Rightarrow> server \<Rightarrow> string option \<times> server" where
  "loadTrace se s =
     (case se_trace se of
        Inl err \<Rightarrow> (Some err, s)
      | Inr (evs, err) \<Rightarrow> (err, s\<lparr>sv_spans := sv_spans s @ evs\<rparr>))"

subsection \<open>Variables\<close>

definition valueRepr :: "any \<Rightarrow> string" where
  "valueRepr v =
     (case v of
        ANil \<Rightarrow> ''null''
      | AStr t \<Rightarrow> t
      | _ \<Rightarrow> (case marshal v of Some b \<Rightarrow> b | None \<Rightarrow> fmt_v v))"

text \<open>The entries in the order of their keys; a nested map gets the next reference.\<close>

fun vars_loop :: "gomap \<Rightarrow> int \<Rightarrow> (int \<times> gomap) list \<Rightarrow> any list \<times> int \<times> (int \<times> gomap) list" where
  "vars_loop [] nextVar refs = ([], nextVar, refs)"
| "vars_loop ((k, v) # kvs) nextVar refs =
     (let (value, ref, nextVar1, refs1) =
            (case v of
               AObj sub \<Rightarrow> (''{...}'', nextVar, nextVar + 1, AList.update nextVar sub refs)
             | _ \<Rightarrow> (valueRepr v, 0, nextVar, refs));
          (out, nextVar2, refs2) = vars_loop kvs nextVar1 refs1
      in (AObj [(''name'', AStr k), (''value'', AStr value), (''variablesReference'', AInt KInt ref)] # out,
          nextVar2, refs2))"

definition varsFromMap :: "gomap \<Rightarrow> int \<Rightarrow> (int \<times> gomap) list \<Rightarrow> any list \<times> int \<times> (int \<times> gomap) list" where
  "varsFromMap m nextVar refs = vars_loop (sort_fields m) nextVar refs"

subsection \<open>The request loop\<close>

definition str_field :: "gomap \<Rightarrow> string \<Rightarrow> string" where
  "str_field m k = (case map_of m k of Some (AStr v) \<Rightarrow> v | _ \<Rightarrow> [])"

definition num_field :: "gomap \<Rightarrow> string \<Rightarrow> f64" where
  "num_field m k = (case map_of m k of Some (AFloat x) \<Rightarrow> x | _ \<Rightarrow> Fin 0)"

definition obj_field :: "gomap \<Rightarrow> string \<Rightarrow> gomap" where
  "obj_field m k = (case map_of m k of Some (AObj sub) \<Rightarrow> sub | _ \<Rightarrow> [])"

definition thread_list :: "(string \<times> int) list \<Rightarrow> any list" where
  "thread_list tids =
     map (\<lambda>tid. AObj [(''id'', AInt KInt tid),
                      (''name'', AStr (case map_of (map (\<lambda>(k, v). (v, k)) tids) tid of Some k \<Rightarrow> k | None \<Rightarrow> []))])
       (sort (map snd tids))"

definition frame_body :: "string \<Rightarrow> span \<Rightarrow> any" where
  "frame_body path ev = AObj [(''id'', AInt KInt 1), (''name'', AStr (description ev)), (''line'', AInt KInt 1),
     (''column'', AInt KInt 1), (''source'', AObj [(''name'', AStr (SDK ev)), (''path'', AStr path)])]"

definition handle_stackTrace :: "int \<Rightarrow> server \<Rightarrow> verdict \<times> server" where
  "handle_stackTrace q s =
     (case currentSpan s of
        None \<Rightarrow> respond q ''stackTrace'' True [] (Some (AObj [(''stackFrames'', AArr []), (''totalFrames'', AInt KInt 0)])) s
      | Some ev \<Rightarrow> respond q ''stackTrace'' True []
          (Some (AObj [(''stackFrames'', AArr [frame_body (sv_tracePath s) ev]), (''totalFrames'', AInt KInt 1)])) s)"

definition handle_scopes :: "int \<Rightarrow> server \<Rightarrow> verdict \<times> server" where
  "handle_scopes q s =
     (case currentSpan s of
        None \<Rightarrow> respond q ''scopes'' True [] (Some (AObj [(''scopes'', AArr [])])) s
      | Some ev \<Rightarrow>
          (let (ref, s1) = sv_allocVar (spanAsMap ev) s
           in respond q ''scopes'' True [] (Some (AObj [(''scopes'', AArr [AObj
                [(''name'', AStr ''Span''), (''variablesReference'', AInt KInt ref), (''expensive'', ABool False)]])])) s1))"

definition handle_variables :: "session \<Rightarrow> int \<Rightarrow> gomap \<Rightarrow> server \<Rightarrow> verdict \<times> server" where
  "handle_variables se q args s =
     (let ref = f64_to_int64 (se_oob se) (num_field args ''variablesReference'') in
      case map_of (sv_varRefs s) ref of
        None \<Rightarrow> respond q ''variables'' False (''unknown variablesReference '' @ show_int ref) None s
      | Some m \<Rightarrow>
          (let (vars, nextVar, refs) = varsFromMap m (sv_nextVar s) (sv_varRefs s)
           in respond q ''variables'' True [] (Some (AObj [(''variables'', AArr vars)]))
                (s\<lparr>sv_nextVar := nextVar, sv_varRefs := refs\<rparr>)))"

definition handle :: "session \<Rightarrow> gomap \<Rightarrow> server \<Rightarrow> verdict \<times> server" where
  "handle se msg s =
     (let cmd = str_field msg ''command''; q = f64_to_int64 (se_oob se) (num_field msg ''seq'') in
      if str_field msg ''type'' \<noteq> ''request'' then (Continue, s)
      else if cmd = ''initialize'' then
        and_then (respond q cmd True [] (Some (AObj [(''supportsConfigurationDoneRequest'', ABool True),
            (''supportsTerminateRequest'', ABool True), (''supportsStepBack'', ABool False)])) s)
          (event ''initialized'' None)
      else if cmd = ''launch'' then
        (case loadTrace se s of
           (Some err, s1) \<Rightarrow> respond q cmd False err None s1
         | (None, s1) \<Rightarrow>
             and_then (respond q cmd True [] None s1) (event ''process'' (Some (process_body (se_pid se)))))
      else if cmd = ''configurationDone'' then and_then (respond q cmd True [] None s) advanceAndStop
      else if cmd = ''threads'' then
        respond q cmd True [] (Some (AObj [(''threads'', AArr (thread_list (sv_threadIDs s)))])) s
      else if cmd = ''stackTrace'' then handle_stackTrace q s
      else if cmd = ''scopes'' then handle_scopes q s
      else if cmd = ''variables'' then handle_variables se q (obj_field msg ''arguments'') s
      else if cmd = ''continue'' \<or> cmd = ''next'' then
        and_then (respond q cmd True [] (Some (AObj [(''allThreadsContinued'', ABool False)])) s) advanceAndStop
      else if cmd = ''disconnect'' \<or> cmd = ''terminate'' then
        (let s1 = snd (respond q cmd True [] None s);
             s2 = (if \<not> sv_terminated s1 then (snd (event ''terminated'' (Some (AObj [])) s1))\<lparr>sv_terminated := True\<rparr> else s1)
         in (Stop, s2))
      else respond q cmd False (''unsupported command '' @ cmd) None s)"

text \<open>\<open>Run\<close> on a list of requests, and on the input stream: what is left unread is dropped.\<close>

fun run_requests :: "session \<Rightarrow> gomap list \<Rightarrow> server \<Rightarrow> verdict \<times> server" where
  "run_requests se [] s = (Continue, s)"
| "run_requests se (msg # msgs) s = and_then (handle se msg s) (run_requests se msgs)"

datatype run_end = Finished | ReadError frame_err | EncodeError

function Run :: "session \<Rightarrow> string \<Rightarrow> server \<Rightarrow> run_end \<times> server" where
  "Run se input s =
     (case readDAPMessage input of
        Inl e \<Rightarrow> (if is_eof e then Finished else ReadError e, s)
      | Inr None \<Rightarrow> (Finished, s)
      | Inr (Some (msg, rest)) \<Rightarrow>
          (case handle se msg s of
             (Continue, s1) \<Rightarrow> Run se rest s1
           | (Stop, s1) \<Rightarrow> (Finished, s1)
           | (Failed, s1) \<Rightarrow> (EncodeError, s1)))"
  by pat_completeness auto
termination
  by (relation "measure (\<lambda>(se, i, s). length i)")
    (auto simp: readDAPMessage_def split: header_end.splits sum.splits if_splits
      dest!: read_header_shorter read_payload_shorter)

declare Run.simps [simp del]

end
