(* ===== verification/Dap_Facts.thy ===== *)
theory Dap_Facts
  imports Dap
begin

text \<open>
  The framing of the debug protocol (what was framed is read back, a truncated stream is
  never a message), the allocation of thread ids as a locale, and the events of an emission.
\<close>

subsection \<open>Framing\<close>

lemma takeWhile_until: "c \<notin> set l \<Longrightarrow> takeWhile (\<lambda>x. x \<noteq> c) l = l"
  "c \<notin> set l \<Longrightarrow> takeWhile (\<lambda>x. x \<noteq> c) (l @ c # r) = l"
  by (induction l) auto

lemma read_line_append: "ch 10 \<notin> set l \<Longrightarrow> read_line (l @ ch 10 # r) = Some (l @ [ch 10], r)"
  by (simp add: read_line_def takeWhile_until)

lemma read_line_none: "ch 10 \<notin> set l \<Longrightarrow> read_line l = None"
  by (simp add: read_line_def takeWhile_until)

lemma byte_ch [simp]: "byte (ch n) = n mod 256"
  by (simp add: byte_def ch_def)

definition length_line :: "int \<Rightarrow> string" where
  "length_line n = ''Content-Length: '' @ show_int n"

lemma length_line_chars: "c \<in> set (length_line n) \<Longrightarrow> 32 \<le> byte c"
  by (auto simp: length_line_def byte_def dest!: show_int_bytes [unfolded byte_def])

lemma length_line_no_newline: "ch 10 \<notin> set (length_line n)" "ch 13 \<notin> set (length_line n)"
  by (auto dest!: length_line_chars)

lemma length_line_nonempty: "length_line n \<noteq> []"
  by (simp add: length_line_def)

lemma trim_crlf: "l \<noteq> [] \<Longrightarrow> ch 10 \<notin> set l \<Longrightarrow> ch 13 \<notin> set l \<Longrightarrow> trimRightSet (l @ crlf) crlf = l"
  by (cases l rule: rev_cases) (auto simp: trimRightSet_def crlf_def)

lemma sscan_show: "0 < n \<Longrightarrow> in_int64 n \<Longrightarrow> sscan_int (show_int n) = Some n"
proof -
  assume n: "0 < n" "in_int64 n"
  then have s: "show_int n = show_nat (nat n)" by (simp add: show_int_def)
  obtain c cs where c: "show_nat (nat n) = c # cs" by (cases "show_nat (nat n)") auto
  then have "is_digit c" using show_nat_chars [of c "nat n"] by simp
  then have "c \<noteq> CHR ''-''" "c \<noteq> CHR ''+''" by (auto dest: is_digit_not_sign)
  moreover have "takeWhile is_digit (show_nat (nat n)) = show_nat (nat n)"
    by (simp add: takeWhile_eq_all_conv show_nat_chars)
  ultimately show ?thesis using n atoi_show_int [of n] by (simp add: sscan_int_def s c)
qed

lemma frame_lines: "frame p = length_line (int (length p)) @ ch 13 # ch 10 # ch 13 # ch 10 # p"
  by (simp add: frame_def length_line_def crlf_def)

lemma read_length_line:
  assumes "0 < n" "in_int64 n"
  shows "read_header k (length_line n @ ch 13 # ch 10 # r) = read_header n r"
proof -
  have "read_line ((length_line n @ [ch 13]) @ ch 10 # r) = Some ((length_line n @ [ch 13]) @ [ch 10], r)"
    using length_line_no_newline by (intro read_line_append) (auto simp: ch_def)
  moreover have "trimRightSet ((length_line n @ [ch 13]) @ [ch 10]) crlf = length_line n"
    using trim_crlf [of "length_line n"] length_line_no_newline length_line_nonempty by (simp add: crlf_def)
  moreover have "cutPrefix (length_line n) ''Content-Length:'' = Some (CHR '' '' # show_int n)"
    by (simp add: length_line_def cutPrefix_def hasPrefix_def)
  ultimately show ?thesis
    using assms by (subst read_header.simps)
      (simp add: length_line_nonempty trimSpace_blank_show_int sscan_show)
qed

lemma read_blank_line: "read_header n (ch 13 # ch 10 # r) = HeaderDone n r"
proof -
  have "read_line ([ch 13] @ ch 10 # r) = Some ([ch 13] @ [ch 10], r)"
    by (intro read_line_append) (simp add: ch_def)
  then show ?thesis by (subst read_header.simps) (simp add: trimRightSet_def crlf_def)
qed

definition sendable :: "string \<Rightarrow> bool" where
  "sendable p \<longleftrightarrow> p \<noteq> [] \<and> in_int64 (int (length p)) \<and> unmarshal_map p \<noteq> None"

lemma read_frame:
  assumes "sendable p"
  shows "read_header k (frame p @ r) = HeaderDone (int (length p)) (p @ r)"
    "read_payload (int (length p)) (p @ r) = Inr (the (unmarshal_map p), r)"
  using assms read_length_line [of "int (length p)" k]
  by (auto simp: sendable_def frame_lines read_blank_line read_payload_def)

lemma readDAPMessage_frame: "sendable p \<Longrightarrow> readDAPMessage (frame p @ r) = Inr (Some (the (unmarshal_map p), r))"
  by (simp add: readDAPMessage_def read_frame)

theorem dap_frames_read_back:
  "list_all sendable ps \<Longrightarrow>
     ReadDAPMessages (concat (map frame ps)) = (map (the \<circ> unmarshal_map) ps, CleanEnd)"
proof (induction ps)
  case Nil
  then show ?case by (subst ReadDAPMessages.simps) (simp add: read_header.simps read_line_def)
next
  case (Cons p ps)
  then show ?case by (subst ReadDAPMessages.simps) (simp add: read_frame)
qed


lemma sendable_sample: "sendable [ch 123, ch 125]" "unmarshal_map [ch 123, ch 125] = Some []"
  by code_simp+

theorem dap_frames_read_back_witness:
  "ReadDAPMessages (frame [ch 123, ch 125] @ frame [ch 123, ch 125]) = ([[], []], CleanEnd)"
  using dap_frames_read_back [of "[[ch 123, ch 125], [ch 123, ch 125]]"] by (simp add: sendable_sample)

text \<open>What a header gives when the stream ends after \<open>k\<close> bytes of a frame.\<close>

lemma header_no_newline: "ch 10 \<notin> set l \<Longrightarrow> read_header n l = HeaderEOF l n"
  by (subst read_header.simps) (simp add: read_line_none)

definition header_length :: "string \<Rightarrow> nat" where
  "header_length p = length (frame p) - length p"

lemma header_length_line: "header_length p = length (length_line (int (length p))) + 4"
  by (simp add: header_length_def frame_lines)

lemma read_truncated:
  assumes "sendable p" "k < length (frame p)"
  shows "read_header j (take k (frame p)) =
    (if k + 2 < header_length p then HeaderEOF (take k (frame p)) j
     else if k < header_length p then HeaderEOF (drop (header_length p - 2) (take k (frame p))) (int (length p))
     else HeaderDone (int (length p)) (take (k - header_length p) p))"
proof -
  let ?L = "length_line (int (length p))"
  let ?n = "length ?L"
  have n: "0 < int (length p)" "in_int64 (int (length p))" using assms(1) by (auto simp: sendable_def)
  note hl = header_length_line
  consider "k \<le> ?n + 1" | "k = ?n + 2" | "k = ?n + 3" | "?n + 4 \<le> k" by linarith
  then show ?thesis
  proof cases
    case 1
    have "ch 10 \<notin> set (take k (?L @ [ch 13]))"
      using length_line_no_newline(1) [of "int (length p)"] by (auto simp: ch_def dest!: in_set_takeD)
    moreover have "take k (frame p) = take k (?L @ [ch 13])" using 1 by (simp add: frame_lines take_Cons' )
    ultimately show ?thesis using 1 by (simp add: header_no_newline hl)
  next
    case 2
    then have "take k (frame p) = ?L @ ch 13 # ch 10 # []" by (simp add: frame_lines)
    then show ?thesis using 2 by (simp add: read_length_line [OF n] header_no_newline hl)
  next
    case 3
    then have "take k (frame p) = ?L @ ch 13 # ch 10 # [ch 13]" by (simp add: frame_lines)
    moreover have "ch 10 \<notin> set [ch 13]" by (simp add: ch_def)
    ultimately show ?thesis using 3 by (simp add: read_length_line [OF n] header_no_newline hl)
  next
    case 4
    then have "take k (frame p) = ?L @ ch 13 # ch 10 # ch 13 # ch 10 # take (k - header_length p) p"
      by (simp add: frame_lines take_Cons' hl numeral_eq_Suc)
    then show ?thesis using 4 by (simp add: read_length_line [OF n] read_blank_line hl)
  qed
qed

lemma truncated_read:
  assumes "sendable p" "k < length (frame p)"
  shows "readDAPMessage (take k (frame p)) =
    (if k = 0 then Inr None
     else Inl (if k < header_length p then MidHeader else if k = header_length p then BodyEOF else ShortBody))"
proof -
  have "p \<noteq> []" using assms(1) by (simp add: sendable_def)
  moreover have "k - header_length p < length p" if "header_length p \<le> k"
    using assms(2) that by (simp add: header_length_def)
  ultimately show ?thesis
    using assms by (auto simp: readDAPMessage_def read_truncated read_payload_def header_length_line)
qed


theorem truncated_frame_never_read:
  assumes "sendable p" "k < length (frame p)"
  shows "readDAPMessage (take k (frame p)) =
    (if k = 0 then Inr None
     else Inl (if k < header_length p then MidHeader else if k = header_length p then BodyEOF else ShortBody))"
  by (rule truncated_read [OF assms])

theorem truncated_frame_never_read_witness:
  "readDAPMessage (take (header_length [ch 123, ch 125] + 1) (frame [ch 123, ch 125])) = Inl ShortBody"
  using truncated_frame_never_read [OF sendable_sample(1), of "header_length [ch 123, ch 125] + 1"]
  by (simp add: header_length_line frame_lines)


subsection \<open>Messages that can be encoded\<close>

definition encodes :: "any \<Rightarrow> bool" where
  "encodes v \<longleftrightarrow> marshal v \<noteq> None"

named_theorems encoding

lemma marshal_list_encodes: "marshal_list vs \<noteq> None \<longleftrightarrow> list_all encodes vs"
  by (induction vs) (auto simp: encodes_def split: option.splits)

lemma marshal_kvs_encodes: "marshal_kvs kvs \<noteq> None \<longleftrightarrow> list_all (\<lambda>(k, v). encodes v) kvs"
  by (induction kvs) (auto simp: encodes_def split: option.splits)

lemma encodes_simps [encoding]:
  "encodes ANil" "encodes (AStr s)" "encodes (ABool b)" "encodes (AInt k n)"
  "encodes (AArr vs) \<longleftrightarrow> list_all encodes vs" "encodes (AObj kvs) \<longleftrightarrow> list_all (\<lambda>(k, v). encodes v) kvs"
  using marshal_list_encodes [of vs] marshal_kvs_encodes [of kvs] by (auto simp: encodes_def)

lemma writeMessage_encodes: "encodes (AObj m) \<Longrightarrow> \<exists>bytes. writeMessage m = Some bytes"
  by (auto simp: encodes_def writeMessage_def)

lemma encodes_event [encoding]:
  "list_all (\<lambda>(k, v). encodes v) (event_message n name body) \<longleftrightarrow> (case body of None \<Rightarrow> True | Some b \<Rightarrow> encodes b)"
  by (cases body) (simp_all add: event_message_def encoding)

subsection \<open>Thread ids\<close>

text \<open>
  Both programs number the keys they see: a known key keeps its number, a new one gets the
  next. The laws hold of the emitter and of the server.
\<close>

definition key_number :: "string list \<Rightarrow> string \<Rightarrow> int" where
  "key_number keys k = 1 + int (length (takeWhile (\<lambda>x. x \<noteq> k) keys))"

definition add_key :: "string list \<Rightarrow> string \<Rightarrow> string list" where
  "add_key keys k = (if k \<in> set keys then keys else keys @ [k])"

lemma map_of_numbered:
  "k \<in> set keys \<Longrightarrow> map snd kvs = [a..a + int (length keys) - 1] \<Longrightarrow> map fst kvs = keys \<Longrightarrow> distinct keys \<Longrightarrow>
    map_of kvs k = Some (a + int (length (takeWhile (\<lambda>x. x \<noteq> k) keys)))"
proof (induction keys arbitrary: a kvs)
  case (Cons j keys)
  then obtain i r where kvs: "kvs = (j, i) # r" by (cases kvs) auto
  have "[a..a + int (length (j # keys)) - 1] = a # [a + 1..(a + 1) + int (length keys) - 1]"
    by (simp add: upto_rec1)
  with Cons.prems(2,3) kvs have "i = a" "map snd r = [a + 1..(a + 1) + int (length keys) - 1]" "map fst r = keys"
    by simp_all
  with Cons.IH [of r "a + 1"] Cons.prems(1,4) kvs show ?case by (auto simp: add.assoc)
qed simp

lemma key_number_prefix: "k \<in> set keys \<Longrightarrow> key_number (keys @ ks) k = key_number keys k"
  by (simp add: key_number_def takeWhile_append1)

lemma nth_position: "k \<in> set keys \<Longrightarrow> keys ! length (takeWhile (\<lambda>x. x \<noteq> k) keys) = k"
  by (induction keys) auto

lemma key_number_inj: "inj_on (key_number keys) (set keys)"
  by (rule inj_onI) (metis key_number_def add_left_cancel nat_int nth_position)

locale id_allocator =
  fixes alloc :: "string \<Rightarrow> 's \<Rightarrow> (int \<times> bool) \<times> 's"
    and known :: "'s \<Rightarrow> (string \<times> int) list"
    and next_id :: "'s \<Rightarrow> int"
  assumes alloc_known: "map_of (known s) k = Some i \<Longrightarrow> alloc k s = ((i, False), s)"
    and alloc_fresh: "map_of (known s) k = None \<Longrightarrow> \<exists>s1. alloc k s = ((next_id s, True), s1)
      \<and> known s1 = known s @ [(k, next_id s)] \<and> next_id s1 = next_id s + 1"
begin

definition numbered :: "'s \<Rightarrow> bool" where
  "numbered s \<longleftrightarrow> distinct (map fst (known s)) \<and> map snd (known s) = [1..next_id s - 1] \<and> 1 \<le> next_id s"

lemma numbered_alloc: "numbered s \<Longrightarrow> numbered (snd (alloc k s))"
proof (cases "map_of (known s) k")
  case None
  assume n: "numbered s"
  from alloc_fresh [OF None] obtain s1 where s1: "alloc k s = ((next_id s, True), s1)"
    "known s1 = known s @ [(k, next_id s)]" "next_id s1 = next_id s + 1" by blast
  have "k \<notin> set (map fst (known s))" using None by (simp add: map_of_eq_None_iff)
  with n s1 show ?thesis by (auto simp: numbered_def upto_rec2 [of 1 "next_id s"])
qed (simp add: alloc_known)

lemma alloc_id: "map_of (known (snd (alloc k s))) k = Some (fst (fst (alloc k s)))"
proof (cases "map_of (known s) k")
  case None
  with alloc_fresh [OF None] show ?thesis by (auto simp: map_add_def)
qed (simp add: alloc_known)

lemma alloc_keeps: "map_of (known s) j = Some i \<Longrightarrow> map_of (known (snd (alloc k s))) j = Some i"
proof (cases "map_of (known s) k")
  case None
  assume "map_of (known s) j = Some i"
  with None alloc_fresh [OF None] show ?thesis by (auto simp: map_add_def)
qed (simp add: alloc_known)

lemma alloc_keys: "map fst (known (snd (alloc k s))) = add_key (map fst (known s)) k"
proof (cases "map_of (known s) k")
  case None
  then have "k \<notin> fst ` set (known s)" by (simp add: map_of_eq_None_iff)
  with alloc_fresh [OF None] show ?thesis by (auto simp: add_key_def)
next
  case (Some i)
  then have "k \<in> fst ` set (known s)" by (metis domI dom_map_of_conv_image_fst)
  with Some show ?thesis by (simp add: alloc_known add_key_def)
qed

lemma alloc_new: "snd (fst (alloc k s)) \<longleftrightarrow> k \<notin> fst ` set (known s)"
proof (cases "map_of (known s) k")
  case None
  with alloc_fresh [OF None] show ?thesis by (auto simp: map_of_eq_None_iff)
next
  case (Some i)
  then show ?thesis by (auto simp: alloc_known dest: map_of_SomeD intro: rev_image_eqI)
qed

lemma same_id: "numbered s \<Longrightarrow> map_of (known s) k = Some i \<Longrightarrow> map_of (known s) l = Some i \<Longrightarrow> k = l"
proof -
  assume n: "numbered s" and k: "map_of (known s) k = Some i" and l: "map_of (known s) l = Some i"
  have "distinct (map snd (known s))" using n by (simp add: numbered_def)
  moreover have "(k, i) \<in> set (known s)" "(l, i) \<in> set (known s)" using k l by (auto dest: map_of_SomeD)
  ultimately show ?thesis by (fastforce simp: distinct_map inj_on_def)
qed

text \<open>The number of a key is its place in the order of appearance.\<close>

lemma id_is_number:
  "numbered s \<Longrightarrow> k \<in> fst ` set (known s) \<Longrightarrow> map_of (known s) k = Some (key_number (map fst (known s)) k)"
proof -
  assume n: "numbered s" and k: "k \<in> fst ` set (known s)"
  then have "length (map snd (known s)) = length [1..next_id s - 1]" by (simp only: numbered_def)
  then have "int (length (known s)) = next_id s - 1" using n by (simp add: numbered_def)
  then show ?thesis
    using map_of_numbered [of k "map fst (known s)" "known s" 1] n k by (simp add: numbered_def key_number_def)
qed

lemma alloc_number:
  assumes "numbered s"
  shows "fst (fst (alloc k s)) = key_number (add_key (map fst (known s)) k) k"
proof -
  have "map_of (known (snd (alloc k s))) k = Some (key_number (map fst (known (snd (alloc k s)))) k)"
    using alloc_id [of k s] by (intro id_is_number [OF numbered_alloc [OF assms]])
      (auto dest!: map_of_SomeD intro: rev_image_eqI)
  then show ?thesis by (simp add: alloc_id alloc_keys)
qed

end

lemma update_new: "map_of kvs k = None \<Longrightarrow> AList.update k v kvs = kvs @ [(k, v)]"
  by (induction kvs) (auto split: if_splits)

interpretation emitter_ids: id_allocator em_threadIDFor em_threadIDs em_nextTID
  by unfold_locales (simp_all add: em_threadIDFor_def update_new)

subsection \<open>What an emission writes\<close>

text \<open>The events of a run as a function of its spans: names and bodies, numbered from a first \<open>seq\<close>.\<close>

type_synonym dap_event = "string \<times> any option"

fun number_events :: "int \<Rightarrow> dap_event list \<Rightarrow> gomap list" where
  "number_events n [] = []"
| "number_events n ((name, body) # es) = event_message n name body # number_events (n + 1) es"

definition span_events :: "string list \<Rightarrow> string \<Rightarrow> int \<Rightarrow> span \<Rightarrow> dap_event list" where
  "span_events keys key ref ev =
     (let tid = key_number (add_key keys key) key in
      (if key \<in> set keys then [] else [(''thread'', Some (thread_body tid))])
      @ [(''output'', Some (AObj [(''category'', AStr ''stdout''), (''output'', AStr (console_line ev))])),
         (''stopped'', Some (stopped_body ev tid ref)),
         (''continued'', Some (AObj [(''threadId'', AInt KInt tid), (''allThreadsContinued'', ABool False)]))])"

fun script :: "string \<Rightarrow> string list \<Rightarrow> int \<Rightarrow> span list \<Rightarrow> dap_event list" where
  "script by keys ref [] = []"
| "script by keys ref (ev # evs) =
     span_events keys (thread_key by ev) ref ev @ script by (add_key keys (thread_key by ev)) (ref + 1) evs"

definition first_events :: "int \<Rightarrow> dap_event list" where
  "first_events pid = [(''initialized'', None), (''process'', Some (process_body pid))]"

definition last_events :: "int \<Rightarrow> int \<Rightarrow> dap_event list" where
  "last_events ingested dropped =
     [(''output'', Some (AObj [(''category'', AStr ''console''),
         (''output'', AStr (''exec-history-dap: replayed '' @ show_int ingested @ '' span(s), dropped ''
            @ show_int dropped @ '' invalid line(s)'' @ [ch 10]))])),
      (''terminated'', Some (AObj []))]"

lemma number_events_append:
  "number_events n (xs @ ys) = number_events n xs @ number_events (n + int (length xs)) ys"
  by (induction xs arbitrary: n) (auto simp: algebra_simps)

definition emits :: "dap_event list \<Rightarrow> emitter \<Rightarrow> emitter" where
  "emits es e = e\<lparr>em_seq := em_seq e + int (length es), em_out := em_out e @ number_events (em_seq e + 1) es\<rparr>"

lemma emits_emits [simp]: "emits ys (emits xs e) = emits (xs @ ys) e"
  by (simp add: emits_def number_events_append algebra_simps)

lemma emits_fields [simp]:
  "em_threadIDs (emits es e) = em_threadIDs e" "em_nextTID (emits es e) = em_nextTID e"
  "em_threadBy (emits es e) = em_threadBy e" "em_nextVar (emits es e) = em_nextVar e"
  "em_out (emits es e) = em_out e @ number_events (em_seq e + 1) es" "em_seq (emits es e) = em_seq e + int (length es)"
  by (simp_all add: emits_def)

lemma writeEvent_emits:
  "(case body of None \<Rightarrow> True | Some b \<Rightarrow> encodes b) \<Longrightarrow> writeEvent name body e = Some (emits [(name, body)] e)"
  using writeMessage_encodes [of "event_message (em_seq e + 1) name body"]
  by (auto simp: writeEvent_def emits_def encoding Let_def)

lemma bodies_encode [encoding]:
  "encodes (thread_body tid)" "encodes (stopped_body ev tid ref)" "encodes (process_body pid)"
  by (simp_all add: thread_body_def stopped_body_def process_body_def encoding)

lemma alloc_log:
  "em_out (snd (em_threadIDFor k e)) = em_out e" "em_seq (snd (em_threadIDFor k e)) = em_seq e"
  "em_threadBy (snd (em_threadIDFor k e)) = em_threadBy e" "em_nextVar (snd (em_threadIDFor k e)) = em_nextVar e"
  by (simp_all add: em_threadIDFor_def split: option.splits)

definition keys_of :: "emitter \<Rightarrow> string list" where
  "keys_of e = map fst (em_threadIDs e)"

lemma onSpan_events:
  assumes "emitter_ids.numbered e"
  shows "\<exists>e1. onSpan ev e = Some e1 \<and> emitter_ids.numbered e1 \<and> em_threadBy e1 = em_threadBy e
    \<and> em_nextVar e1 = em_nextVar e + 1 \<and> keys_of e1 = add_key (keys_of e) (thread_key (em_threadBy e) ev)
    \<and> (let es = span_events (keys_of e) (thread_key (em_threadBy e) ev) (em_nextVar e) ev in
        em_seq e1 = em_seq e + int (length es) \<and> em_out e1 = em_out e @ number_events (em_seq e + 1) es)"
proof -
  let ?k = "thread_key (em_threadBy e) ev"
  obtain tid fresh e0 where e0: "em_threadIDFor ?k e = ((tid, fresh), e0)" by (metis prod.exhaust)
  have n: "emitter_ids.numbered e0" using emitter_ids.numbered_alloc [OF assms, of ?k] by (simp add: e0)
  have tid: "tid = key_number (add_key (keys_of e) ?k) ?k"
    using emitter_ids.alloc_number [OF assms, of ?k] by (simp add: e0 keys_of_def)
  have fresh: "fresh \<longleftrightarrow> ?k \<notin> set (keys_of e)"
    using emitter_ids.alloc_new [of ?k e] by (simp add: e0 keys_of_def)
  have keys: "keys_of e0 = add_key (keys_of e) ?k"
    using emitter_ids.alloc_keys [of ?k e] by (simp add: e0 keys_of_def)
  have log: "em_out e0 = em_out e" "em_seq e0 = em_seq e" "em_threadBy e0 = em_threadBy e" "em_nextVar e0 = em_nextVar e"
    using alloc_log [of ?k e] by (simp_all add: e0)
  let ?out = "(''output'', Some (AObj [(''category'', AStr ''stdout''), (''output'', AStr (console_line ev))]))"
  let ?first = "(if fresh then [(''thread'', Some (thread_body tid))] else []) @ [?out]"
  let ?last = "[(''stopped'', Some (stopped_body ev tid (em_nextVar e))),
     (''continued'', Some (AObj [(''threadId'', AInt KInt tid), (''allThreadsContinued'', ABool False)]))]"
  let ?e1 = "emits ?last (snd (em_allocVar (spanAsMap ev) (emits ?first e0)))"
  have "onSpan ev e = Some ?e1"
    by (simp add: onSpan_def e0 Let_def writeEvent_emits encoding em_allocVar_def log)
  moreover have "emitter_ids.numbered ?e1" "keys_of ?e1 = keys_of e0"
    using n by (simp_all add: emitter_ids.numbered_def keys_of_def em_allocVar_def)
  moreover have "em_threadBy ?e1 = em_threadBy e" "em_nextVar ?e1 = em_nextVar e + 1"
    by (simp_all add: em_allocVar_def log)
  moreover have "span_events (keys_of e) ?k (em_nextVar e) ev = ?first @ ?last"
    by (simp add: span_events_def tid [symmetric] fresh Let_def)
  moreover have "em_seq ?e1 = em_seq e + int (length (?first @ ?last))"
    "em_out ?e1 = em_out e @ number_events (em_seq e + 1) (?first @ ?last)"
    by (simp_all add: em_allocVar_def log number_events_append algebra_simps)
  ultimately show ?thesis unfolding Let_def using keys by metis
qed

lemma on_spans_script:
  assumes "emitter_ids.numbered e"
  shows "\<exists>e1. on_spans evs e = Some e1
    \<and> (let es = script (em_threadBy e) (keys_of e) (em_nextVar e) evs in
        em_seq e1 = em_seq e + int (length es) \<and> em_out e1 = em_out e @ number_events (em_seq e + 1) es)"
  using assms
proof (induction evs arbitrary: e)
  case (Cons ev evs)
  from onSpan_events [OF Cons.prems, of ev] obtain e1 where e1: "onSpan ev e = Some e1" "emitter_ids.numbered e1"
    "em_threadBy e1 = em_threadBy e" "em_nextVar e1 = em_nextVar e + 1"
    "keys_of e1 = add_key (keys_of e) (thread_key (em_threadBy e) ev)"
    "em_seq e1 = em_seq e + int (length (span_events (keys_of e) (thread_key (em_threadBy e) ev) (em_nextVar e) ev))"
    "em_out e1 = em_out e @ number_events (em_seq e + 1)
       (span_events (keys_of e) (thread_key (em_threadBy e) ev) (em_nextVar e) ev)"
    by (auto simp: Let_def)
  from Cons.IH [OF e1(2)] show ?case by (simp add: e1 Let_def number_events_append algebra_simps)
qed simp

lemma emit_output:
  "map_option em_out (emitCmd pid by spans (Inr (ingested, dropped))) =
     Some (number_events 1 (first_events pid @ script by [] 1000 spans @ last_events ingested dropped))"
proof -
  let ?e = "emits (first_events pid) (newEmitter by)"
  have "initialize pid (newEmitter by) = Some ?e"
    by (simp add: initialize_def writeEvent_emits encoding first_events_def)
  moreover have "emitter_ids.numbered ?e" "keys_of ?e = []" "em_nextVar ?e = 1000" "em_threadBy ?e = by"
    by (simp_all add: emitter_ids.numbered_def keys_of_def newEmitter_def)
  moreover have "em_out ?e = number_events 1 (first_events pid)" "em_seq ?e = int (length (first_events pid))"
    by (simp_all add: newEmitter_def)
  moreover have "terminate ingested dropped e = Some (emits (last_events ingested dropped) e)" for e
    by (simp add: terminate_def writeEvent_emits encoding last_events_def)
  ultimately show ?thesis
    using on_spans_script [of ?e spans]
    by (auto simp: emitCmd_def Let_def number_events_append algebra_simps)
qed

text \<open>C16. The emitter, which keeps thread ids and references in its state, writes exactly the events that
  a pure function of the spans gives: the opening, the burst of every span with a thread event for
  each new key, and the closing, numbered from 1; it never fails.\<close>

theorem emit_writes_the_script:
  "map_option em_out (emitCmd pid by spans (Inr (ingested, dropped))) =
     Some (number_events 1 (first_events pid @ script by [] 1000 spans @ last_events ingested dropped))"
  by (rule emit_output)

text \<open>The thread of each \<open>stopped\<close> event of an output.\<close>

definition stopped_thread :: "gomap \<Rightarrow> int list" where
  "stopped_thread m =
     (if map_of m ''event'' = Some (AStr ''stopped'') then
        (case map_of m ''body'' of
           Some (AObj b) \<Rightarrow> (case map_of b ''threadId'' of Some (AInt k tid) \<Rightarrow> [tid] | _ \<Rightarrow> [])
         | _ \<Rightarrow> [])
      else [])"

definition stopped_threads :: "gomap list \<Rightarrow> int list" where
  "stopped_threads out = concat (map stopped_thread out)"

lemma stopped_thread_event:
  "stopped_thread (event_message n name body) =
     (if name = ''stopped'' then
        (case body of Some (AObj b) \<Rightarrow> (case map_of b ''threadId'' of Some (AInt k tid) \<Rightarrow> [tid] | _ \<Rightarrow> []) | _ \<Rightarrow> [])
      else [])"
  by (cases body) (simp_all add: stopped_thread_def event_message_def)

lemma stopped_threads_append [simp]: "stopped_threads (xs @ ys) = stopped_threads xs @ stopped_threads ys"
  by (simp add: stopped_threads_def)

lemma stopped_threads_span:
  "stopped_threads (number_events n (span_events keys k ref ev)) = [key_number (add_key keys k) k]"
  by (simp add: stopped_threads_def span_events_def Let_def stopped_thread_event stopped_body_def)

lemma stopped_threads_script:
  "stopped_threads (number_events n (script by keys ref evs)) =
     map (key_number (foldl add_key keys (map (thread_key by) evs))) (map (thread_key by) evs)"
proof (induction evs arbitrary: n keys ref)
  case (Cons ev evs)
  let ?k = "thread_key by ev"
  have "\<exists>more. foldl add_key keys1 ks = keys1 @ more" for keys1 ks
    by (induction ks arbitrary: keys1) (auto simp: add_key_def, metis append_assoc)
  then obtain more where "foldl add_key (add_key keys ?k) (map (thread_key by) evs) = add_key keys ?k @ more" by blast
  moreover have "?k \<in> set (add_key keys ?k)" by (simp add: add_key_def)
  ultimately show ?case
    using Cons.IH by (simp add: number_events_append stopped_threads_span key_number_prefix)
qed (simp add: stopped_threads_def)

lemma set_add_keys: "set (foldl add_key keys ks) = set keys \<union> set ks"
  by (induction ks arbitrary: keys) (auto simp: add_key_def)

theorem emit_threads_are_keys:
  "\<exists>number. map_option (stopped_threads \<circ> em_out) (emitCmd pid by spans (Inr (ingested, dropped)))
       = Some (map (number \<circ> thread_key by) spans)
     \<and> inj_on number (set (map (thread_key by) spans))"
proof (intro exI conjI)
  let ?number = "key_number (foldl add_key [] (map (thread_key by) spans))"
  have ends: "stopped_threads (number_events n (first_events pid)) = []"
    "stopped_threads (number_events n (last_events ingested dropped)) = []" for n
    by (simp_all add: first_events_def last_events_def stopped_threads_def stopped_thread_event)
  show "map_option (stopped_threads \<circ> em_out) (emitCmd pid by spans (Inr (ingested, dropped)))
       = Some (map (?number \<circ> thread_key by) spans)"
    using emit_output [of pid "by" spans ingested dropped]
    by (auto simp: number_events_append ends stopped_threads_script)
  show "inj_on ?number (set (map (thread_key by) spans))"
    using key_number_inj [of "foldl add_key [] (map (thread_key by) spans)"] by (simp add: set_add_keys)
qed

end
