(* ===== verification/DapServe_Facts.thy ===== *)
theory DapServe_Facts
  imports DapServe Dap_Facts
begin

text \<open>
  What the interactive debug server promises: every request is answered once and in order,
  references and thread ids keep their meaning, stepping walks through the trace, and the
  byte stream is served message by message.
\<close>

interpretation server_ids: id_allocator sv_threadIDFor sv_threadIDs sv_nextTID
  by unfold_locales (simp_all add: sv_threadIDFor_def update_new)

subsection \<open>Requests and answers\<close>

definition is_request :: "gomap \<Rightarrow> bool" where
  "is_request m \<longleftrightarrow> str_field m ''type'' = ''request''"

definition command :: "gomap \<Rightarrow> string" where
  "command m = str_field m ''command''"

definition request_seq :: "session \<Rightarrow> gomap \<Rightarrow> int" where
  "request_seq se m = f64_to_int64 (se_oob se) (num_field m ''seq'')"

definition seq_of :: "gomap \<Rightarrow> int" where
  "seq_of m = (case map_of m ''seq'' of Some (AInt k n) \<Rightarrow> n | _ \<Rightarrow> 0)"

text \<open>The request and the command a message answers, if it is a response.\<close>

definition answer_of :: "gomap \<Rightarrow> (int \<times> string) list" where
  "answer_of m =
     (case (map_of m ''type'', map_of m ''request_seq'', map_of m ''command'') of
        (Some (AStr t), Some (AInt k q), Some (AStr c)) \<Rightarrow> if t = ''response'' then [(q, c)] else []
      | _ \<Rightarrow> [])"

text \<open>
  A step of the server that does not fail, numbers what it writes consecutively and gives
  the answers \<open>qs\<close>.
\<close>

definition answers :: "(int \<times> string) list \<Rightarrow> server \<Rightarrow> verdict \<times> server \<Rightarrow> bool" where
  "answers qs s r \<longleftrightarrow> fst r \<noteq> Failed \<and> sv_seq s \<le> sv_seq (snd r)
     \<and> (\<exists>new. sv_out (snd r) = sv_out s @ new \<and> map seq_of new = [sv_seq s + 1..sv_seq (snd r)]
              \<and> concat (map answer_of new) = qs)"

lemma answers_trans:
  assumes "answers qs s (v, s1)" "answers qs1 s1 r"
  shows "answers (qs @ qs1) s r"
proof -
  from assms obtain new new1 where "sv_out s1 = sv_out s @ new" "map seq_of new = [sv_seq s + 1..sv_seq s1]"
    "concat (map answer_of new) = qs" "sv_out (snd r) = sv_out s1 @ new1"
    "map seq_of new1 = [sv_seq s1 + 1..sv_seq (snd r)]" "concat (map answer_of new1) = qs1"
    by (auto simp: answers_def)
  moreover have "[sv_seq s + 1..sv_seq (snd r)] = [sv_seq s + 1..sv_seq s1] @ [sv_seq s1 + 1..sv_seq (snd r)]"
    using assms upto_split2 [of "sv_seq s + 1" "sv_seq s1" "sv_seq (snd r)"]
    by (cases "sv_seq s = sv_seq s1") (auto simp: answers_def)
  ultimately show ?thesis using assms by (auto simp: answers_def intro!: exI [of _ "new @ new1"])
qed

lemma and_then_Continue [simp]: "and_then (Continue, s) k = k s"
  by (simp add: and_then_def)

lemma sv_send_encodes: "list_all (\<lambda>(k, v). encodes v) m \<Longrightarrow> sv_send m s = (Continue, s\<lparr>sv_out := sv_out s @ [m]\<rparr>)"
  using writeMessage_encodes [of m] by (auto simp: sv_send_def encoding)

abbreviation body_ok :: "any option \<Rightarrow> bool" where
  "body_ok body \<equiv> (case body of None \<Rightarrow> True | Some b \<Rightarrow> encodes b)"

lemma event_continues: "body_ok body \<Longrightarrow> event name body s =
    (Continue, s\<lparr>sv_seq := sv_seq s + 1, sv_out := sv_out s @ [event_message (sv_seq s + 1) name body]\<rparr>)"
  by (simp add: event_def sv_send_encodes encoding)

lemma respond_continues: "body_ok body \<Longrightarrow> respond q cmd ok msg body s =
    (Continue, s\<lparr>sv_seq := sv_seq s + 1,
                 sv_out := sv_out s @ [response_message (sv_seq s + 1) q cmd ok msg body]\<rparr>)"
  by (cases body) (simp_all add: respond_def sv_send_encodes response_message_def encoding)

lemma message_fields [simp]:
  "seq_of (event_message n name body) = n" "answer_of (event_message n name body) = []"
  "seq_of (response_message n q cmd ok msg body) = n"
  "answer_of (response_message n q cmd ok msg body) = [(q, cmd)]"
  by (cases body; simp add: seq_of_def answer_of_def event_message_def response_message_def)+

lemma answers_event: "body_ok body \<Longrightarrow> answers [] s (event name body s)"
  by (simp add: event_continues answers_def)

lemma answers_respond: "body_ok body \<Longrightarrow> answers [(q, cmd)] s (respond q cmd ok msg body s)"
  by (simp add: respond_continues answers_def)

lemma answers_and_then:
  assumes "answers qs s r" "fst r = Continue" "\<And>s1. answers qs1 s1 (k s1)"
  shows "answers (qs @ qs1) s (and_then r k)"
  using assms answers_trans [of qs s Continue "snd r"] by (cases r) (auto simp: and_then_def)

text \<open>Fields of the state that an answer does not read may change around it.\<close>

lemma answers_same_log: "sv_out s1 = sv_out s \<Longrightarrow> sv_seq s1 = sv_seq s \<Longrightarrow> answers qs s1 r \<longleftrightarrow> answers qs s r"
  by (simp add: answers_def)

lemma thread_log [simp]:
  "sv_out (snd (sv_threadIDFor k s)) = sv_out s" "sv_seq (snd (sv_threadIDFor k s)) = sv_seq s"
  "sv_spans (snd (sv_threadIDFor k s)) = sv_spans s" "sv_cursor (snd (sv_threadIDFor k s)) = sv_cursor s"
  "sv_varRefs (snd (sv_threadIDFor k s)) = sv_varRefs s" "sv_nextVar (snd (sv_threadIDFor k s)) = sv_nextVar s"
  "sv_threadBy (snd (sv_threadIDFor k s)) = sv_threadBy s" "sv_terminated (snd (sv_threadIDFor k s)) = sv_terminated s"
  by (simp_all add: sv_threadIDFor_def split: option.splits)

lemma sv_stopped_body_encodes [encoding]: "encodes (sv_stopped_body ev tid)"
  by (simp add: sv_stopped_body_def encoding)

text \<open>\<open>advanceAndStop\<close> as a sequence of events and updates.\<close>

lemma advance_end:
  assumes "int (length (sv_spans s)) \<le> sv_cursor s + 1"
  shows "advanceAndStop s =
    (Continue, s\<lparr>sv_cursor := sv_cursor s + 1, sv_stopped := False, sv_terminated := True, sv_seq := sv_seq s + 1,
                 sv_out := sv_out s @ [event_message (sv_seq s + 1) ''terminated'' (Some (AObj []))]\<rparr>)"
  using assms by (simp add: advanceAndStop_def event_continues encoding)

lemma advance_stop:
  assumes "sv_cursor s + 1 < int (length (sv_spans s))"
    and "sv_threadIDFor (thread_key (sv_threadBy s) (sv_spans s ! nat (sv_cursor s + 1))) (s\<lparr>sv_cursor := sv_cursor s + 1\<rparr>)
           = ((tid, fresh), s1)"
  shows "advanceAndStop s =
    (let thread = (if fresh then [event_message (sv_seq s + 1) ''thread'' (Some (thread_body tid))] else []);
         n = sv_seq s + int (length thread) + 1
     in (Continue, s1\<lparr>sv_stopped := True, sv_seq := n,
           sv_out := sv_out s @ thread
             @ [event_message n ''stopped'' (Some (sv_stopped_body (sv_spans s ! nat (sv_cursor s + 1)) tid))]\<rparr>))"
proof -
  have "sv_out s1 = sv_out s" "sv_seq s1 = sv_seq s"
    using thread_log [of "thread_key (sv_threadBy s) (sv_spans s ! nat (sv_cursor s + 1))" "s\<lparr>sv_cursor := sv_cursor s + 1\<rparr>"]
    by (simp_all add: assms(2) del: thread_log)
  then show ?thesis using assms by (simp add: advanceAndStop_def event_continues encoding Let_def)
qed

lemma answers_advance: "answers [] s (advanceAndStop s)"
proof (cases "sv_cursor s + 1 < int (length (sv_spans s))")
  case True
  obtain tid fresh s1 where "sv_threadIDFor (thread_key (sv_threadBy s) (sv_spans s ! nat (sv_cursor s + 1)))
      (s\<lparr>sv_cursor := sv_cursor s + 1\<rparr>) = ((tid, fresh), s1)" by (metis prod.exhaust)
  from advance_stop [OF True this] show ?thesis
    by (simp add: answers_def Let_def upto_rec1)
next
  case False
  then show ?thesis by (simp add: advance_end answers_def)
qed


subsection \<open>Every request is answered once, in order\<close>

lemma vars_loop_encode: "list_all encodes (fst (vars_loop kvs n refs))"
  by (induction kvs n refs rule: vars_loop.induct)
    (auto simp: Let_def encoding split: prod.splits any.splits)

lemma answers_stackTrace: "answers [(q, ''stackTrace'')] s (handle_stackTrace q s)"
  by (auto simp: handle_stackTrace_def frame_body_def encoding intro!: answers_respond split: option.splits)

lemma answers_scopes: "answers [(q, ''scopes'')] s (handle_scopes q s)"
proof (cases "currentSpan s")
  case (Some ev)
  then show ?thesis
    using answers_respond [of _ q "''scopes''" "snd (sv_allocVar (spanAsMap ev) s)"]
    by (simp add: handle_scopes_def sv_allocVar_def encoding answers_def)
qed (simp add: handle_scopes_def answers_respond encoding)

lemma answers_variables: "answers [(q, ''variables'')] s (handle_variables se q args s)"
proof (cases "map_of (sv_varRefs s) (f64_to_int64 (se_oob se) (num_field args ''variablesReference''))")
  case (Some m)
  obtain vars n refs where v: "varsFromMap m (sv_nextVar s) (sv_varRefs s) = (vars, n, refs)"
    by (metis prod.exhaust)
  then have "list_all encodes vars" using vars_loop_encode by (metis fst_conv varsFromMap_def)
  then show ?thesis
    using answers_respond [of "Some (AObj [(''variables'', AArr vars)])" q "''variables''"
        "s\<lparr>sv_nextVar := n, sv_varRefs := refs\<rparr>"]
    by (simp add: handle_variables_def Some v encoding answers_def)
qed (simp add: handle_variables_def answers_respond)

definition leaving :: "gomap \<Rightarrow> bool" where
  "leaving m \<longleftrightarrow> is_request m \<and> command m \<in> {''disconnect'', ''terminate''}"

lemma answers_threads: "list_all encodes (thread_list tids)"
  by (simp add: thread_list_def list_all_iff encoding)

text \<open>The commands that are handled by one function each.\<close>

lemma handle_simps:
  assumes "is_request m"
  shows "command m = ''initialize'' \<Longrightarrow> handle se m s = and_then (respond (request_seq se m) (command m) True []
      (Some (AObj [(''supportsConfigurationDoneRequest'', ABool True),
            (''supportsTerminateRequest'', ABool True), (''supportsStepBack'', ABool False)])) s) (event ''initialized'' None)"
    "command m = ''launch'' \<Longrightarrow> handle se m s = (case loadTrace se s of
           (Some err, s1) \<Rightarrow> respond (request_seq se m) (command m) False err None s1
         | (None, s1) \<Rightarrow> and_then (respond (request_seq se m) (command m) True [] None s1)
                          (event ''process'' (Some (process_body (se_pid se)))))"
    "command m = ''configurationDone'' \<Longrightarrow>
       handle se m s = and_then (respond (request_seq se m) (command m) True [] None s) advanceAndStop"
    "command m = ''threads'' \<Longrightarrow> handle se m s = respond (request_seq se m) (command m) True []
       (Some (AObj [(''threads'', AArr (thread_list (sv_threadIDs s)))])) s"
    "command m = ''stackTrace'' \<Longrightarrow> handle se m s = handle_stackTrace (request_seq se m) s"
    "command m = ''scopes'' \<Longrightarrow> handle se m s = handle_scopes (request_seq se m) s"
    "command m = ''variables'' \<Longrightarrow> handle se m s = handle_variables se (request_seq se m) (obj_field m ''arguments'') s"
    "command m \<in> {''continue'', ''next''} \<Longrightarrow> handle se m s = and_then (respond (request_seq se m) (command m) True []
       (Some (AObj [(''allThreadsContinued'', ABool False)])) s) advanceAndStop"
    "command m \<notin> {''initialize'', ''launch'', ''configurationDone'', ''threads'', ''stackTrace'', ''scopes'', ''variables'',
       ''continue'', ''next'', ''disconnect'', ''terminate''} \<Longrightarrow>
       handle se m s = respond (request_seq se m) (command m) False (''unsupported command '' @ command m) None s"
  using assms
  by (auto simp: handle_def Let_def is_request_def command_def request_seq_def split: prod.splits option.splits)

lemma handle_leave:
  assumes "leaving m"
  shows "handle se m s =
       (let s1 = snd (respond (request_seq se m) (command m) True [] None s)
        in (Stop, if \<not> sv_terminated s1
                  then (snd (event ''terminated'' (Some (AObj [])) s1))\<lparr>sv_terminated := True\<rparr> else s1))"
proof -
  have t: "str_field m ''type'' = ''request''" using assms by (simp add: leaving_def is_request_def)
  consider "str_field m ''command'' = ''disconnect''" | "str_field m ''command'' = ''terminate''"
    using assms by (auto simp: leaving_def command_def)
  then show ?thesis by cases (simp_all add: handle_def t request_seq_def command_def Let_def cong: if_cong)
qed

lemma handle_leaving:
  "leaving m \<Longrightarrow> answers [(request_seq se m, command m)] s (handle se m s) \<and> fst (handle se m s) = Stop"
  by (simp add: handle_leave Let_def respond_continues event_continues encoding answers_def upto_rec1)

lemma handle_other: "\<not> is_request m \<Longrightarrow> handle se m s = (Continue, s)"
  by (simp add: handle_def is_request_def Let_def)

lemma request_cases:
  assumes "is_request m" "\<not> leaving m"
  obtains "command m = ''initialize''" | "command m = ''launch''" | "command m = ''configurationDone''"
    | "command m = ''threads''" | "command m = ''stackTrace''" | "command m = ''scopes''" | "command m = ''variables''"
    | "command m \<in> {''continue'', ''next''}"
    | "command m \<notin> {''initialize'', ''launch'', ''configurationDone'', ''threads'', ''stackTrace'', ''scopes'', ''variables'',
       ''continue'', ''next'', ''disconnect'', ''terminate''}"
  using assms by (auto simp: leaving_def)

lemma respond_verdict [simp]: "body_ok body \<Longrightarrow> fst (respond q cmd ok msg body s) = Continue"
  by (simp add: respond_continues)

lemma not_failed_event: "body_ok body \<Longrightarrow> fst (event name body s) = Continue"
  by (simp add: event_continues)

lemma advance_verdict: "fst (advanceAndStop s) = Continue"
proof (cases "sv_cursor s + 1 < int (length (sv_spans s))")
  case True
  obtain tid fresh s1 where "sv_threadIDFor (thread_key (sv_threadBy s) (sv_spans s ! nat (sv_cursor s + 1)))
      (s\<lparr>sv_cursor := sv_cursor s + 1\<rparr>) = ((tid, fresh), s1)" by (metis prod.exhaust)
  from advance_stop [OF True this] show ?thesis by (simp add: Let_def)
qed (simp add: advance_end)

lemma and_then_verdict: "fst r = Continue \<Longrightarrow> (\<And>s1. fst (k s1) = Continue) \<Longrightarrow> fst (and_then r k) = Continue"
  by (cases r) simp

definition staying :: "(int \<times> string) list \<Rightarrow> server \<Rightarrow> verdict \<times> server \<Rightarrow> bool" where
  "staying qs s r \<longleftrightarrow> answers qs s r \<and> fst r = Continue"

lemma staying_respond: "body_ok body \<Longrightarrow> staying [(q, cmd)] s (respond q cmd ok msg body s)"
  by (simp add: staying_def answers_respond)

lemma staying_and_then:
  "staying qs s r \<Longrightarrow> (\<And>s1. staying [] s1 (k s1)) \<Longrightarrow> staying qs s (and_then r k)"
  using answers_and_then [of qs s r "[]" k] by (simp add: staying_def and_then_verdict)

lemma staying_event: "body_ok body \<Longrightarrow> staying [] s (event name body s)"
  by (simp add: staying_def answers_event not_failed_event)

lemma staying_advance: "staying [] s (advanceAndStop s)"
  by (simp add: staying_def answers_advance advance_verdict)

lemma staying_views:
  "staying [(q, ''stackTrace'')] s (handle_stackTrace q s)" "staying [(q, ''scopes'')] s (handle_scopes q s)"
  "staying [(q, ''variables'')] s (handle_variables se q args s)"
proof -
  have "fst (handle_variables se q args s) = Continue"
  proof (cases "map_of (sv_varRefs s) (f64_to_int64 (se_oob se) (num_field args ''variablesReference''))")
    case (Some m)
    have "list_all encodes (fst (varsFromMap m (sv_nextVar s) (sv_varRefs s)))"
      by (simp add: varsFromMap_def vars_loop_encode)
    then show ?thesis
      by (cases "varsFromMap m (sv_nextVar s) (sv_varRefs s)") (simp add: handle_variables_def Some encoding)
  qed (simp add: handle_variables_def)
  then show "staying [(q, ''variables'')] s (handle_variables se q args s)" by (simp add: staying_def answers_variables)
  have "fst (handle_stackTrace q s) = Continue" "fst (handle_scopes q s) = Continue"
    by (simp_all add: handle_stackTrace_def handle_scopes_def frame_body_def sv_allocVar_def encoding split: option.split)
  then show "staying [(q, ''stackTrace'')] s (handle_stackTrace q s)" "staying [(q, ''scopes'')] s (handle_scopes q s)"
    by (simp_all add: staying_def answers_stackTrace answers_scopes)
qed

lemma staying_launch: "is_request m \<Longrightarrow> command m = ''launch'' \<Longrightarrow> staying [(request_seq se m, command m)] s (handle se m s)"
proof -
  assume m: "is_request m" "command m = ''launch''"
  obtain err s1 where l: "loadTrace se s = (err, s1)" by (metis prod.exhaust)
  then have "sv_out s1 = sv_out s" "sv_seq s1 = sv_seq s" by (auto simp: loadTrace_def split: sum.splits)
  then have "staying qs s r \<longleftrightarrow> staying qs s1 r" for qs r
    using answers_same_log [of s1 s qs r] by (simp add: staying_def)
  then show ?thesis
    using m by (auto simp: handle_simps l encoding intro!: staying_and_then staying_respond staying_event split: option.split)
qed

lemma handle_staying:
  assumes "is_request m" "\<not> leaving m"
  shows "staying [(request_seq se m, command m)] s (handle se m s)"
  using assms
proof (cases rule: request_cases)
  case 2
  then show ?thesis by (rule staying_launch [OF assms(1)])
next
  case 8
  show ?thesis unfolding handle_simps(8) [OF assms(1) 8]
    by (intro staying_and_then staying_respond staying_advance) (simp add: encoding)
next
  case 9
  show ?thesis unfolding handle_simps(9) [OF assms(1) 9] by (intro staying_respond) simp
qed (simp_all add: handle_simps [OF assms(1)] staying_views staying_and_then staying_respond staying_event
      staying_advance encoding answers_threads)

text \<open>The requests of a session that are served: up to the first \<open>disconnect\<close> or \<open>terminate\<close>.\<close>

fun served :: "gomap list \<Rightarrow> gomap list" where
  "served [] = []"
| "served (m # ms) = (if leaving m then [m] else m # served ms)"

lemma run_requests_answers:
  "answers (map (\<lambda>m. (request_seq se m, command m)) (filter is_request (served ms))) s (run_requests se ms s)"
proof (induction ms arbitrary: s)
  case Nil
  then show ?case by (simp add: answers_def)
next
  case (Cons m ms)
  obtain v s1 where h: "handle se m s = (v, s1)" by (metis prod.exhaust)
  consider "leaving m" | "\<not> leaving m" "is_request m" | "\<not> is_request m" by blast
  then show ?case
  proof cases
    case 1
    then have "is_request m" by (simp add: leaving_def)
    with 1 handle_leaving [OF 1, of se s] h show ?thesis by (auto simp: and_then_def)
  next
    case 2
    with handle_staying [OF 2(2,1), of se s] h answers_trans [OF _ Cons.IH [of s1]] show ?thesis
      by (fastforce simp: staying_def)
  next
    case 3
    then have "\<not> leaving m" by (simp add: leaving_def)
    with 3 Cons.IH show ?thesis by (simp add: handle_other)
  qed
qed

text \<open>C11. The debug server answers every request of a session exactly once and in order, up to and
  including the one that ends it, and never fails on any message; everything it writes is numbered
  consecutively from 1.\<close>

theorem requests_answered_in_order:
  "let (v, s) = run_requests se ms (newServer path by) in
     v \<noteq> Failed \<and> map seq_of (sv_out s) = [1..sv_seq s]
     \<and> concat (map answer_of (sv_out s)) = map (\<lambda>m. (request_seq se m, command m)) (filter is_request (served ms))"
  using run_requests_answers [of se ms "newServer path by"]
  by (auto simp: answers_def newServer_def split: prod.split)

subsection \<open>References keep their meaning\<close>

definition fresh_refs :: "int \<Rightarrow> (int \<times> gomap) list \<Rightarrow> bool" where
  "fresh_refs n refs \<longleftrightarrow> list_all (\<lambda>(r, m). r < n) refs"

definition refs_grow :: "int \<Rightarrow> (int \<times> gomap) list \<Rightarrow> int \<Rightarrow> (int \<times> gomap) list \<Rightarrow> bool" where
  "refs_grow n refs n1 refs1 \<longleftrightarrow> (fresh_refs n refs \<longrightarrow> fresh_refs n1 refs1 \<and> map_of refs \<subseteq>\<^sub>m map_of refs1)"

lemma refs_grow_refl [simp]: "refs_grow n refs n refs"
  by (simp add: refs_grow_def)

lemma refs_grow_trans: "refs_grow n refs n1 refs1 \<Longrightarrow> refs_grow n1 refs1 n2 refs2 \<Longrightarrow> refs_grow n refs n2 refs2"
  by (auto simp: refs_grow_def intro: map_le_trans)

lemma refs_grow_alloc: "refs_grow n refs (n + 1) (AList.update n m refs)"
proof -
  have "map_of refs n = None" if "fresh_refs n refs"
    using that by (auto simp: fresh_refs_def list_all_iff map_of_eq_None_iff)
  then show ?thesis
    by (auto simp: refs_grow_def update_new map_le_def fresh_refs_def list_all_iff map_add_def split: option.split)
qed

lemma refs_grow_vars: "case vars_loop kvs n refs of (out, n1, refs1) \<Rightarrow> refs_grow n refs n1 refs1"
proof (induction kvs arbitrary: n refs)
  case (Cons kv kvs)
  obtain k v where kv: "kv = (k, v)" by (cases kv)
  show ?case
  proof (cases "\<exists>sub. v = AObj sub")
    case True
    then obtain sub where v: "v = AObj sub" by blast
    from Cons.IH [of "n + 1" "AList.update n sub refs"] refs_grow_alloc [of n refs sub] show ?thesis
      by (auto simp: kv v Let_def intro: refs_grow_trans split: prod.splits)
  next
    case False
    with Cons.IH [of n refs] show ?thesis by (auto simp: kv Let_def split: prod.splits any.splits)
  qed
qed simp

definition refs_kept :: "server \<Rightarrow> server \<Rightarrow> bool" where
  "refs_kept s s1 \<longleftrightarrow> refs_grow (sv_nextVar s) (sv_varRefs s) (sv_nextVar s1) (sv_varRefs s1)"

lemma refs_kept_trans: "refs_kept s s1 \<Longrightarrow> refs_kept s1 s2 \<Longrightarrow> refs_kept s s2"
  by (auto simp: refs_kept_def intro: refs_grow_trans)

lemma refs_kept_send:
  "refs_kept s (snd (respond q cmd ok msg body s))" "refs_kept s (snd (event name body s))"
  by (auto simp: refs_kept_def respond_def event_def sv_send_def split: option.splits)

lemma refs_kept_and_then: "refs_kept s (snd r) \<Longrightarrow> (\<And>s1. refs_kept s1 (snd (k s1))) \<Longrightarrow> refs_kept s (snd (and_then r k))"
  by (auto simp: and_then_def intro: refs_kept_trans split: prod.splits verdict.splits)

lemma refs_kept_advance: "refs_kept s (snd (advanceAndStop s))"
proof (cases "sv_cursor s + 1 < int (length (sv_spans s))")
  case True
  let ?k = "thread_key (sv_threadBy s) (sv_spans s ! nat (sv_cursor s + 1))"
  obtain tid fresh s1 where t: "sv_threadIDFor ?k (s\<lparr>sv_cursor := sv_cursor s + 1\<rparr>) = ((tid, fresh), s1)"
    by (metis prod.exhaust)
  have "sv_varRefs s1 = sv_varRefs s" "sv_nextVar s1 = sv_nextVar s"
    using thread_log [of ?k "s\<lparr>sv_cursor := sv_cursor s + 1\<rparr>"] by (simp_all add: t del: thread_log)
  with advance_stop [OF True t] show ?thesis by (simp add: Let_def refs_kept_def)
qed (simp add: advance_end refs_kept_def)

lemma refs_kept_handle: "refs_kept s (snd (handle se m s))"
proof -
  consider "\<not> is_request m" | "leaving m" | "is_request m" "\<not> leaving m" by blast
  then show ?thesis
  proof cases
    case 1
    then show ?thesis by (simp add: handle_other refs_kept_def)
  next
    case 2
    then show ?thesis
      by (simp add: handle_leave Let_def respond_continues event_continues encoding refs_kept_def)
  next
    case 3
    note requests = handle_simps [OF 3(1)]
    from 3 show ?thesis
    proof (cases rule: request_cases)
      case 2
      obtain err s1 where l: "loadTrace se s = (err, s1)" by (metis prod.exhaust)
      then have "refs_kept s s1" by (auto simp: loadTrace_def refs_kept_def split: sum.splits)
      then show ?thesis
        by (auto simp: requests(2) [OF 2] l split: option.split
            intro: refs_kept_trans refs_kept_and_then refs_kept_send)
    next
      case 6
      have "refs_kept s (snd (sv_allocVar v s))" for v by (simp add: refs_kept_def sv_allocVar_def refs_grow_alloc)
      then show ?thesis
        by (auto simp: requests(6) [OF 6] handle_scopes_def sv_allocVar_def split: option.split
            intro!: refs_kept_send refs_kept_trans [OF _ refs_kept_send(1)])
    next
      case 7
      have "refs_kept s (s\<lparr>sv_nextVar := n, sv_varRefs := refs\<rparr>)"
        if "varsFromMap kvs (sv_nextVar s) (sv_varRefs s) = (out, n, refs)" for kvs out n refs
        using refs_grow_vars [where kvs = "sort_fields kvs" and n = "sv_nextVar s" and refs = "sv_varRefs s"] that
        by (simp add: varsFromMap_def refs_kept_def)
      then show ?thesis
        by (auto simp: requests(7) [OF 7] handle_variables_def Let_def split: option.split prod.split
            intro!: refs_kept_send refs_kept_trans [OF _ refs_kept_send(1)])
    next
      case 8
      show ?thesis unfolding requests(8) [OF 8] by (intro refs_kept_and_then refs_kept_send refs_kept_advance)
    next
      case 9
      show ?thesis unfolding requests(9) [OF 9] by (rule refs_kept_send)
    qed (simp_all add: requests handle_stackTrace_def refs_kept_send refs_kept_and_then refs_kept_advance split: option.split)
  qed
qed

lemma refs_kept_run: "refs_kept s (snd (run_requests se ms s))"
proof (induction ms arbitrary: s)
  case (Cons m ms)
  then show ?case
    using refs_kept_and_then [OF refs_kept_handle, of "run_requests se ms" s se m] by simp
qed (simp add: refs_kept_def)

text \<open>C13. A variables reference that the server has handed out denotes the same map for the rest of the
  session, whatever requests follow.\<close>

theorem references_keep_their_meaning:
  "let s = snd (run_requests se ms (newServer path by)) in
     map_of (sv_varRefs s) \<subseteq>\<^sub>m map_of (sv_varRefs (snd (run_requests se ms1 s)))"
proof -
  let ?s = "snd (run_requests se ms (newServer path by))"
  have "fresh_refs (sv_nextVar ?s) (sv_varRefs ?s)"
    using refs_kept_run [of "newServer path by" se ms]
    by (auto simp: refs_kept_def refs_grow_def fresh_refs_def newServer_def)
  then show ?thesis using refs_kept_run [of ?s se ms1] by (simp add: refs_kept_def refs_grow_def Let_def)
qed

subsection \<open>Stepping walks through the trace\<close>

text \<open>What a \<open>stopped\<close> event shows, and the number of \<open>terminated\<close> events.\<close>

type_synonym stop = "string \<times> string \<times> int"

definition stop_of :: "gomap \<Rightarrow> stop list" where
  "stop_of m =
     (if map_of m ''event'' = Some (AStr ''stopped'') then
        (case map_of m ''body'' of
           Some (AObj b) \<Rightarrow>
             (case (map_of b ''reason'', map_of b ''description'', map_of b ''threadId'') of
                (Some (AStr r), Some (AStr d), Some (AInt k tid)) \<Rightarrow> [(r, d, tid)]
              | _ \<Rightarrow> [])
         | _ \<Rightarrow> [])
      else [])"

definition stops :: "server \<Rightarrow> stop list" where
  "stops s = concat (map stop_of (sv_out s))"

definition is_terminated :: "gomap \<Rightarrow> bool" where
  "is_terminated m \<longleftrightarrow> map_of m ''event'' = Some (AStr ''terminated'')"

definition terminations :: "server \<Rightarrow> nat" where
  "terminations s = length (filter is_terminated (sv_out s))"

definition stop_view :: "(string \<Rightarrow> int) \<Rightarrow> string \<Rightarrow> span \<Rightarrow> stop" where
  "stop_view number by ev = (spanStopReason (Outcome ev), description ev, number (thread_key by ev))"

lemma response_not_event [simp]:
  "stop_of (response_message n q cmd ok msg body) = []" "\<not> is_terminated (response_message n q cmd ok msg body)"
  by (cases body; simp add: stop_of_def is_terminated_def response_message_def)+

lemma other_event [simp]:
  "name \<noteq> ''stopped'' \<Longrightarrow> stop_of (event_message n name body) = []"
  "is_terminated (event_message n name body) \<longleftrightarrow> name = ''terminated''"
  by (cases body; simp add: stop_of_def is_terminated_def event_message_def)+

lemma stopped_event [simp]:
  "stop_of (event_message n ''stopped'' (Some (sv_stopped_body ev tid))) =
     [(spanStopReason (Outcome ev), description ev, tid)]"
  by (simp add: stop_of_def event_message_def sv_stopped_body_def)

definition server_keys :: "server \<Rightarrow> string list" where
  "server_keys s = map fst (sv_threadIDs s)"

text \<open>A step that neither moves the cursor nor shows anything of the trace.\<close>

definition still :: "server \<Rightarrow> server \<Rightarrow> bool" where
  "still s s1 \<longleftrightarrow> sv_spans s1 = sv_spans s \<and> sv_threadBy s1 = sv_threadBy s \<and> sv_cursor s1 = sv_cursor s
     \<and> sv_stopped s1 = sv_stopped s \<and> sv_terminated s1 = sv_terminated s
     \<and> sv_threadIDs s1 = sv_threadIDs s \<and> sv_nextTID s1 = sv_nextTID s
     \<and> stops s1 = stops s \<and> terminations s1 = terminations s"

lemma still_trans: "still s s1 \<Longrightarrow> still s1 s2 \<Longrightarrow> still s s2"
  by (simp add: still_def)

lemma still_respond: "body_ok body \<Longrightarrow> still s (snd (respond q cmd ok msg body s))"
  by (simp add: respond_continues still_def stops_def terminations_def)

lemma still_event: "body_ok body \<Longrightarrow> name \<notin> {''stopped'', ''terminated''} \<Longrightarrow> still s (snd (event name body s))"
  by (simp add: event_continues still_def stops_def terminations_def)

lemma still_refs: "still s (s\<lparr>sv_nextVar := n, sv_varRefs := refs\<rparr>)"
  by (simp add: still_def stops_def terminations_def)

definition advancing :: "gomap \<Rightarrow> bool" where
  "advancing m \<longleftrightarrow> is_request m \<and> command m \<in> {''configurationDone'', ''continue'', ''next''}"

definition loading :: "gomap \<Rightarrow> bool" where
  "loading m \<longleftrightarrow> is_request m \<and> command m = ''launch''"

lemma still_handle:
  assumes "\<not> leaving m" "\<not> loading m" "\<not> advancing m"
  shows "still s (snd (handle se m s))"
proof (cases "is_request m")
  case True
  note requests = handle_simps [OF True]
  from True assms(1) show ?thesis
  proof (cases rule: request_cases)
    case 1
    then show ?thesis
      using still_trans [OF still_respond still_event] by (simp add: requests(1) respond_continues event_continues encoding
          still_def stops_def terminations_def)
  next
    case 4
    then show ?thesis by (simp add: requests still_respond encoding answers_threads)
  next
    case 5
    then show ?thesis
      by (simp add: requests handle_stackTrace_def still_respond frame_body_def encoding split: option.split)
  next
    case 6
    then show ?thesis
      by (auto simp: requests handle_scopes_def sv_allocVar_def encoding split: option.split
          intro!: still_respond still_trans [OF still_refs still_respond])
  next
    case 7
    have "list_all encodes vars" if "varsFromMap kvs n refs = (vars, n1, refs1)" for kvs n refs vars n1 refs1
      using vars_loop_encode [of "sort_fields kvs" n refs] that by (simp add: varsFromMap_def)
    with 7 show ?thesis
      by (auto simp: requests handle_variables_def Let_def encoding split: option.split prod.split
          intro!: still_respond still_trans [OF still_refs still_respond])
  next
    case 9
    show ?thesis unfolding requests(9) [OF 9] by (rule still_respond) simp
  qed (use True assms in \<open>auto simp: loading_def advancing_def\<close>)
qed (simp add: handle_other still_def)

text \<open>The state after \<open>j\<close> steps through the trace.\<close>

definition keys_after :: "string \<Rightarrow> span list \<Rightarrow> nat \<Rightarrow> string list" where
  "keys_after by evs j = foldl add_key [] (map (thread_key by) (take j evs))"

definition walked :: "string \<Rightarrow> span list \<Rightarrow> nat \<Rightarrow> server \<Rightarrow> bool" where
  "walked by evs j s \<longleftrightarrow> sv_spans s = evs \<and> sv_threadBy s = by \<and> sv_cursor s = int j - 1
     \<and> (sv_stopped s \<longleftrightarrow> 0 < j \<and> j \<le> length evs) \<and> (sv_terminated s \<longleftrightarrow> length evs < j)
     \<and> server_ids.numbered s \<and> server_keys s = keys_after by evs j
     \<and> stops s = map (stop_view (key_number (keys_after by evs j)) by) (take j evs)
     \<and> terminations s = j - length evs"

lemma walked_still: "walked by evs j s \<Longrightarrow> still s s1 \<Longrightarrow> walked by evs j s1"
  by (clarsimp simp: walked_def still_def server_ids.numbered_def server_keys_def)

lemma stop_view_keys:
  assumes "set (map (thread_key by) evs) \<subseteq> set keys"
  shows "map (stop_view (key_number (add_key keys k)) by) evs = map (stop_view (key_number keys) by) evs"
  using assms by (auto simp: stop_view_def add_key_def key_number_prefix)

lemma walked_advance:
  assumes "walked by evs j s"
  shows "walked by evs (Suc j) (snd (advanceAndStop s))"
proof (cases "j < length evs")
  case True
  let ?ev = "evs ! j" and ?s = "s\<lparr>sv_cursor := int j\<rparr>"
  let ?k = "thread_key by ?ev"
  from assms have s: "sv_spans s = evs" "sv_threadBy s = by" "sv_cursor s + 1 = int j"
    "server_keys s = keys_after by evs j" "terminations s = 0" "\<not> sv_terminated s"
    "stops s = map (stop_view (key_number (keys_after by evs j)) by) (take j evs)"
    using True by (auto simp: walked_def)
  have n: "server_ids.numbered ?s" using assms by (simp add: walked_def server_ids.numbered_def)
  obtain tid fresh s1 where t: "sv_threadIDFor ?k ?s = ((tid, fresh), s1)" by (metis prod.exhaust)
  have tid: "tid = key_number (add_key (keys_after by evs j) ?k) ?k"
    using server_ids.alloc_number [OF n, of ?k] s(4) by (simp add: t server_keys_def)
  have keys: "server_keys s1 = add_key (keys_after by evs j) ?k"
    using server_ids.alloc_keys [of ?k ?s] s(4) by (simp add: t server_keys_def)
  have n1: "server_ids.numbered s1" using server_ids.numbered_alloc [OF n, of ?k] by (simp add: t)
  have same: "sv_spans s1 = evs" "sv_threadBy s1 = by" "sv_cursor s1 = int j" "\<not> sv_terminated s1"
    using thread_log [of ?k ?s] s by (simp_all add: t del: thread_log)
  have next_keys: "keys_after by evs (Suc j) = add_key (keys_after by evs j) ?k"
    using True by (simp add: keys_after_def take_Suc_conv_app_nth)
  have old: "set (map (thread_key by) (take j evs)) \<subseteq> set (keys_after by evs j)"
    by (simp add: keys_after_def set_add_keys)
  from advance_stop [of s tid fresh s1] True s t
  obtain thread n2 where a: "snd (advanceAndStop s) = s1\<lparr>sv_stopped := True, sv_seq := n2,
      sv_out := sv_out s @ thread @ [event_message n2 ''stopped'' (Some (sv_stopped_body ?ev tid))]\<rparr>"
    and thread: "concat (map stop_of thread) = []" "filter is_terminated thread = []"
    by (auto simp: Let_def)
  have "stops (snd (advanceAndStop s)) = stops s @ [stop_view (key_number (keys_after by evs (Suc j))) by ?ev]"
    using thread by (simp add: a stops_def next_keys tid stop_view_def)
  moreover have "terminations (snd (advanceAndStop s)) = 0"
    using thread s(5) by (simp add: a terminations_def)
  ultimately show ?thesis
    using True n1 keys same s(7) old
    by (simp add: walked_def a server_ids.numbered_def server_keys_def next_keys stop_view_keys take_Suc_conv_app_nth)
next
  case False
  with assms have "snd (advanceAndStop s) = s\<lparr>sv_cursor := sv_cursor s + 1, sv_stopped := False, sv_terminated := True,
     sv_seq := sv_seq s + 1,
     sv_out := sv_out s @ [event_message (sv_seq s + 1) ''terminated'' (Some (AObj []))]\<rparr>"
    by (subst advance_end) (simp_all add: walked_def)
  with assms False show ?thesis
    by (clarsimp simp: walked_def stops_def terminations_def server_ids.numbered_def server_keys_def keys_after_def
        Suc_diff_le)
qed

lemma walked_handle:
  assumes "walked by evs j s" "\<not> leaving m" "\<not> loading m"
  shows "fst (handle se m s) = Continue \<and> walked by evs (if advancing m then Suc j else j) (snd (handle se m s))"
proof (cases "advancing m")
  case True
  let ?body = "if command m = ''configurationDone'' then None
    else Some (AObj [(''allThreadsContinued'', ABool False)])"
  have body: "body_ok ?body" by (simp add: encoding)
  moreover have "handle se m s = and_then (respond (request_seq se m) (command m) True [] ?body s) advanceAndStop"
    using True by (auto simp: advancing_def handle_simps)
  then have "handle se m s = advanceAndStop (snd (respond (request_seq se m) (command m) True [] ?body s))"
    by (simp only: respond_continues [OF body] and_then_Continue snd_conv)
  ultimately show ?thesis
    using True walked_advance walked_still [OF assms(1) still_respond] by (simp add: advance_verdict)
next
  case False
  have "fst (handle se m s) = Continue"
    using assms(2) handle_staying [of m se s] by (cases "is_request m") (auto simp: staying_def handle_other)
  with False walked_still [OF assms(1) still_handle] assms(2,3) show ?thesis by simp
qed

lemma walked_run:
  assumes "walked by evs j s" "list_all (\<lambda>m. \<not> leaving m \<and> \<not> loading m) ms"
  shows "fst (run_requests se ms s) = Continue
    \<and> walked by evs (j + length (filter advancing ms)) (snd (run_requests se ms s))"
  using assms
proof (induction ms arbitrary: j s)
  case (Cons m ms)
  obtain v s1 where h: "handle se m s = (v, s1)" by (metis prod.exhaust)
  with walked_handle [OF Cons.prems(1), of m se] Cons.prems(2)
  have "v = Continue" "walked by evs (if advancing m then Suc j else j) s1" by auto
  with Cons.IH [of "if advancing m then Suc j else j" s1] Cons.prems(2) h show ?case by (simp split: if_splits)
qed simp

lemma walked_launch:
  assumes "walked by [] 0 s" "loading m" "se_trace se = Inr (evs, None)"
  shows "fst (handle se m s) = Continue \<and> walked by evs 0 (snd (handle se m s))"
proof -
  have m: "is_request m" "command m = ''launch''" using assms(2) by (simp_all add: loading_def)
  have "walked by evs 0 (s\<lparr>sv_spans := evs\<rparr>)"
    using assms(1)
    by (clarsimp simp: walked_def server_ids.numbered_def server_keys_def keys_after_def stops_def terminations_def)
  moreover have load: "loadTrace se s = (None, s\<lparr>sv_spans := evs\<rparr>)"
    using assms(1) by (simp add: loadTrace_def assms(3) walked_def)
  moreover define s1 where "s1 = snd (respond (request_seq se m) (command m) True [] None (s\<lparr>sv_spans := evs\<rparr>))"
  ultimately have "walked by evs 0 s1"
    using walked_still [OF _ still_respond] by (simp only: option.case)
  moreover have h: "handle se m s = event ''process'' (Some (process_body (se_pid se))) s1"
    using load by (simp add: s1_def handle_simps(2) [OF m] respond_continues)
  ultimately show ?thesis
    unfolding h by (simp add: not_failed_event walked_still still_event encoding)
qed

lemma run_requests_append:
  "fst (run_requests se ms s) = Continue \<Longrightarrow> run_requests se (ms @ ms1) s = run_requests se ms1 (snd (run_requests se ms s))"
proof (induction ms arbitrary: s)
  case (Cons m ms)
  obtain v s1 where h: "handle se m s = (v, s1)" by (metis prod.exhaust)
  with Cons.prems have "v = Continue" by (cases v) (auto simp: and_then_def)
  with Cons h show ?case by simp
qed simp

text \<open>The session up to the launch, and from the launch to the next disconnect.\<close>

definition before_launch :: "gomap \<Rightarrow> bool" where
  "before_launch m \<longleftrightarrow> \<not> leaving m \<and> \<not> loading m \<and> \<not> advancing m"

definition after_launch :: "gomap \<Rightarrow> bool" where
  "after_launch m \<longleftrightarrow> \<not> leaving m \<and> \<not> loading m"

lemma walked_session:
  assumes "list_all before_launch pre" "loading m" "se_trace se = Inr (evs, None)" "list_all after_launch ms"
  obtains s where "run_requests se (pre @ m # ms @ post) (newServer path by) = run_requests se post s"
    "walked by evs (length (filter advancing ms)) s"
proof -
  let ?run = "\<lambda>ms s. snd (run_requests se ms s)"
  have fresh: "walked by [] 0 (newServer path by)"
    by (simp add: walked_def newServer_def server_ids.numbered_def server_keys_def keys_after_def stops_def terminations_def)
  have "list_all (\<lambda>m. \<not> leaving m \<and> \<not> loading m) pre" "filter advancing pre = []"
    using assms(1) by (auto simp: before_launch_def list_all_iff filter_empty_conv)
  with walked_run [OF fresh, of pre se]
  have pre: "fst (run_requests se pre (newServer path by)) = Continue" "walked by [] 0 (?run pre (newServer path by))"
    by simp_all
  obtain s1 where s1: "handle se m (?run pre (newServer path by)) = (Continue, s1)" "walked by evs 0 s1"
    using walked_launch [OF pre(2) assms(2,3)] by (metis prod.collapse)
  have ms: "fst (run_requests se ms s1) = Continue" "walked by evs (length (filter advancing ms)) (?run ms s1)"
    using walked_run [OF s1(2), of ms se] assms(4) by (simp_all add: after_launch_def [abs_def])
  have "run_requests se (pre @ m # ms @ post) (newServer path by) = run_requests se post (?run ms s1)"
    using run_requests_append [OF pre(1), of "m # ms @ post"] run_requests_append [OF ms(1), of post]
    by (simp add: s1(1))
  then show thesis using that ms(2) by blast
qed

text \<open>What follows the walk: nothing, or a disconnect or terminate, behind which nothing is read.\<close>

lemma leave_walked:
  assumes "leaving d"
  shows "let s1 = snd (run_requests se (d # rest) s) in
     stops s1 = stops s \<and> currentSpan s1 = currentSpan s
     \<and> terminations s1 = (if sv_terminated s then terminations s else terminations s + 1)"
  by (simp add: handle_leave [OF assms] Let_def respond_continues event_continues encoding and_then_def
      stops_def terminations_def currentSpan_def)

text \<open>C12. In a session of a new server that launches once, with a trace that is read without an error, and
  asks for no advance before the launch, the k requests that advance (configurationDone, continue,
  next) between the launch and the first disconnect or terminate, if there is one, stop on the
  first k spans of the trace one after the other, each on the thread of its key, however they are
  mixed with other requests; before the launch there may be any requests but these and disconnect
  or terminate. Each of the k beyond the end of the trace sends one terminated event, and a
  disconnect or terminate sends one if there was none; nothing behind it is read.\<close>

theorem stepping_walks_the_trace:
  assumes "list_all before_launch pre" "loading m" "se_trace se = Inr (evs, None)" "list_all after_launch ms"
    "post = [] \<or> leaving (hd post)"
  shows "let s = snd (run_requests se (pre @ m # ms @ post) (newServer path by));
             k = length (filter advancing ms)
         in stops s = map (stop_view (key_number (keys_after by evs k)) by) (take k evs)
            \<and> terminations s = (if post = [] then k - length evs else max 1 (k - length evs))
            \<and> currentSpan s = (if 0 < k \<and> k \<le> length evs then Some (evs ! (k - 1)) else None)"
proof -
  let ?k = "length (filter advancing ms)"
  obtain s where run: "run_requests se (pre @ m # ms @ post) (newServer path by) = run_requests se post s"
    and w: "walked by evs ?k s" by (rule walked_session [OF assms(1-4)])
  have "nat (sv_cursor s) = ?k - 1" using w by (simp add: walked_def)
  then have cur: "currentSpan s = (if 0 < ?k \<and> ?k \<le> length evs then Some (evs ! (?k - 1)) else None)"
    using w by (auto simp: walked_def currentSpan_def)
  show ?thesis
  proof (cases post)
    case Nil
    with w cur show ?thesis unfolding run by (simp add: walked_def)
  next
    case (Cons d rest)
    then have "leaving d" using assms(5) by simp
    from leave_walked [OF this, of se rest s] w cur show ?thesis
      unfolding run by (auto simp: Cons walked_def Let_def simp del: run_requests.simps)
  qed
qed

lemma keys_after_distinguish:
  "inj_on (key_number (keys_after by evs k)) (set (map (thread_key by) (take k evs)))"
  using key_number_inj [of "keys_after by evs k"] by (simp add: keys_after_def set_add_keys)

subsection \<open>Sessions over a byte stream\<close>

lemma Run_frame:
  assumes "sendable p"
  shows "Run se (frame p @ r) s =
    (case handle se (the (unmarshal_map p)) s of
       (Continue, s1) \<Rightarrow> Run se r s1 | (Stop, s1) \<Rightarrow> (Finished, s1) | (Failed, s1) \<Rightarrow> (EncodeError, s1))"
  by (subst Run.simps) (simp add: readDAPMessage_frame [OF assms])

lemma Run_truncated:
  assumes "sendable p" "k < length (frame p)"
  shows "Run se (take k (frame p)) s =
    (if k = 0 \<or> k = header_length p then Finished
     else ReadError (if k < header_length p then MidHeader else ShortBody), s)"
  using truncated_read [OF assms]
  by (subst Run.simps) (auto simp: is_eof_def header_length_line)

text \<open>C14. Serving a byte stream of framed messages, the last of which may be cut off anywhere, is serving
  the messages: a cut inside the header or the payload is a read error, but a cut exactly between
  header and payload ends the session as if it were complete.\<close>

theorem session_over_a_stream:
  assumes "list_all sendable ps" "sendable p" "k < length (frame p)"
  shows "Run se (concat (map frame ps) @ take k (frame p)) s =
    (case run_requests se (map (the \<circ> unmarshal_map) ps) s of
       (Continue, s1) \<Rightarrow>
         (if k = 0 \<or> k = header_length p then Finished
          else ReadError (if k < header_length p then MidHeader else ShortBody), s1)
     | (_, s1) \<Rightarrow> (Finished, s1))"
  using assms(1)
proof (induction ps arbitrary: s)
  case Nil
  then show ?case by (simp add: Run_truncated [OF assms(2,3)])
next
  case (Cons q ps)
  obtain v s1 where h: "handle se (the (unmarshal_map q)) s = (v, s1)" by (metis prod.exhaust)
  have "v \<noteq> Failed"
    using run_requests_answers [of se "[the (unmarshal_map q)]" s] h by (auto simp: answers_def and_then_def)
  with Cons h show ?case by (cases v) (auto simp: Run_frame and_then_def)
qed

subsection \<open>The variables of a span\<close>

definition var_name :: "any \<Rightarrow> string" where
  "var_name v = (case v of AObj b \<Rightarrow> str_field b ''name'' | _ \<Rightarrow> [])"

definition var_ref :: "any \<Rightarrow> int" where
  "var_ref v = (case v of AObj b \<Rightarrow> (case map_of b ''variablesReference'' of Some (AInt k n) \<Rightarrow> n | _ \<Rightarrow> 0) | _ \<Rightarrow> 0)"

definition sub_maps :: "gomap \<Rightarrow> gomap list" where
  "sub_maps kvs = concat (map (\<lambda>(k, v). case v of AObj sub \<Rightarrow> [sub] | _ \<Rightarrow> []) kvs)"

definition var_refs :: "any list \<Rightarrow> int list" where
  "var_refs vars = filter (\<lambda>r. r \<noteq> 0) (map var_ref vars)"

lemma var_fields [simp]:
  "var_name (AObj [(''name'', AStr k), (''value'', AStr t), (''variablesReference'', AInt i r)]) = k"
  "var_ref (AObj [(''name'', AStr k), (''value'', AStr t), (''variablesReference'', AInt i r)]) = r"
  by (simp_all add: var_name_def var_ref_def str_field_def)

lemma vars_loop_lists:
  "fresh_refs n refs \<Longrightarrow> 0 < n \<Longrightarrow> vars_loop kvs n refs = (vars, n1, refs1) \<Longrightarrow>
     map var_name vars = map fst kvs \<and> map (map_of refs1) (var_refs vars) = map Some (sub_maps kvs)"
proof (induction kvs arbitrary: n refs vars)
  case Nil
  then show ?case by (auto simp: var_refs_def sub_maps_def)
next
  case (Cons kv kvs)
  obtain k v where kv: "kv = (k, v)" by (cases kv)
  show ?case
  proof (cases "\<exists>sub. v = AObj sub")
    case True
    then obtain sub where v: "v = AObj sub" by blast
    let ?refs = "AList.update n sub refs"
    obtain out where out: "vars_loop kvs (n + 1) ?refs = (out, n1, refs1)"
      "vars = AObj [(''name'', AStr k), (''value'', AStr ''{...}''), (''variablesReference'', AInt KInt n)] # out"
      using Cons.prems(3) by (auto simp: kv v Let_def split: prod.splits)
    have grow: "fresh_refs (n + 1) ?refs" using refs_grow_alloc [of n refs sub] Cons.prems(1) by (simp add: refs_grow_def)
    moreover have "map_of ?refs \<subseteq>\<^sub>m map_of refs1"
      using refs_grow_vars [where kvs = kvs and n = "n + 1" and refs = ?refs] out(1) grow by (simp add: refs_grow_def)
    then have "map_of refs1 n = Some sub" by (auto simp: map_le_def update_conv' dest: bspec [of _ _ n])
    ultimately show ?thesis
      using Cons.IH [OF _ _ out(1)] Cons.prems(2)
      by (simp add: out(2) kv v var_refs_def sub_maps_def)
  next
    case False
    then obtain val out where out: "vars_loop kvs n refs = (out, n1, refs1)"
      "vars = AObj [(''name'', AStr k), (''value'', AStr val), (''variablesReference'', AInt KInt 0)] # out"
      using Cons.prems(3) by (auto simp: kv Let_def split: prod.splits any.splits)
    moreover have "(case v of AObj sub \<Rightarrow> [sub] | _ \<Rightarrow> []) = []" using False by (auto split: any.split)
    ultimately show ?thesis
      using Cons.IH [OF Cons.prems(1,2) out(1)]
      by (simp add: out(2) kv var_refs_def sub_maps_def)
  qed
qed

theorem variables_list_every_field:
  assumes "fresh_refs n refs" "0 < n"
  shows "let (vars, n1, refs1) = varsFromMap m n refs in
     map var_name vars = map fst (sort_fields m) \<and> map (map_of refs1) (var_refs vars) = map Some (sub_maps (sort_fields m))"
  using vars_loop_lists [OF assms, of "sort_fields m"] by (simp add: varsFromMap_def split: prod.split)

subsection \<open>A session as an example\<close>

definition sample_request :: "string \<Rightarrow> gomap" where
  "sample_request cmd = [(''type'', AStr ''request''), (''seq'', AFloat (Fin 1)), (''command'', AStr cmd)]"

definition sample_span :: span where
  "sample_span = \<lparr>SchemaVersion = ''1'', EnvelopeID = ''e'', SDK = ''go'', Lang = ''go'', SpanKind = ''handler'',
     StartedAt = ''t'', DurationMs = Fin 1, Outcome = ''discarded'', Attempt = 1, SpanID = ''a'', ParentSpanID = [],
     WorkerID = [], Attrs = [(''k'', AObj [])]\<rparr>"

definition sample_session :: session where
  "sample_session = \<lparr>se_oob = \<lambda>x. 0, se_pid = 7, se_trace = Inr ([sample_span], None)\<rparr>"

lemma sample_kinds:
  "is_request (sample_request cmd)" "command (sample_request cmd) = cmd"
  by (simp_all add: is_request_def command_def sample_request_def str_field_def)

lemmas sample_simps = sample_kinds loading_def leaving_def advancing_def

text \<open>A whole session over two spans of two jobs, up to the disconnect; the launch comes second.\<close>

definition two_spans :: session where
  "two_spans = sample_session\<lparr>se_trace :=
     Inr ([sample_span\<lparr>Outcome := ''success''\<rparr>, sample_span\<lparr>Outcome := ''retryable'', EnvelopeID := ''f''\<rparr>], None)\<rparr>"

theorem stepping_walks_the_trace_witness:
  "let s = snd (run_requests two_spans (map sample_request [''initialize'', ''launch'', ''configurationDone'', ''threads'',
                  ''stackTrace'', ''scopes'', ''continue'', ''continue'', ''disconnect'']) (newServer ''p'' ''envelope''))
   in stops s = [(''step'', ''handler (success)'', 1), (''exception'', ''handler (retryable)'', 2)]
      \<and> terminations s = 1 \<and> currentSpan s = None"
  using stepping_walks_the_trace [of "[sample_request ''initialize'']" "sample_request ''launch''" two_spans
      "[sample_span\<lparr>Outcome := ''success''\<rparr>, sample_span\<lparr>Outcome := ''retryable'', EnvelopeID := ''f''\<rparr>]"
      "map sample_request [''configurationDone'', ''threads'', ''stackTrace'', ''scopes'', ''continue'', ''continue'']"
      "[sample_request ''disconnect'']" "''p''" "''envelope''"]
  by (simp add: sample_simps before_launch_def after_launch_def two_spans_def sample_session_def sample_span_def
      stop_view_def keys_after_def key_number_def add_key_def thread_key_def spanStopReason_def description_def
      numeral_3_eq_3 del: run_requests.simps)

theorem session_over_a_stream_witness:
  "Run sample_session (frame [ch 123, ch 125] @ take (header_length [ch 123, ch 125]) (frame [ch 123, ch 125]))
       (newServer ''p'' ''sdk'') = (Finished, newServer ''p'' ''sdk'')"
  using session_over_a_stream [of "[[ch 123, ch 125]]" "[ch 123, ch 125]" "header_length [ch 123, ch 125]" sample_session "newServer ''p'' ''sdk''"]
  by (simp add: sendable_sample handle_other is_request_def str_field_def header_length_def frame_lines)

theorem variables_list_every_field_witness:
  "let (vars, n1, refs1) = varsFromMap [(''attrs'', AObj []), (''a'', ANil)] 1000 [] in
     map var_name vars = [''a'', ''attrs''] \<and> map (map_of refs1) (var_refs vars) = [Some []]"
  using variables_list_every_field [of 1000 "[]" "[(''attrs'', AObj []), (''a'', ANil)]"]
  by (simp add: fresh_refs_def sort_fields_def sub_maps_def)

end
