(* ===== verification/Go_Flag.thy ===== *)
theory Go_Flag
  imports Prelude
begin

text \<open>
  Package flag: how \<open>FlagSet.Parse\<close> reads a command line, and the conversions of boolean and
  integer values. A flag is its kind and what storing a value does to the variables \<open>'o\<close> of
  the program; storing fails when the value does not convert.
\<close>

subsection \<open>Values\<close>

text \<open>\<open>strconv.ParseBool\<close>.\<close>

definition parse_bool :: "string \<Rightarrow> bool option" where
  "parse_bool s =
     (if s \<in> set [''1'', ''t'', ''T'', ''TRUE'', ''true'', ''True''] then Some True
      else if s \<in> set [''0'', ''f'', ''F'', ''FALSE'', ''false'', ''False''] then Some False
      else None)"

text \<open>
  \<open>strconv.ParseInt(s, 0, 64)\<close>: an optional sign, a base prefix, digits with underscores between
  them. The digits read as an unsigned 64-bit number first.
\<close>

definition digit_of :: "char \<Rightarrow> nat option" where
  "digit_of c =
     (let l = lower_char c in
      if is_digit c then Some (digit_val c)
      else if CHR ''a'' \<le> l \<and> l \<le> CHR ''z'' then Some (of_char l - 87)
      else None)"

fun digits_in :: "nat \<Rightarrow> string \<Rightarrow> nat \<Rightarrow> nat option" where
  "digits_in base [] n = Some n"
| "digits_in base (c # s) n =
     (if c = CHR ''_'' then digits_in base s n
      else case digit_of c of
        None \<Rightarrow> None
      | Some d \<Rightarrow> if base \<le> d \<or> 2 ^ 64 \<le> n * base + d then None else digits_in base s (n * base + d))"

definition base_of :: "string \<Rightarrow> nat \<times> string" where
  "base_of s =
     (case s of
        a # b # r \<Rightarrow>
          if a \<noteq> CHR ''0'' then (10, s)
          else if r \<noteq> [] \<and> lower_char b = CHR ''b'' then (2, r)
          else if r \<noteq> [] \<and> lower_char b = CHR ''o'' then (8, r)
          else if r \<noteq> [] \<and> lower_char b = CHR ''x'' then (16, r)
          else (8, b # r)
      | [a] \<Rightarrow> if a = CHR ''0'' then (8, []) else (10, s)
      | [] \<Rightarrow> (10, s))"

datatype last_char = Start | Digit | Underscore | Other

fun underscores_between :: "bool \<Rightarrow> last_char \<Rightarrow> string \<Rightarrow> bool" where
  "underscores_between hex i [] = (i \<noteq> Underscore)"
| "underscores_between hex i (c # s) =
     (if is_digit c \<or> hex \<and> CHR ''a'' \<le> lower_char c \<and> lower_char c \<le> CHR ''f'' then underscores_between hex Digit s
      else if c = CHR ''_'' then i = Digit \<and> underscores_between hex Underscore s
      else i \<noteq> Underscore \<and> underscores_between hex Other s)"

definition underscoreOK :: "string \<Rightarrow> bool" where
  "underscoreOK s =
     (case s of
        a # b # r \<Rightarrow>
          if a = CHR ''0'' \<and> lower_char b \<in> {CHR ''b'', CHR ''o'', CHR ''x''}
          then underscores_between (lower_char b = CHR ''x'') Digit r
          else underscores_between False Start s
      | _ \<Rightarrow> underscores_between False Start s)"

definition parse_int :: "string \<Rightarrow> int option" where
  "parse_int s =
     (let (neg, t) = (case s of c # u \<Rightarrow> if c = CHR ''-'' then (True, u) else if c = CHR ''+'' then (False, u) else (False, s)
                      | [] \<Rightarrow> (False, s));
          (base, ds) = base_of t
      in if t = [] then None
         else case digits_in base ds 0 of
           None \<Rightarrow> None
         | Some n \<Rightarrow>
             if CHR ''_'' \<in> set ds \<and> \<not> underscoreOK t then None
             else let v = (if neg then - int n else int n) in if in_int64 v then Some v else None)"

subsection \<open>Parsing a command line\<close>

record 'o flag =
  fl_IsBool :: bool
  fl_Set :: "string \<Rightarrow> 'o \<Rightarrow> 'o option"

type_synonym 'o flag_set = "(string \<times> 'o flag) list"

definition string_flag :: "(string \<Rightarrow> 'o \<Rightarrow> 'o) \<Rightarrow> 'o flag" where
  "string_flag upd = \<lparr>fl_IsBool = False, fl_Set = (\<lambda>v x. Some (upd v x))\<rparr>"

definition bool_flag :: "(bool \<Rightarrow> 'o \<Rightarrow> 'o) \<Rightarrow> 'o flag" where
  "bool_flag upd = \<lparr>fl_IsBool = True, fl_Set = (\<lambda>v x. map_option (\<lambda>b. upd b x) (parse_bool v))\<rparr>"

definition value_flag :: "(string \<Rightarrow> 'v option) \<Rightarrow> ('v \<Rightarrow> 'o \<Rightarrow> 'o) \<Rightarrow> 'o flag" where
  "value_flag conv upd = \<lparr>fl_IsBool = False, fl_Set = (\<lambda>v x. map_option (\<lambda>a. upd a x) (conv v))\<rparr>"

datatype flag_err =
    BadFlagSyntax string
  | UndefinedFlag string
  | NeedsArgument string
  | InvalidValue string string
  | HelpRequested

text \<open>A name and the value that an equals sign after its first character gives.\<close>

definition split_value :: "string \<Rightarrow> string \<times> string option" where
  "split_value s =
     (let name = takeWhile (\<lambda>c. c \<noteq> CHR ''='') s
      in (name, if length name < length s then Some (drop (Suc (length name)) s) else None))"

text \<open>\<open>parseOne\<close>: no more flags, or the flag at the front with its value and what follows.\<close>

datatype one_flag = NoFlag "string list" | OneFlag string string "string list"

definition parseOne :: "'o flag_set \<Rightarrow> string list \<Rightarrow> flag_err + one_flag" where
  "parseOne fs args =
     (case args of
        [] \<Rightarrow> Inr (NoFlag [])
      | s # rest \<Rightarrow>
          if length s < 2 \<or> hd s \<noteq> CHR ''-'' then Inr (NoFlag args)
          else if s = ''--'' then Inr (NoFlag rest)
          else
            let body = drop (if s ! 1 = CHR ''-'' then 2 else 1) s in
            if body = [] \<or> hd body = CHR ''-'' \<or> hd body = CHR ''='' then Inl (BadFlagSyntax s)
            else case split_value body of (name, val) \<Rightarrow>
              (case map_of fs name of
                 None \<Rightarrow> Inl (if name = ''help'' \<or> name = ''h'' then HelpRequested else UndefinedFlag name)
               | Some f \<Rightarrow>
                   if fl_IsBool f then Inr (OneFlag name (case val of Some v \<Rightarrow> v | None \<Rightarrow> ''true'') rest)
                   else (case val of
                           Some v \<Rightarrow> Inr (OneFlag name v rest)
                         | None \<Rightarrow> (case rest of [] \<Rightarrow> Inl (NeedsArgument name) | v # rest1 \<Rightarrow> Inr (OneFlag name v rest1)))))"

lemma parseOne_shorter: "parseOne fs args = Inr (OneFlag name v rest) \<Longrightarrow> length rest < length args"
  by (cases args) (auto simp: parseOne_def Let_def split: if_splits option.splits list.splits prod.splits)

text \<open>\<open>Parse\<close>: the variables after the flags have been stored one after the other, and the remaining arguments.\<close>

function parse_flags :: "'o flag_set \<Rightarrow> string list \<Rightarrow> 'o \<Rightarrow> flag_err + 'o \<times> string list" where
  "parse_flags fs args o0 =
     (case parseOne fs args of
        Inl e \<Rightarrow> Inl e
      | Inr (NoFlag rest) \<Rightarrow> Inr (o0, rest)
      | Inr (OneFlag name v rest) \<Rightarrow>
          (case fl_Set (the (map_of fs name)) v o0 of
             None \<Rightarrow> Inl (InvalidValue name v)
           | Some o1 \<Rightarrow> parse_flags fs rest o1))"
  by pat_completeness auto
termination
  by (relation "measure (\<lambda>(fs, args, o0). length args)") (auto dest: parseOne_shorter)

declare parse_flags.simps [simp del]

subsection \<open>A table of settings\<close>

text \<open>
  Command lines in the plain form, \<open>-name=value\<close>: what parsing leaves is the fold of the settings,
  so that the last setting of a flag wins.
\<close>

definition setting :: "string \<times> string \<Rightarrow> string" where
  "setting p = ''-'' @ fst p @ ''='' @ snd p"

definition flag_name :: "string \<Rightarrow> bool" where
  "flag_name n \<longleftrightarrow> n \<noteq> [] \<and> CHR ''='' \<notin> set n \<and> hd n \<noteq> CHR ''-''"

definition store :: "'o flag_set \<Rightarrow> string \<times> string \<Rightarrow> 'o option \<Rightarrow> 'o option" where
  "store fs p o0 = (case o0 of None \<Rightarrow> None | Some o1 \<Rightarrow> fl_Set (the (map_of fs (fst p))) (snd p) o1)"

lemma parseOne_setting:
  assumes "flag_name (fst p)" "map_of fs (fst p) = Some f"
  shows "parseOne fs (setting p # rest) = Inr (OneFlag (fst p) (snd p) rest)"
proof -
  obtain n v where p: "p = (n, v)" by fastforce
  from assms(1) obtain c cs where n: "n = c # cs" "c \<noteq> CHR ''-''" "c \<noteq> CHR ''=''" "CHR ''='' \<notin> set cs"
    by (cases n) (auto simp: flag_name_def p)
  have "takeWhile (\<lambda>c. c \<noteq> CHR ''='') (cs @ CHR ''='' # v) = cs" using n(4) by (induction cs) auto
  then have "split_value (n @ ''='' @ v) = (n, Some v)" using n by (simp add: split_value_def)
  then show ?thesis using n assms(2) by (simp add: parseOne_def setting_def p)
qed

lemma parse_settings:
  assumes "\<forall>p \<in> set ps. flag_name (fst p) \<and> fst p \<in> fst ` set fs"
    "fold (store fs) ps (Some o0) = Some o1" "rest = [] \<or> length (hd rest) < 2 \<or> hd (hd rest) \<noteq> CHR ''-''"
  shows "parse_flags fs (map setting ps @ rest) o0 = Inr (o1, rest)"
  using assms(1,2)
proof (induction ps arbitrary: o0)
  case Nil
  then show ?case using assms(3) by (subst parse_flags.simps) (cases rest; auto simp: parseOne_def)
next
  case (Cons p ps)
  then obtain f where f: "map_of fs (fst p) = Some f"
    by (metis list.set_intros(1) map_of_eq_None_iff not_None_eq)
  have none: "fold (store fs) ps None = None" by (induction ps) (auto simp: store_def)
  from Cons.prems(2) obtain o2 where "fl_Set f (snd p) o0 = Some o2" "fold (store fs) ps (Some o2) = Some o1"
    using f none by (cases "fl_Set f (snd p) o0") (simp_all add: store_def [of fs p])
  with Cons f show ?case by (subst parse_flags.simps) (simp add: parseOne_setting)
qed

end
