(* ===== verification/Json_Roundtrip.thy ===== *)
theory Json_Roundtrip
  imports Go_Json
begin

text \<open>
  Reading back what \<open>json.Marshal\<close> writes: for values whose strings are valid UTF-8 and whose keys
  are distinct the parser accepts the text, and decoding it gives the value again, its objects
  sorted by key and its integers as the numbers they read as.
\<close>

subsection \<open>String literals\<close>

function valid_utf8 :: "string \<Rightarrow> bool" where
  "valid_utf8 [] = True"
| "valid_utf8 (c # cs) \<longleftrightarrow> utf8_size (c # cs) \<noteq> 0 \<and> valid_utf8 (drop (utf8_size (c # cs) - 1) cs)"
  by pat_completeness auto
termination
  by (relation "measure length") auto

lemma utf8_size_append: "utf8_size s \<noteq> 0 \<Longrightarrow> utf8_size (s @ t) = utf8_size s"
  by (induction s rule: utf8_size.induct) (auto simp: Let_def split: list.splits if_splits)

lemma utf8_size_length: "utf8_size s \<le> length s"
  by (induction s rule: utf8_size.induct) (auto simp: Let_def split: list.splits)

lemma utf8_size_ascii: "byte c < 128 \<Longrightarrow> utf8_size (c # cs) = 1"
  by simp

lemma ch_byte [simp]: "ch (byte c) = c"
  by (simp add: ch_def byte_def)

lemma byte_ch_small: "n < 256 \<Longrightarrow> byte (ch n) = n"
  by (simp add: ch_def byte_def)

lemma byte_lt [simp]: "byte c < 256"
  by (simp add: byte_def)

lemma hex_val_digit: "n < 16 \<Longrightarrow> hex_val (hex_digit n) = Some n"
  by (auto simp: hex_val_def hex_digit_def byte_def)

lemma eq_ch: "n < 256 \<Longrightarrow> c = ch n \<longleftrightarrow> byte c = n"
  using byte_ch_small ch_byte by metis

lemma hex4_low: "n < 256 \<Longrightarrow> hex4 (CHR ''0'' # CHR ''0'' # hex_digit (n div 16) # hex_digit (n mod 16) # s) = Some n"
  using hex_val_digit [of "n div 16"] hex_val_digit [of "n mod 16"] by (simp add: hex_val_def byte_def)

lemma simple_escapes:
  "simple_escape (ch 34) = Some (ch 34)" "simple_escape (ch 92) = Some (ch 92)"
  "simple_escape (CHR ''b'') = Some (ch 8)" "simple_escape (CHR ''f'') = Some (ch 12)"
  "simple_escape (CHR ''n'') = Some (ch 10)" "simple_escape (CHR ''r'') = Some (ch 13)"
  "simple_escape (CHR ''t'') = Some (ch 9)"
  by code_simp+

lemma ch_not_u: "ch 34 \<noteq> CHR ''u''" "ch 92 \<noteq> CHR ''u''"
  by code_simp+

lemma scan_escape_byte:
  assumes "byte c < 128"
  shows "scan_string (json_escape_byte c @ rest) = map_option (\<lambda>(t, q). (c # t, q)) (scan_string rest)"
proof -
  have b92: "byte (ch 92) = 92" by (simp add: byte_ch_small)
  consider (quote) "byte c = 34 \<or> byte c = 92" | (letter) "byte c \<in> {8, 12, 10, 13, 9}"
    | (hex) "byte c < 32 \<or> byte c = 60 \<or> byte c = 62 \<or> byte c = 38" "byte c \<notin> {8, 12, 10, 13, 9, 34, 92}"
    | (plain) "32 \<le> byte c" "byte c \<notin> {34, 92, 60, 62, 38}" by (cases "byte c < 32") auto
  then show ?thesis
  proof cases
    case quote
    then have "c = ch 34 \<or> c = ch 92" by (simp add: eq_ch)
    then show ?thesis by (elim disjE) (simp_all add: json_escape_byte_def byte_ch_small simple_escapes ch_not_u)
  next
    case letter
    then have "c = ch 8 \<or> c = ch 12 \<or> c = ch 10 \<or> c = ch 13 \<or> c = ch 9" by (auto simp: eq_ch)
    then show ?thesis by (elim disjE) (simp_all add: json_escape_byte_def byte_ch_small simple_escapes)
  next
    case hex
    then have e: "json_escape_byte c = ch 92 # CHR ''u'' # CHR ''0'' # CHR ''0'' # [hex_digit (byte c div 16), hex_digit (byte c mod 16)]"
      by (auto simp: json_escape_byte_def Let_def)
    have "utf8_encode (byte c) = [c]" using assms by (simp add: utf8_encode_def)
    with hex4_low [OF byte_lt, of c] assms show ?thesis by (simp add: e b92 del: hex4.simps)
  next
    case plain
    then show ?thesis using assms by (auto simp: json_escape_byte_def Let_def)
  qed
qed

lemma utf8_size_take: "utf8_size (take (utf8_size s) s) = utf8_size s"
  by (induction s rule: utf8_size.induct) (auto simp: Let_def numeral_eq_Suc split: list.splits)

lemma scan_multibyte:
  assumes "utf8_size (c # cs) = Suc k" "128 \<le> byte c"
  shows "scan_string (take (Suc k) (c # cs) @ rest) =
     map_option (\<lambda>(t, q). (take (Suc k) (c # cs) @ t, q)) (scan_string rest)"
proof -
  have len: "k \<le> length cs" using utf8_size_length [of "c # cs"] by (simp add: assms(1) del: utf8_size.simps)
  have "utf8_size (take (Suc k) (c # cs)) = Suc k" using utf8_size_take [of "c # cs"] unfolding assms(1) .
  then have "utf8_size (c # take k cs @ rest) = Suc k"
    using utf8_size_append [of "c # take k cs" rest] by (simp del: utf8_size.simps)
  then show ?thesis using assms(2) len by (simp add: Let_def del: utf8_size.simps)
qed

lemma scan_line_separator:
  "scan_string (ch 92 # CHR ''u'' # CHR ''2'' # CHR ''0'' # CHR ''2'' # CHR ''8'' # rest) =
     map_option (\<lambda>(t, q). ([ch 0xE2, ch 0x80, ch 0xA8] @ t, q)) (scan_string rest)"
  "scan_string (ch 92 # CHR ''u'' # CHR ''2'' # CHR ''0'' # CHR ''2'' # CHR ''9'' # rest) =
     map_option (\<lambda>(t, q). ([ch 0xE2, ch 0x80, ch 0xA9] @ t, q)) (scan_string rest)"
proof -
  have h: "hex4 (CHR ''2'' # CHR ''0'' # CHR ''2'' # CHR ''8'' # rest) = Some 0x2028"
    "hex4 (CHR ''2'' # CHR ''0'' # CHR ''2'' # CHR ''9'' # rest) = Some 0x2029"
    by (simp_all add: hex_val_def byte_def)
  show "scan_string (ch 92 # CHR ''u'' # CHR ''2'' # CHR ''0'' # CHR ''2'' # CHR ''8'' # rest) =
     map_option (\<lambda>(t, q). ([ch 0xE2, ch 0x80, ch 0xA8] @ t, q)) (scan_string rest)"
    "scan_string (ch 92 # CHR ''u'' # CHR ''2'' # CHR ''0'' # CHR ''2'' # CHR ''9'' # rest) =
     map_option (\<lambda>(t, q). ([ch 0xE2, ch 0x80, ch 0xA9] @ t, q)) (scan_string rest)"
    by (simp_all add: byte_ch_small h utf8_encode_def del: hex4.simps)
qed

lemma scan_json_escape: "valid_utf8 s \<Longrightarrow> scan_string (json_escape s @ ch 34 # rest) = Some (s, rest)"
proof (induction s rule: json_escape.induct)
  case 1
  show ?case by (simp add: byte_ch_small)
next
  case (2 c cs)
  show ?case
  proof (cases "byte c < 128")
    case True
    then have "valid_utf8 cs" using 2(4) utf8_size_ascii [OF True, of cs] by (simp del: utf8_size.simps)
    with 2(1) True show ?thesis by (simp add: scan_escape_byte)
  next
    case False
    obtain k where k: "utf8_size (c # cs) = Suc k" using 2(4) by (cases "utf8_size (c # cs)") (simp_all del: utf8_size.simps)
    have "valid_utf8 (drop k cs)" using 2(4) by (simp add: k del: utf8_size.simps)
    then have IH: "scan_string (json_escape (drop k cs) @ ch 34 # rest) = Some (drop k cs, rest)"
      using 2(3) [OF False refl] by (simp add: k del: utf8_size.simps)
    have split: "take (Suc k) (c # cs) @ drop k cs = c # cs" by simp
    consider (ls) "take (Suc k) (c # cs) = [ch 0xE2, ch 0x80, ch 0xA8]" | (ps) "take (Suc k) (c # cs) = [ch 0xE2, ch 0x80, ch 0xA9]"
      | (other) "take (Suc k) (c # cs) \<noteq> [ch 0xE2, ch 0x80, ch 0xA8]" "take (Suc k) (c # cs) \<noteq> [ch 0xE2, ch 0x80, ch 0xA9]" by blast
    then show ?thesis
    proof cases
      case ls
      have "json_escape (c # cs) = ch 92 # ''u2028'' @ json_escape (drop k cs)"
        using ls False by (simp add: k del: utf8_size.simps take_Suc_Cons)
      then show ?thesis using scan_line_separator(1) [of "json_escape (drop k cs) @ ch 34 # rest"] IH split [unfolded ls]
        by (simp del: json_escape.simps scan_string.simps)
    next
      case ps
      have "json_escape (c # cs) = ch 92 # ''u2029'' @ json_escape (drop k cs)"
        using ps False by (simp add: k eq_ch byte_ch_small del: utf8_size.simps take_Suc_Cons)
      then show ?thesis using scan_line_separator(2) [of "json_escape (drop k cs) @ ch 34 # rest"] IH split [unfolded ps]
        by (simp del: json_escape.simps scan_string.simps)
    next
      case other
      have "json_escape (c # cs) = take (Suc k) (c # cs) @ json_escape (drop k cs)"
        using other False by (simp add: k del: utf8_size.simps take_Suc_Cons)
      then show ?thesis using scan_multibyte [OF k] False IH split by (simp del: utf8_size.simps take_Suc_Cons json_escape.simps scan_string.simps)
    qed
  qed
qed

subsection \<open>Numbers\<close>

text \<open>What may follow a number: the end, or a character that no number goes on with.\<close>

definition number_end :: "string \<Rightarrow> bool" where
  "number_end s \<longleftrightarrow> s = [] \<or> (\<not> is_digit (hd s) \<and> hd s \<notin> {CHR ''.'', CHR ''e'', CHR ''E''})"

lemma span_digits_append:
  "span_digits s = (d, r) \<Longrightarrow> number_end rest \<Longrightarrow> span_digits (s @ rest) = (d, r @ rest)"
proof (induction s arbitrary: d)
  case Nil
  then show ?case by (cases rest) (auto simp: number_end_def)
next
  case (Cons c s)
  then show ?case by (auto split: prod.splits if_splits)
qed

lemma scan_frac_append:
  assumes "scan_frac s = Some (f, r)" "number_end rest"
  shows "scan_frac (s @ rest) = Some (f, r @ rest)"
proof (cases s)
  case Nil
  with assms show ?thesis by (cases rest) (auto simp: scan_frac_def number_end_def)
next
  case (Cons c t)
  show ?thesis
  proof (cases "c = CHR ''.''")
    case True
    obtain d q where d: "span_digits t = (d, q)" by fastforce
    with assms span_digits_append [OF d] show ?thesis by (auto simp: Cons True scan_frac_def split: if_splits)
  next
    case False
    with assms show ?thesis by (auto simp: Cons scan_frac_def)
  qed
qed

definition exp_sign :: "string \<Rightarrow> string \<times> string" where
  "exp_sign t = (case t of x # v \<Rightarrow> if x = CHR ''+'' \<or> x = CHR ''-'' then ([x], v) else ([], t) | [] \<Rightarrow> ([], t))"

lemma exp_sign_append: "t \<noteq> [] \<Longrightarrow> exp_sign t = (sg, u) \<Longrightarrow> exp_sign (t @ rest) = (sg, u @ rest)"
  by (cases t) (auto simp: exp_sign_def split: if_splits)

lemma scan_exp_append:
  assumes "scan_exp s = Some (f, r)" "number_end rest"
  shows "scan_exp (s @ rest) = Some (f, r @ rest)"
proof (cases s)
  case Nil
  with assms show ?thesis by (cases rest) (auto simp: scan_exp_def number_end_def)
next
  case (Cons c t)
  show ?thesis
  proof (cases "c = CHR ''e'' \<or> c = CHR ''E''")
    case True
    obtain sg u where e: "exp_sign t = (sg, u)" by fastforce
    obtain d q where d: "span_digits u = (d, q)" by fastforce
    have eq: "scan_exp (c # t') = (case exp_sign t' of (sg, u) \<Rightarrow> case span_digits u of (d, r) \<Rightarrow>
        if d = [] then None else Some (c # sg @ d, r))" for t'
      using True by (simp add: scan_exp_def exp_sign_def Let_def)
    have res: "d \<noteq> []" "f = c # sg @ d" "r = q"
      using assms(1) by (auto simp: Cons eq e d split: if_splits)
    then have "t \<noteq> []" using e d by (auto simp: exp_sign_def)
    from exp_sign_append [OF this e, of rest] span_digits_append [OF d assms(2)] res show ?thesis
      by (simp add: Cons eq)
  next
    case False
    with assms show ?thesis by (auto simp: Cons scan_exp_def)
  qed
qed

definition int_part :: "string \<Rightarrow> string \<times> string" where
  "int_part t = (case t of c # u \<Rightarrow> if c = CHR ''0'' then ([c], u) else span_digits t | [] \<Rightarrow> ([], t))"

lemma int_part_append:
  assumes "int_part t = (d, r)" "t \<noteq> []" "number_end rest"
  shows "int_part (t @ rest) = (d, r @ rest)"
proof (cases t)
  case (Cons c u)
  with assms span_digits_append [of t d r rest] show ?thesis by (auto simp: int_part_def)
qed (use assms in simp)

lemma scan_number_parts:
  "scan_number s =
     (let (sg, t) = (case s of c # u \<Rightarrow> if c = CHR ''-'' then ([c], u) else ([], s) | [] \<Rightarrow> ([], s));
          (d, r) = int_part t
      in if d = [] then None
         else case scan_frac r of None \<Rightarrow> None
              | Some (f, r2) \<Rightarrow> (case scan_exp r2 of None \<Rightarrow> None | Some (e, r3) \<Rightarrow> Some (sg @ d @ f @ e, r3)))"
  by (simp add: scan_number_def int_part_def)

lemma scan_number_append:
  assumes "scan_number s = Some (l, r)" "number_end rest"
  shows "scan_number (s @ rest) = Some (l, r @ rest)"
proof -
  define sign where "sign s = (case s of c # u \<Rightarrow> if c = CHR ''-'' then ([c], u) else ([], s) | [] \<Rightarrow> ([], s :: string))" for s
  obtain sg t where s: "sign s = (sg, t)" by fastforce
  obtain d q where t: "int_part t = (d, q)" by fastforce
  note eq = scan_number_parts [folded sign_def]
  from assms(1) obtain f r2 e where p: "d \<noteq> []" "scan_frac q = Some (f, r2)" "scan_exp r2 = Some (e, r)" "l = sg @ d @ f @ e"
    by (auto simp: eq s t split: if_splits option.splits)
  have ne: "t \<noteq> []" using t p(1) by (auto simp: int_part_def)
  then have "sign (s @ rest) = (sg, t @ rest)" using s by (cases s) (auto simp: sign_def split: if_splits)
  with int_part_append [OF t ne assms(2)] scan_frac_append [OF p(2) assms(2)] scan_exp_append [OF p(3) assms(2)] p(1,4)
  show ?thesis by (simp add: eq)
qed

lemma show_nat_hd: "0 < n \<Longrightarrow> hd (show_nat n) \<noteq> CHR ''0''"
proof (induction n rule: show_nat.induct)
  case (1 n)
  show ?case
  proof (cases "n < 10")
    case True
    have "char_of (48 + n) = CHR ''0'' \<Longrightarrow> False"
    proof -
      assume "char_of (48 + n) = CHR ''0''"
      then have "digit_val (char_of (48 + n)) = digit_val CHR ''0''" by simp
      moreover have "digit_val CHR ''0'' = 0" by code_simp
      ultimately show False using True 1(2) by simp
    qed
    with True show ?thesis by (subst show_nat.simps) auto
  next
    case False
    then have "0 < n div 10" by simp
    with 1(1) [OF False] False show ?thesis by (subst show_nat.simps) simp
  qed
qed

lemma int_part_show_nat: "int_part (show_nat n) = (show_nat n, [])"
proof (cases "n = 0")
  case True
  have "int_part (show_nat 0) = (show_nat 0, [])" by code_simp
  with True show ?thesis by simp
next
  case False
  then have "hd (show_nat n) \<noteq> CHR ''0''" by (simp add: show_nat_hd)
  then show ?thesis using span_digits_all [OF show_nat_digits, of n] by (cases "show_nat n") (auto simp: int_part_def)
qed

lemma scan_show_int: "scan_number (show_int n) = Some (show_int n, [])"
proof -
  have e: "scan_frac [] = Some ([], [])" "scan_exp [] = Some ([], [])" by (simp_all add: scan_frac_def scan_exp_def)
  obtain c u where s: "show_nat (nat n) = c # u" by (cases "show_nat (nat n)") simp_all
  have "c \<noteq> CHR ''-''" using show_nat_chars [of c "nat n"] s by (auto dest: is_digit_not_sign)
  then show ?thesis using int_part_show_nat [of "nat n"] int_part_show_nat [of "nat (- n)"]
    by (auto simp: scan_number_parts show_int_def e s)
qed

subsection \<open>Values\<close>

definition number_text :: "string \<Rightarrow> bool" where
  "number_text t \<longleftrightarrow> scan_number t = Some (t, [])"

fun printable :: "any \<Rightarrow> bool" where
  "printable (AStr s) = valid_utf8 s"
| "printable (AFloat x) = (case json_float x of None \<Rightarrow> False | Some t \<Rightarrow> number_text t)"
| "printable (AFloat32 x) = (case json_float x of None \<Rightarrow> False | Some t \<Rightarrow> number_text t)"
| "printable (AJsonNumber s) = number_text s"
| "printable (AArr xs) = (\<forall>x \<in> set xs. printable x)"
| "printable (AObj kvs) =
     (distinct (map fst kvs) \<and> (\<forall>(k, x) \<in> set kvs. valid_utf8 k \<and> printable x))"
| "printable _ = True"

fun depth :: "any \<Rightarrow> nat" where
  "depth (AArr xs) = Suc (fold max (map depth xs) 0)"
| "depth (AObj kvs) = Suc (fold max (map (\<lambda>(k, x). depth x) kvs) 0)"
| "depth _ = 0"

definition json_text :: "any \<Rightarrow> string" where
  "json_text v = the (marshal v)"

text \<open>The tree that the parser is to find in the text.\<close>

fun json_tree :: "any \<Rightarrow> json" where
  "json_tree ANil = JNull"
| "json_tree ANilSlice = JNull"
| "json_tree (AStr s) = JStr s"
| "json_tree (ABool b) = JBool b"
| "json_tree (AFloat x) = JNum (json_text (AFloat x))"
| "json_tree (AFloat32 x) = JNum (json_text (AFloat32 x))"
| "json_tree (AInt k n) = JNum (show_int n)"
| "json_tree (AJsonNumber s) = JNum s"
| "json_tree (AArr xs) = JArr (map (\<lambda>x. Raw (json_text x) (json_tree x)) xs)"
| "json_tree (AObj kvs) =
     JObj (map (\<lambda>(k, r). Field k r) (sort_fields (map (\<lambda>(k, x). (k, Raw (json_text x) (json_tree x))) kvs)))"

lemma printable_marshal:
  "printable v \<Longrightarrow> marshal v = Some (json_text v)"
  "\<forall>x \<in> set xs. printable x \<Longrightarrow> marshal_list xs = Some (map json_text xs)"
  "\<forall>(k, x) \<in> set kvs. printable x \<Longrightarrow> marshal_kvs kvs = Some (map (\<lambda>(k, x). (k, json_text x)) kvs)"
proof (induction v and xs and kvs rule: marshal_marshal_list_marshal_kvs.induct)
  case (6 kvs)
  then have "\<forall>(k, x) \<in> set kvs. printable x" by auto
  with 6 show ?case by (simp add: json_text_def)
qed (auto simp: json_text_def split: option.splits)

lemma text_arr:
  "printable (AArr xs) \<Longrightarrow> json_text (AArr xs) = ''['' @ strJoin '','' (map json_text xs) @ '']''"
  using printable_marshal(2) [of xs] by (simp add: json_text_def)

lemma text_obj:
  "printable (AObj kvs) \<Longrightarrow> json_text (AObj kvs) =
     [ch 123] @ strJoin '','' (map (\<lambda>(k, t). json_quote k @ '':'' @ t) (sort_fields (map (\<lambda>(k, x). (k, json_text x)) kvs))) @ [ch 125]"
proof -
  assume "printable (AObj kvs)"
  then have "\<forall>(k, x) \<in> set kvs. printable x" by auto
  from printable_marshal(3) [OF this] show ?thesis by (simp add: json_text_def)
qed

lemma sort_key_map: "sort_key f (map g xs) = map g (sort_key (f \<circ> g) xs)"
proof -
  have "insort_key f (g x) (map g ys) = map g (insort_key (f \<circ> g) x ys)" for x ys
    by (induction ys) auto
  then show ?thesis by (induction xs) auto
qed

lemma sort_fields_map: "sort_fields (map (\<lambda>(k, x). (k, h x)) kvs) = map (\<lambda>(k, x). (k, h x)) (sort_fields kvs)"
proof -
  have "fst \<circ> (\<lambda>(k :: string, x). (k, h x)) = fst" by auto
  then show ?thesis by (simp only: sort_fields_def sort_key_map)
qed

lemma scan_number_head:
  assumes "scan_number s = Some (l, r)"
  shows "\<exists>c u. s = c # u \<and> (c = CHR ''-'' \<or> is_digit c)"
proof (cases s)
  case Nil
  with assms show ?thesis by (simp add: scan_number_parts int_part_def)
next
  case (Cons c u)
  have False if "\<not> is_digit c" "c \<noteq> CHR ''-''"
  proof -
    have "int_part s = ([], s)" using Cons that by (auto simp: int_part_def is_digit_def)
    with assms Cons that show False by (simp add: scan_number_parts)
  qed
  with Cons show ?thesis by blast
qed

text \<open>No value starts like the end of an array or an object, or with white space.\<close>

definition value_start :: "string \<Rightarrow> bool" where
  "value_start t \<longleftrightarrow> (\<exists>c u. t = c # u \<and> byte c \<notin> {32, 9, 10, 13, 44, 93, 125})"

lemma value_start_Cons: "value_start (c # u) \<longleftrightarrow> byte c \<notin> {32, 9, 10, 13, 44, 93, 125}"
  by (simp add: value_start_def)

lemma byte_literals [simp]:
  "byte CHR ''n'' = 110" "byte CHR ''t'' = 116" "byte CHR ''f'' = 102" "byte CHR ''['' = 91" "byte CHR '']'' = 93"
  "byte CHR '','' = 44" "byte CHR '':'' = 58" "byte CHR ''-'' = 45"
  by code_simp+

lemma digit_byte: "is_digit c \<Longrightarrow> 48 \<le> byte c \<and> byte c \<le> 57"
  by (simp add: is_digit_def byte_def)

lemma number_start: "number_text t \<Longrightarrow> value_start t"
  using scan_number_head [of t t "[]"] by (auto simp: number_text_def value_start_Cons dest: digit_byte)

lemma number_text_show_int: "number_text (show_int n)"
  by (simp add: number_text_def scan_show_int)

lemma text_start: "printable v \<Longrightarrow> value_start (json_text v)"
proof (cases v)
  case (AArr xs)
  assume "printable v"
  then show ?thesis unfolding AArr by (simp add: text_arr value_start_Cons)
next
  case (AObj kvs)
  assume "printable v"
  then show ?thesis unfolding AObj by (simp add: text_obj value_start_Cons byte_ch_small)
qed (auto simp: json_text_def json_quote_def number_start number_text_show_int value_start_Cons byte_ch_small split: option.splits)

text \<open>What may follow a value: the end of the text, of an array or of an object, or a comma.\<close>

definition value_end :: "string \<Rightarrow> bool" where
  "value_end s \<longleftrightarrow> s = [] \<or> byte (hd s) \<in> {44, 93, 125}"

lemma value_number_end: "value_end s \<Longrightarrow> number_end s"
  by (auto simp: value_end_def number_end_def dest: digit_byte) (auto simp: byte_def)

lemma skip_ws_start: "value_start t \<Longrightarrow> skip_ws (t @ r) = t @ r"
  by (auto simp: value_start_def skip_ws_def is_ws_def)

lemma skip_ws_byte: "byte c > 32 \<Longrightarrow> skip_ws (c # r) = c # r"
  by (simp add: skip_ws_def is_ws_def)

text \<open>The parser reads the text of a value, whatever follows it, given enough fuel and room for nesting.\<close>

definition reads_back :: "any \<Rightarrow> bool" where
  "reads_back v \<longleftrightarrow> (\<forall>n d rest. value_end rest \<longrightarrow> d + int (depth v) \<le> 10000 \<longrightarrow> 2 * length (json_text v) \<le> n \<longrightarrow>
     parse_value n d (json_text v @ rest) = Some (json_tree v, rest))"

lemma parse_number: "number_text t \<Longrightarrow> value_end rest \<Longrightarrow> parse_value (Suc n) d (t @ rest) = Some (JNum t, rest)"
proof -
  assume t: "number_text t" and e: "value_end rest"
  have s: "scan_number (t @ rest) = Some (t, rest)"
    using scan_number_append [OF _ value_number_end [OF e], of t t "[]"] t by (simp add: number_text_def)
  obtain c u where c: "t = c # u" "c = CHR ''-'' \<or> is_digit c"
    using scan_number_head [of t t "[]"] t by (auto simp: number_text_def)
  then have "byte c \<notin> {123, 91, 34, 110, 116, 102}" by (auto dest: digit_byte)
  then have "byte c \<noteq> 123" "byte c \<noteq> 91" "byte c \<noteq> 34" "c \<notin> {CHR ''n'', CHR ''t'', CHR ''f''}" by auto
  with s c show ?thesis by (auto simp: hasPrefix_def)
qed


lemma reads_backD:
  "reads_back v \<Longrightarrow> value_end rest \<Longrightarrow> d + int (depth v) \<le> 10000 \<Longrightarrow> 2 * length (json_text v) \<le> n \<Longrightarrow>
     parse_value n d (json_text v @ rest) = Some (json_tree v, rest)"
  by (simp add: reads_back_def)

lemma parse_elems_text:
  assumes "xs \<noteq> []" "\<forall>x \<in> set xs. printable x \<and> reads_back x \<and> d + int (depth x) \<le> 10000"
    "2 * length (strJoin '','' (map json_text xs)) < n"
  shows "parse_elems n d (strJoin '','' (map json_text xs) @ CHR '']'' # rest) =
      Some (map (\<lambda>x. Raw (json_text x) (json_tree x)) xs, rest)"
  using assms
proof (induction xs arbitrary: n rule: list_nonempty_induct)
  case (single x)
  then obtain m where n: "n = Suc m" by (cases n) auto
  have "parse_value m d (json_text x @ CHR '']'' # rest) = Some (json_tree x, CHR '']'' # rest)"
    using single n by (auto simp: reads_back_def value_end_def)
  then show ?case by (simp add: n skip_ws_byte)
next
  case (cons x xs)
  then obtain y ys where xs: "xs = y # ys" by (cases xs) auto
  obtain m where n: "n = Suc m" using cons by (cases n) auto
  let ?t = "strJoin '','' (map json_text xs)"
  have join: "strJoin '','' (map json_text (x # xs)) = json_text x @ CHR '','' # ?t" by (simp add: xs)
  have v: "parse_value m d (json_text x @ CHR '','' # ?t @ CHR '']'' # rest) = Some (json_tree x, CHR '','' # ?t @ CHR '']'' # rest)"
    using cons n join by (auto simp: reads_back_def value_end_def)
  have "value_start ?t" using text_start [of y] cons by (cases ys) (auto simp: xs value_start_def)
  then have ws: "skip_ws (?t @ CHR '']'' # rest) = ?t @ CHR '']'' # rest" by (rule skip_ws_start)
  have "parse_elems m d (?t @ CHR '']'' # rest) = Some (map (\<lambda>x. Raw (json_text x) (json_tree x)) xs, rest)"
    using cons n unfolding join by (intro cons.IH) auto
  then show ?case unfolding join by (simp add: n v skip_ws_byte ws)
qed

definition member_text :: "string \<times> any \<Rightarrow> string" where
  "member_text p = json_quote (fst p) @ '':'' @ json_text (snd p)"

lemma parse_fields_text:
  assumes "kvs \<noteq> []" "\<forall>(k, x) \<in> set kvs. valid_utf8 k \<and> printable x \<and> reads_back x \<and> d + int (depth x) \<le> 10000"
    "2 * length (strJoin '','' (map member_text kvs)) < n"
  shows "parse_fields n d (strJoin '','' (map member_text kvs) @ ch 125 # rest) =
      Some (map (\<lambda>(k, x). Field k (Raw (json_text x) (json_tree x))) kvs, rest)"
  using assms
proof (induction kvs arbitrary: n rule: list_nonempty_induct)
  case (single p)
  obtain k x where p: "p = (k, x)" by fastforce
  obtain m where n: "n = Suc m" using single by (cases n) auto
  have v: "parse_value m d (json_text x @ ch 125 # rest) = Some (json_tree x, ch 125 # rest)"
    using single n by (auto simp: p reads_back_def value_end_def member_text_def byte_ch_small)
  have ws: "skip_ws (json_text x @ ch 125 # rest) = json_text x @ ch 125 # rest"
    using single p by (intro skip_ws_start text_start) auto
  from single v ws show ?case
    by (simp add: p n member_text_def json_quote_def byte_ch_small scan_json_escape skip_ws_byte del: scan_string.simps)
next
  case (cons p kvs)
  obtain k x where p: "p = (k, x)" by fastforce
  obtain q qs where kvs: "kvs = q # qs" using cons by (cases kvs) auto
  obtain m where n: "n = Suc m" using cons by (cases n) auto
  let ?t = "strJoin '','' (map member_text kvs)"
  have join: "strJoin '','' (map member_text (p # kvs)) = member_text p @ CHR '','' # ?t" by (simp add: kvs)
  have v: "parse_value m d (json_text x @ CHR '','' # ?t @ ch 125 # rest) = Some (json_tree x, CHR '','' # ?t @ ch 125 # rest)"
  proof (rule reads_backD)
    show "2 * length (json_text x) \<le> m" using cons(4) unfolding join by (simp add: n p member_text_def)
  qed (use cons p in \<open>auto simp: value_end_def\<close>)
  have ws: "skip_ws (json_text x @ CHR '','' # ?t @ ch 125 # rest) = json_text x @ CHR '','' # ?t @ ch 125 # rest"
    using cons p by (intro skip_ws_start text_start) auto
  have "value_start ?t" by (cases qs) (simp_all add: kvs member_text_def json_quote_def value_start_Cons byte_ch_small)
  then have ws2: "skip_ws (?t @ ch 125 # rest) = ?t @ ch 125 # rest" by (rule skip_ws_start)
  have "parse_fields m d (?t @ ch 125 # rest) = Some (map (\<lambda>(k, x). Field k (Raw (json_text x) (json_tree x))) kvs, rest)"
    using cons n unfolding join by (intro cons.IH) auto
  moreover have "member_text p = ch 34 # json_escape k @ ch 34 # CHR '':'' # json_text x"
    by (simp add: p member_text_def json_quote_def)
  moreover have "valid_utf8 k" using cons p by simp
  ultimately show ?case unfolding join
    by (simp add: p n byte_ch_small scan_json_escape skip_ws_byte v ws ws2 del: scan_string.simps list.map(2)) simp
qed


lemma scalar_reads_back:
  assumes "printable v" "\<And>m d rest. value_end rest \<Longrightarrow> parse_value (Suc m) d (json_text v @ rest) = Some (json_tree v, rest)"
  shows "reads_back v"
  unfolding reads_back_def
proof (intro allI impI)
  fix n d rest
  assume "value_end rest" "2 * length (json_text v) \<le> n"
  moreover from this obtain m where "n = Suc m"
    using text_start [OF assms(1)] by (cases n) (auto simp: value_start_def)
  ultimately show "parse_value n d (json_text v @ rest) = Some (json_tree v, rest)" using assms(2) by simp
qed

lemma depth_bound: "x \<in> set xs \<Longrightarrow> depth x \<le> fold max (map depth xs) 0"
proof -
  have "b \<le> fold max ns b \<and> (\<forall>n \<in> set ns. n \<le> fold max ns b)" for b :: nat and ns
  proof (induction ns arbitrary: b)
    case (Cons n ns)
    from Cons [of "max n b"] show ?case by auto
  qed simp
  then show "x \<in> set xs \<Longrightarrow> depth x \<le> fold max (map depth xs) 0" by auto
qed

lemma depth_obj: "depth (AObj kvs) = depth (AArr (map snd kvs))"
  by (simp add: case_prod_beta' comp_def)

lemma member_texts: "map (\<lambda>(k, t). json_quote k @ '':'' @ t) (sort_fields (map (\<lambda>(k, x). (k, json_text x)) kvs)) =
    map member_text (sort_fields kvs)"
  unfolding sort_fields_map by (simp add: case_prod_beta' comp_def member_text_def)

lemma printable_reads_back: "printable v \<Longrightarrow> reads_back v"
proof (induction v)
  case (AArr xs)
  show ?case unfolding reads_back_def
  proof (intro allI impI)
    fix n d rest
    assume e: "value_end rest" and d: "d + int (depth (AArr xs)) \<le> 10000" and n: "2 * length (json_text (AArr xs)) \<le> n"
    obtain m where m: "n = Suc m" using n text_start [OF AArr(2)] by (cases n) (auto simp: value_start_def)
    note t = text_arr [OF AArr(2)]
    have d': "d < 10000" "\<forall>x \<in> set xs. d + 1 + int (depth x) \<le> 10000" using d depth_bound by fastforce+
    show "parse_value n d (json_text (AArr xs) @ rest) = Some (json_tree (AArr xs), rest)"
    proof (cases "xs = []")
      case True
      with d' t show ?thesis by (simp add: m skip_ws_byte)
    next
      case False
      let ?t = "strJoin '','' (map json_text xs)"
      have "value_start ?t" using text_start [of "hd xs"] False AArr(2)
        by (cases xs; cases "tl xs") (auto simp: value_start_def)
      then obtain c u where "?t = c # u" "byte c \<noteq> 93" "skip_ws (?t @ CHR '']'' # rest) = ?t @ CHR '']'' # rest"
        by (metis skip_ws_start value_start_def insertCI)
      moreover have "parse_elems m (d + 1) (?t @ CHR '']'' # rest) = Some (map (\<lambda>x. Raw (json_text x) (json_tree x)) xs, rest)"
        using False AArr d' n by (intro parse_elems_text) (auto simp: t m)
      ultimately show ?thesis using d' by (simp add: t m)
    qed
  qed
next
  case (AObj kvs)
  show ?case unfolding reads_back_def
  proof (intro allI impI)
    fix n d rest
    assume e: "value_end rest" and d: "d + int (depth (AObj kvs)) \<le> 10000" and n: "2 * length (json_text (AObj kvs)) \<le> n"
    obtain m where m: "n = Suc m" using n text_start [OF AObj(2)] by (cases n) (auto simp: value_start_def)
    note t = text_obj [OF AObj(2), unfolded member_texts]
    have d': "d < 10000" "\<forall>(k, x) \<in> set kvs. d + 1 + int (depth x) \<le> 10000"
      using d depth_bound [of _ "map snd kvs"] unfolding depth_obj by fastforce+
    let ?s = "sort_fields kvs"
    have s: "set ?s = set kvs" by (simp add: sort_fields_def)
    have tree: "json_tree (AObj kvs) = JObj (map (\<lambda>(k, x). Field k (Raw (json_text x) (json_tree x))) ?s)"
      unfolding json_tree.simps sort_fields_map by (simp add: comp_def case_prod_beta')
    show "parse_value n d (json_text (AObj kvs) @ rest) = Some (json_tree (AObj kvs), rest)"
    proof (cases "kvs = []")
      case True
      with d' t show ?thesis by (simp add: m skip_ws_byte byte_ch_small sort_fields_def)
    next
      case False
      then have ne: "?s \<noteq> []" using s by auto
      let ?t = "strJoin '','' (map member_text ?s)"
      have "value_start ?t" using ne
        by (cases ?s; cases "tl ?s") (auto simp: member_text_def json_quote_def value_start_Cons byte_ch_small)
      then obtain c u where "?t = c # u" "byte c \<noteq> 125" "skip_ws (?t @ ch 125 # rest) = ?t @ ch 125 # rest"
        by (metis skip_ws_start value_start_def insertCI)
      moreover have "parse_fields m (d + 1) (?t @ ch 125 # rest) =
          Some (map (\<lambda>(k, x). Field k (Raw (json_text x) (json_tree x))) ?s, rest)"
        using ne AObj d' n by (intro parse_fields_text) (fastforce simp: t m s)+
      ultimately show ?thesis using d' by (simp add: t m tree byte_ch_small del: json_tree.simps)
    qed
  qed
qed (auto simp: scalar_reads_back json_quote_def byte_ch_small scan_json_escape parse_number number_text_show_int
    json_text_def hasPrefix_def split: option.splits simp del: scan_string.simps)

subsection \<open>Decoding\<close>

lemma json_parse_text:
  assumes "printable v" "depth v \<le> 10000"
  shows "json_parse (json_text v) = Some (json_tree v)"
proof -
  have "parse_value (2 * length (json_text v) + 2) 0 (json_text v @ []) = Some (json_tree v, [])"
    using assms printable_reads_back by (intro reads_backD) (auto simp: value_end_def)
  moreover have "skip_ws (json_text v) = json_text v" using skip_ws_start [OF text_start, of v "[]"] assms by simp
  ultimately show ?thesis by (simp add: json_parse_def skip_ws_def)
qed

text \<open>Numbers that come back as they are: integers that a float64 holds, floats whose literal reads as them.\<close>

fun exact_numbers :: "any \<Rightarrow> bool" where
  "exact_numbers (AInt k n) = (\<bar>n\<bar> \<le> 2 ^ 53)"
| "exact_numbers (AFloat x) = (parse_float (json_text (AFloat x)) = Some x)"
| "exact_numbers (AFloat32 x) = (parse_float (json_text (AFloat32 x)) = Some x)"
| "exact_numbers (AJsonNumber s) = (parse_float s \<noteq> None)"
| "exact_numbers (AArr xs) = (\<forall>x \<in> set xs. exact_numbers x)"
| "exact_numbers (AObj kvs) = (\<forall>(k, x) \<in> set kvs. exact_numbers x)"
| "exact_numbers _ = True"

text \<open>A value as a reader of its text sees it: numbers are float64, a nil slice is nil, keys are sorted.\<close>

fun as_read :: "any \<Rightarrow> any" where
  "as_read ANilSlice = ANil"
| "as_read (AInt k n) = AFloat (Fin (of_int n))"
| "as_read (AFloat32 x) = AFloat x"
| "as_read (AJsonNumber s) = (case parse_float s of None \<Rightarrow> ANil | Some x \<Rightarrow> AFloat x)"
| "as_read (AArr xs) = AArr (map as_read xs)"
| "as_read (AObj kvs) = AObj (sort_fields (map (\<lambda>(k, x). (k, as_read x)) kvs))"
| "as_read v = v"

lemma any_fields_distinct:
  "distinct (map fst kvs) \<Longrightarrow> any_fields (map (\<lambda>(k, x). Field k (Raw (f x) (g x))) kvs) = map (\<lambda>(k, x). (k, any_of_json (g x))) kvs"
  by (induction kvs) force+

lemma sort_fields_set [simp]: "set (sort_fields kvs) = set kvs" "distinct (map fst (sort_fields kvs)) \<longleftrightarrow> distinct (map fst kvs)"
proof -
  have "map fst (sort_fields kvs) = sort_key (\<lambda>x. x) (map fst kvs)"
    by (simp add: sort_fields_def sort_key_map comp_def)
  then show "distinct (map fst (sort_fields kvs)) \<longleftrightarrow> distinct (map fst kvs)" by simp
qed (simp add: sort_fields_def)

lemma json_tree_obj: "json_tree (AObj kvs) = JObj (map (\<lambda>(k, x). Field k (Raw (json_text x) (json_tree x))) (sort_fields kvs))"
  unfolding json_tree.simps sort_fields_map by (simp add: comp_def case_prod_beta')

lemma anys_of_raws_tree: "anys_of_raws (map (\<lambda>x. Raw (f x) (g x)) xs) = map (\<lambda>x. any_of_json (g x)) xs"
  by (induction xs) auto

lemma decode_tree: "printable v \<Longrightarrow> exact_numbers v \<Longrightarrow> any_of_json (json_tree v) = as_read v"
proof (induction v)
  case (AArr xs)
  then show ?case by (simp add: anys_of_raws_tree)
next
  case (AObj kvs)
  then have "distinct (map fst (sort_fields kvs))" by simp
  from any_fields_distinct [OF this]
  have "any_of_json (json_tree (AObj kvs)) = AObj (map (\<lambda>(k, x). (k, any_of_json (json_tree x))) (sort_fields kvs))"
    by (simp add: json_tree_obj del: json_tree.simps)
  also have "\<dots> = AObj (map (\<lambda>(k, x). (k, as_read x)) (sort_fields kvs))"
    using AObj by fastforce
  finally show ?case by (simp add: sort_fields_map)
qed (auto simp: parse_float_show_int split: option.splits)

theorem json_text_read_back:
  assumes "printable v" "exact_numbers v" "depth v \<le> 10000" "marshal v = Some t"
  shows "\<exists>j. json_parse t = Some j \<and> any_of_json j = as_read v"
  using json_parse_text [OF assms(1,3)] decode_tree [OF assms(1,2)] assms(4) by (simp add: json_text_def)

end
