(* ===== verification/Dap_Wire.thy ===== *)
theory Dap_Wire
  imports Json_Roundtrip Dap_Facts
begin

text \<open>
  The emitter and a reader of its output: what \<open>writeMessage\<close> puts on the wire, \<open>ReadDAPMessages\<close>
  reads back message for message.
\<close>

subsection \<open>Messages\<close>

lemma numbers_fit_tree: "printable v \<Longrightarrow> exact_numbers v \<Longrightarrow> numbers_fit (json_tree v)"
proof (induction v)
  case (AArr xs)
  have "numbers_fit_raws (map (\<lambda>x. Raw (json_text x) (json_tree x)) ys) \<longleftrightarrow> (\<forall>x \<in> set ys. numbers_fit (json_tree x))" for ys
    by (induction ys) auto
  with AArr show ?case by simp
next
  case (AObj kvs)
  have "numbers_fit_fields (map (\<lambda>(k, x). Field k (Raw (json_text x) (json_tree x))) ys) \<longleftrightarrow>
      (\<forall>(k, x) \<in> set ys. numbers_fit (json_tree x))" for ys
    by (induction ys) auto
  with AObj show ?case by (fastforce simp: json_tree_obj simp del: json_tree.simps)
qed (auto simp: parse_float_show_int)

definition deliverable :: "gomap \<Rightarrow> bool" where
  "deliverable m \<longleftrightarrow> printable (AObj m) \<and> exact_numbers (AObj m) \<and> depth (AObj m) \<le> 10000 \<and>
     in_int64 (int (length (json_text (AObj m))))"

definition map_as_read :: "gomap \<Rightarrow> gomap" where
  "map_as_read m = sort_fields (map (\<lambda>(k, x). (k, as_read x)) m)"

lemma deliverable_text:
  assumes "deliverable m"
  shows "writeMessage m = Some (frame (json_text (AObj m)))" "sendable (json_text (AObj m))"
    "unmarshal_map (json_text (AObj m)) = Some (map_as_read m)"
proof -
  have p: "printable (AObj m)" "exact_numbers (AObj m)" and d: "depth (AObj m) \<le> 10000"
    using assms by (simp_all add: deliverable_def)
  show "writeMessage m = Some (frame (json_text (AObj m)))"
    using printable_marshal(1) [OF p(1)] by (simp add: writeMessage_def del: marshal.simps)
  show u: "unmarshal_map (json_text (AObj m)) = Some (map_as_read m)"
    using json_parse_text [OF p(1) d] numbers_fit_tree [OF p] decode_tree [OF p]
    by (simp add: unmarshal_map_def json_tree_obj map_as_read_def del: json_tree.simps)
  show "sendable (json_text (AObj m))"
    using u assms text_start [OF p(1)] by (auto simp: sendable_def deliverable_def value_start_def)
qed

lemma dap_messages_read_back:
  "list_all deliverable ms \<Longrightarrow> ReadDAPMessages (wire ms) = (map map_as_read ms, CleanEnd)"
proof (induction ms)
  case Nil
  then show ?case by (subst ReadDAPMessages.simps) (simp add: wire_def read_header.simps read_line_def)
next
  case (Cons m ms)
  then have m: "deliverable m" and IH: "ReadDAPMessages (wire ms) = (map map_as_read ms, CleanEnd)" by auto
  have "wire (m # ms) = frame (json_text (AObj m)) @ wire ms" by (simp add: wire_def deliverable_text [OF m])
  then show ?case using IH
    by (subst ReadDAPMessages.simps) (simp add: read_frame [OF deliverable_text(2) [OF m]] deliverable_text(3) [OF m])
qed

subsection \<open>Valid UTF-8\<close>

lemma valid_utf8_append: "valid_utf8 s \<Longrightarrow> valid_utf8 t \<Longrightarrow> valid_utf8 (s @ t)"
proof (induction s rule: valid_utf8.induct)
  case (2 c cs)
  define n where "n = utf8_size (c # cs)"
  have n: "n \<noteq> 0" "valid_utf8 (drop (n - 1) cs)" using 2(2) by (simp_all add: n_def del: utf8_size.simps)
  have len: "n - 1 \<le> length cs" using utf8_size_length [of "c # cs"] by (simp add: n_def del: utf8_size.simps)
  have "utf8_size ((c # cs) @ t) = n" using n utf8_size_append [of "c # cs" t] by (simp add: n_def del: utf8_size.simps)
  moreover have "valid_utf8 (drop (n - 1) cs @ t)" using 2(1,3) n n_def by simp
  ultimately show ?case using n(1) len by (simp del: utf8_size.simps)
qed simp

lemma valid_utf8_ascii: "list_all (\<lambda>c. byte c < 128) s \<Longrightarrow> valid_utf8 s"
  by (induction s) auto

lemma valid_utf8_Cons: "byte c < 128 \<Longrightarrow> valid_utf8 (c # s) \<longleftrightarrow> valid_utf8 s"
  by simp

declare valid_utf8.simps(2) [simp del]

lemma byte_char [simp]: "byte (Char a b c d e f g h) = of_char (Char a b c d e f g h)"
  by (simp add: byte_def)

lemma valid_utf8_show_int: "valid_utf8 (show_int n)"
  by (rule valid_utf8_ascii) (auto simp: list_all_iff dest: show_int_bytes)

lemma valid_utf8_show_nat: "valid_utf8 (show_nat n)"
  using valid_utf8_show_int [of "int n"] by (simp add: show_int_def)

lemma valid_utf8_fmt_f3: "valid_utf8 (fmt_f3 x)"
  by (cases x) (simp_all add: fmt_thousandths_def valid_utf8_show_nat valid_utf8_append valid_utf8_Cons)

subsection \<open>Emitted events\<close>

text \<open>What every body of an event is: its text is well-formed and reads back, with little nesting.\<close>

definition clean :: "any \<Rightarrow> bool" where
  "clean v \<longleftrightarrow> printable v \<and> exact_numbers v \<and> depth v \<le> 9"

definition utf8_span :: "span \<Rightarrow> bool" where
  "utf8_span ev \<longleftrightarrow> list_all valid_utf8
     [EnvelopeID ev, SDK ev, Lang ev, SpanKind ev, StartedAt ev, Outcome ev, SpanID ev, ParentSpanID ev]"

lemma console_line_utf8: "utf8_span ev \<Longrightarrow> valid_utf8 (console_line ev)"
  unfolding console_line_def utf8_span_def
  by (intro valid_utf8_append valid_utf8_show_int valid_utf8_fmt_f3) (simp_all add: valid_utf8_Cons byte_ch)


definition clean_event :: "dap_event \<Rightarrow> bool" where
  "clean_event p \<longleftrightarrow> valid_utf8 (fst p) \<and> (case snd p of None \<Rightarrow> True | Some b \<Rightarrow> clean b)"

lemma clean_simps [simp]:
  "clean ANil" "clean (ABool b)" "clean (AStr s) \<longleftrightarrow> valid_utf8 s" "clean (AInt k n) \<longleftrightarrow> \<bar>n\<bar> \<le> 2 ^ 53"
  by (simp_all add: clean_def)

lemma first_events_clean: "\<bar>pid\<bar> \<le> 2 ^ 53 \<Longrightarrow> list_all clean_event (first_events pid)"
  by (simp add: first_events_def clean_event_def process_body_def clean_def valid_utf8_Cons)

lemma last_events_clean: "list_all clean_event (last_events i d)"
  by (simp add: last_events_def clean_event_def clean_def valid_utf8_Cons valid_utf8_append valid_utf8_show_int byte_ch)

lemma key_number_bounds: "1 \<le> key_number keys k \<and> key_number keys k \<le> 1 + int (length keys)"
  by (simp add: key_number_def length_takeWhile_le)

lemma add_key_length: "length (add_key keys k) \<le> Suc (length keys)"
  by (simp add: add_key_def)

lemma description_utf8: "utf8_span ev \<Longrightarrow> valid_utf8 (description ev) \<and> valid_utf8 (spanStopReason (Outcome ev))"
  by (simp add: description_def spanStopReason_def utf8_span_def valid_utf8_append valid_utf8_Cons)

lemma span_events_clean:
  assumes "utf8_span ev" "int (length keys) + 2 \<le> 2 ^ 53" "\<bar>ref\<bar> \<le> 2 ^ 53"
  shows "list_all clean_event (span_events keys k ref ev)"
proof -
  have "\<bar>key_number (add_key keys k) k\<bar> \<le> 2 ^ 53"
    using key_number_bounds [of "add_key keys k" k] add_key_length [of keys k] assms(2) by linarith
  then show ?thesis
    using assms(1,3) console_line_utf8 [OF assms(1)] description_utf8 [OF assms(1)]
    by (simp add: span_events_def Let_def clean_event_def clean_def thread_body_def stopped_body_def valid_utf8_Cons utf8_span_def)
qed

lemma script_clean:
  assumes "list_all utf8_span evs" "int (length keys) + int (length evs) + 2 \<le> 2 ^ 53"
    "0 \<le> ref" "ref + int (length evs) \<le> 2 ^ 53"
  shows "list_all clean_event (script grp keys ref evs)"
  using assms
proof (induction evs arbitrary: keys ref)
  case (Cons ev evs)
  have "int (length (add_key keys (thread_key grp ev))) + int (length evs) + 2 \<le> 2 ^ 53"
    using add_key_length [of keys "thread_key grp ev"] Cons.prems(2) by simp
  with Cons.IH [of "add_key keys (thread_key grp ev)" "ref + 1"] Cons.prems show ?case
    by (simp add: span_events_clean)
qed simp

lemma clean_event_message:
  assumes "clean_event p" "\<bar>n\<bar> \<le> 2 ^ 53"
  shows "printable (AObj (event_message n (fst p) (snd p))) \<and> exact_numbers (AObj (event_message n (fst p) (snd p)))
     \<and> depth (AObj (event_message n (fst p) (snd p))) \<le> 10000"
  using assms by (cases "snd p") (simp_all add: clean_event_def event_message_def clean_def valid_utf8_Cons)

lemma number_events_clean:
  assumes "list_all clean_event es" "0 \<le> n" "n + int (length es) \<le> 2 ^ 53" "m \<in> set (number_events n es)"
  shows "printable (AObj m) \<and> exact_numbers (AObj m) \<and> depth (AObj m) \<le> 10000"
  using assms
proof (induction es arbitrary: n)
  case (Cons p es)
  obtain name body where p: "p = (name, body)" by fastforce
  consider "m = event_message n (fst p) (snd p)" | "m \<in> set (number_events (n + 1) es)" using Cons.prems(4) by (auto simp: p)
  then show ?case
  proof cases
    case 1
    then show ?thesis using Cons.prems unfolding 1 by (intro clean_event_message) simp_all
  next
    case 2
    then show ?thesis using Cons.prems by (intro Cons.IH) simp_all
  qed
qed simp

lemma span_events_length: "length (span_events keys k ref ev) \<le> 4"
  by (simp add: span_events_def Let_def)

lemma script_length: "length (script grp keys ref evs) \<le> 4 * length evs"
proof (induction evs arbitrary: keys ref)
  case (Cons ev evs)
  from Cons [of "add_key keys (thread_key grp ev)" "ref + 1"] span_events_length [of keys "thread_key grp ev" ref ev]
  show ?case by simp
qed simp

lemma text_in_wire:
  assumes "m \<in> set ms" "printable (AObj m)"
  shows "length (json_text (AObj m)) \<le> length (wire ms)"
proof -
  have "length (json_text (AObj m)) \<le> length (frame (json_text (AObj m)))" by (simp add: frame_def)
  moreover have "writeMessage m = Some (frame (json_text (AObj m)))"
    using printable_marshal(1) [OF assms(2)] by (simp add: writeMessage_def del: marshal.simps)
  ultimately show ?thesis using assms(1) by (induction ms) (auto simp: wire_def)
qed

lemma emitted_deliverable:
  assumes "\<bar>pid\<bar> \<le> 2 ^ 53" "int (length spans) \<le> 2 ^ 50" "list_all utf8_span spans"
    "emitCmd pid grp spans (Inr (ingested, dropped)) = Some e" "int (length (wire (em_out e))) < 2 ^ 63"
  shows "list_all deliverable (em_out e)"
  unfolding list_all_iff
proof
  fix m assume m: "m \<in> set (em_out e)"
  let ?es = "first_events pid @ script grp [] 1000 spans @ last_events ingested dropped"
  have out: "em_out e = number_events 1 ?es" using emit_output [of pid grp spans ingested dropped] assms(4) by simp
  have "list_all clean_event ?es" using assms script_clean [of spans "[]" 1000 grp] by (simp add: first_events_clean last_events_clean)
  moreover have "1 + int (length ?es) \<le> 2 ^ 53"
    using script_length [of grp "[]" 1000 spans] assms(2) by (simp add: first_events_def last_events_def)
  ultimately have c: "printable (AObj m) \<and> exact_numbers (AObj m) \<and> depth (AObj m) \<le> 10000"
    using m out number_events_clean [of ?es 1 m] by simp
  moreover have "length (json_text (AObj m)) \<le> length (wire (em_out e))" using text_in_wire m c by blast
  ultimately show "deliverable m" using assms(5) by (simp add: deliverable_def in_int64_def int64_min_def int64_max_def)
qed

text \<open>C15. ReadDAPMessages reads the whole output of the emitter back, message for message and to a clean
  end, for spans whose texts are valid UTF-8: every message comes back with its keys sorted and
  its integers as the float64 numbers of the same value.\<close>

theorem emitted_stream_read_back:
  assumes "\<bar>pid\<bar> \<le> 2 ^ 53" "int (length spans) \<le> 2 ^ 50" "list_all utf8_span spans"
    "emitCmd pid grp spans (Inr (ingested, dropped)) = Some e" "int (length (wire (em_out e))) < 2 ^ 63"
  shows "ReadDAPMessages (wire (em_out e)) = (map map_as_read (em_out e), CleanEnd)"
  by (rule dap_messages_read_back [OF emitted_deliverable [OF assms]])


definition wire_span :: span where
  "wire_span = \<lparr>SchemaVersion = ''0.1'', EnvelopeID = ''e1'', SDK = ''go'', Lang = ''go'', SpanKind = ''attempt'', StartedAt = ''t'',
     DurationMs = Fin 2, Outcome = ''ok'', Attempt = 1, SpanID = ''s1'', ParentSpanID = [], WorkerID = [], Attrs = []\<rparr>"

lemma wire_append: "wire (xs @ ys) = wire xs @ wire ys"
  by (simp add: wire_def)

lemma sample_wire_lengths:
  "length (wire (number_events 1 (first_events 7))) < 1000"
  "length (wire (number_events 3 (script ''sdk'' [] 1000 [wire_span]))) < 1000"
  "length (wire (number_events 7 (last_events 1 0))) < 1000"
  by code_simp+

theorem emitted_stream_read_back_witness:
  "\<exists>e. emitCmd 7 ''sdk'' [wire_span] (Inr (1, 0)) = Some e \<and> length (em_out e) = 8
     \<and> ReadDAPMessages (wire (em_out e)) = (map map_as_read (em_out e), CleanEnd)"
proof -
  obtain e where e: "emitCmd 7 ''sdk'' [wire_span] (Inr (1, 0)) = Some e"
    "em_out e = number_events 1 (first_events 7 @ script ''sdk'' [] 1000 [wire_span] @ last_events 1 0)"
    using emit_output [of 7 "''sdk''" "[wire_span]" 1 0] by auto
  have n: "length (first_events 7) = 2" "length (script ''sdk'' [] 1000 [wire_span]) = 4"
    by (simp_all add: first_events_def span_events_def Let_def)
  have len: "length (wire (em_out e)) < 3000"
    using sample_wire_lengths unfolding e(2) number_events_append wire_append n by simp
  have "length (number_events k es) = length es" for k es by (induction k es rule: number_events.induct) auto
  then have "length (em_out e) = 8" by (simp add: e(2) n last_events_def del: script.simps)
  moreover have "list_all utf8_span [wire_span]" by (simp add: wire_span_def utf8_span_def valid_utf8_Cons)
  from emitted_stream_read_back [OF _ _ this e(1)] len
  have "ReadDAPMessages (wire (em_out e)) = (map map_as_read (em_out e), CleanEnd)" by simp
  ultimately show ?thesis using e(1) by blast
qed

end
