(* ===== verification/Adapter.thy ===== *)
theory Adapter
  imports Go_Flag Dap_Wire DapServe_Facts
begin

text \<open>
  The program exec-history-dap: \<open>main\<close>, \<open>emitCmd\<close> and \<open>serveCmd\<close> with their flags, from the command
  line to what is written and the exit code. The surroundings are the files, the standard
  input, the process id and \<open>lib.Replay\<close>, which the repository does not contain: from the bytes
  of a trace and the strictness to the spans it hands to its callback and how it ends.
\<close>

subsection \<open>Flags\<close>

record adapter_options =
  ao_Trace :: string
  ao_Strict :: bool
  ao_ThreadBy :: string

definition adapter_defaults :: adapter_options where
  "adapter_defaults = \<lparr>ao_Trace = [], ao_Strict = False, ao_ThreadBy = ''envelope''\<rparr>"

definition emit_flags :: "adapter_options flag_set" where
  "emit_flags =
     [(''trace'', string_flag (\<lambda>v. ao_Trace_update (\<lambda>_. v))),
      (''strict'', bool_flag (\<lambda>b. ao_Strict_update (\<lambda>_. b))),
      (''thread-by'', string_flag (\<lambda>v. ao_ThreadBy_update (\<lambda>_. v)))]"

definition serve_flags :: "adapter_options flag_set" where
  "serve_flags =
     [(''trace'', string_flag (\<lambda>v. ao_Trace_update (\<lambda>_. v))),
      (''thread-by'', string_flag (\<lambda>v. ao_ThreadBy_update (\<lambda>_. v)))]"

datatype adapter_err =
    FlagError flag_err
  | TraceRequired
  | BadThreadBy string
  | NotOpened string
  | ReplayFailed string
  | StreamFailed frame_err
  | NotEncoded

text \<open>The options of a command, or the first error: of the flags, of the trace, of the grouping.\<close>

definition command_options :: "adapter_options flag_set \<Rightarrow> string list \<Rightarrow> adapter_err + adapter_options" where
  "command_options fs args =
     (case parse_flags fs args adapter_defaults of
        Inl e \<Rightarrow> Inl (FlagError e)
      | Inr (op, _) \<Rightarrow>
          if ao_Trace op = [] then Inl TraceRequired
          else if ao_ThreadBy op \<noteq> ''envelope'' \<and> ao_ThreadBy op \<noteq> ''sdk'' then Inl (BadThreadBy (ao_ThreadBy op))
          else Inr op)"

subsection \<open>The commands\<close>

record adapter_host =
  ah_open :: "string \<Rightarrow> string + string"
  ah_stdin :: string
  ah_share :: "string \<Rightarrow> string \<times> string"
  ah_pid :: int
  ah_replay :: "string \<Rightarrow> bool \<Rightarrow> span list \<times> (string + int \<times> int)"
  ah_oob :: "f64 \<Rightarrow> int"

definition open_trace :: "adapter_host \<Rightarrow> string \<Rightarrow> string + string" where
  "open_trace h path = (if path = ''-'' then Inr (ah_stdin h) else ah_open h path)"

text \<open>
  \<open>emitCmd\<close>: the messages written and the error. Every message is flushed when it is written, so
  those before an error stay.
\<close>

definition emit_command :: "adapter_host \<Rightarrow> string list \<Rightarrow> gomap list \<times> adapter_err option" where
  "emit_command h args =
     (case command_options emit_flags args of
        Inl e \<Rightarrow> ([], Some e)
      | Inr op \<Rightarrow>
          (case open_trace h (ao_Trace op) of
             Inl err \<Rightarrow> ([], Some (NotOpened err))
           | Inr bytes \<Rightarrow>
               (case initialize (ah_pid h) (newEmitter (ao_ThreadBy op)) of
                  None \<Rightarrow> ([], Some NotEncoded)
                | Some e1 \<Rightarrow>
                    (let (spans, replayed) = ah_replay h bytes (ao_Strict op) in
                     case on_spans spans e1 of
                       None \<Rightarrow> (em_out e1, Some NotEncoded)
                     | Some e2 \<Rightarrow>
                         (case replayed of
                            Inl err \<Rightarrow> (em_out e2, Some (ReplayFailed err))
                          | Inr (ingested, dropped) \<Rightarrow>
                              (case terminate ingested dropped e2 of
                                 None \<Rightarrow> (em_out e2, Some NotEncoded)
                               | Some e3 \<Rightarrow> (em_out e3, None)))))))"

text \<open>
  \<open>serveCmd\<close>: what a launch finds in the trace; the server reads its requests from the standard
  input. With \<open>-\<close> as the trace a launch opens the same stream behind the back of the buffered reader of
  the requests. How the stream is then divided depends on that buffer and on the writer; \<open>ah_share\<close> says
  which bytes reach the request reader and which the launch. For any other trace the requests are the
  whole input.
\<close>

definition launch_trace :: "adapter_host \<Rightarrow> string \<Rightarrow> string \<Rightarrow> string + span list \<times> string option" where
  "launch_trace h path shared =
     (case (if path = ''-'' then Inr shared else ah_open h path) of
        Inl err \<Rightarrow> Inl err
      | Inr bytes \<Rightarrow>
          (let (spans, replayed) = ah_replay h bytes True
           in Inr (spans, case replayed of Inl err \<Rightarrow> Some err | Inr _ \<Rightarrow> None)))"

definition serve_command :: "adapter_host \<Rightarrow> string list \<Rightarrow> gomap list \<times> adapter_err option" where
  "serve_command h args =
     (case command_options serve_flags args of
        Inl e \<Rightarrow> ([], Some e)
      | Inr op \<Rightarrow>
          (let (requests, shared) = (if ao_Trace op = ''-'' then ah_share h (ah_stdin h) else (ah_stdin h, []));
               se = \<lparr>se_oob = ah_oob h, se_pid = ah_pid h, se_trace = launch_trace h (ao_Trace op) shared\<rparr>;
               (end, s) = Run se requests (newServer (ao_Trace op) (ao_ThreadBy op))
           in (sv_out s, case end of Finished \<Rightarrow> None | ReadError e \<Rightarrow> Some (StreamFailed e) | EncodeError \<Rightarrow> Some NotEncoded)))"

datatype complaint = Usage | CommandFailed string adapter_err

record adapter_exit =
  ae_Code :: int
  ae_Stdout :: string
  ae_Stderr :: "complaint list"

definition adapter_exit :: "string \<Rightarrow> gomap list \<times> adapter_err option \<Rightarrow> adapter_exit" where
  "adapter_exit cmd r =
     (case snd r of
        None \<Rightarrow> \<lparr>ae_Code = 0, ae_Stdout = wire (fst r), ae_Stderr = []\<rparr>
      | Some e \<Rightarrow> \<lparr>ae_Code = 1, ae_Stdout = wire (fst r), ae_Stderr = [CommandFailed cmd e]\<rparr>)"

definition usage :: adapter_exit where
  "usage = \<lparr>ae_Code = 2, ae_Stdout = [], ae_Stderr = [Usage]\<rparr>"

text \<open>\<open>main\<close>, on the arguments behind the program name.\<close>

definition adapter_main :: "adapter_host \<Rightarrow> string list \<Rightarrow> adapter_exit" where
  "adapter_main h args =
     (case args of
        [] \<Rightarrow> usage
      | cmd # rest \<Rightarrow>
          if cmd = ''emit'' then adapter_exit cmd (emit_command h rest)
          else if cmd = ''serve'' then adapter_exit cmd (serve_command h rest)
          else if cmd = ''version'' then
            \<lparr>ae_Code = 0, ae_Stdout = ''exec-history-dap 0.1.0-p1'' @ [ch 10], ae_Stderr = []\<rparr>
          else usage)"

subsection \<open>What an emission leaves\<close>

text \<open>The settings of the options, as a command line in the plain form.\<close>

definition emit_args :: "adapter_options \<Rightarrow> string list" where
  "emit_args op = map setting [(''trace'', ao_Trace op), (''strict'', if ao_Strict op then ''true'' else ''false''), (''thread-by'', ao_ThreadBy op)]"

lemma emit_args_parsed: "parse_flags emit_flags (emit_args op) adapter_defaults = Inr (op, [])"
proof -
  let ?ps = "[(''trace'', ao_Trace op), (''strict'', if ao_Strict op then ''true'' else ''false''), (''thread-by'', ao_ThreadBy op)]"
  have "fold (store emit_flags) ?ps (Some adapter_defaults) = Some op"
    by (simp add: store_def emit_flags_def string_flag_def bool_flag_def parse_bool_def adapter_defaults_def)
  from parse_settings [OF _ this, of "[]"] show ?thesis
    by (simp add: emit_args_def flag_name_def emit_flags_def)
qed

lemma initialize_emits: "initialize pid e = Some (emits (first_events pid) e)"
  by (simp add: initialize_def writeEvent_emits encoding first_events_def)

lemma terminate_emits: "terminate ingested dropped e = Some (emits (last_events ingested dropped) e)"
  by (simp add: terminate_def writeEvent_emits encoding last_events_def)

lemma emit_command_output:
  assumes "command_options emit_flags args = Inr op" "open_trace h (ao_Trace op) = Inr bytes"
    "ah_replay h bytes (ao_Strict op) = (spans, replayed)"
  shows "emit_command h args =
     (number_events 1 (first_events (ah_pid h) @ script (ao_ThreadBy op) [] 1000 spans
        @ (case replayed of Inl err \<Rightarrow> [] | Inr (i, d) \<Rightarrow> last_events i d)),
      case replayed of Inl err \<Rightarrow> Some (ReplayFailed err) | Inr _ \<Rightarrow> None)"
proof -
  let ?e = "emits (first_events (ah_pid h)) (newEmitter (ao_ThreadBy op))"
  have e: "emitter_ids.numbered ?e" "keys_of ?e = []" "em_nextVar ?e = 1000" "em_threadBy ?e = ao_ThreadBy op"
    "em_out ?e = number_events 1 (first_events (ah_pid h))" "em_seq ?e = int (length (first_events (ah_pid h)))"
    by (simp_all add: emitter_ids.numbered_def keys_of_def newEmitter_def)
  obtain e2 where e2: "on_spans spans ?e = Some e2"
    "em_seq e2 = em_seq ?e + int (length (script (ao_ThreadBy op) [] 1000 spans))"
    "em_out e2 = em_out ?e @ number_events (em_seq ?e + 1) (script (ao_ThreadBy op) [] 1000 spans)"
    using on_spans_script [OF e(1), of spans] e by (auto simp: Let_def)
  show ?thesis
    unfolding emit_command_def assms initialize_emits terminate_emits sum.case option.case Let_def prod.case e2(1)
    using e2 e by (auto simp: number_events_append add_ac split: sum.split prod.split)
qed

text \<open>C17. The command emit with valid options writes the events of the opening and of every span that the
  replay delivers; only a replay that ends without an error adds the closing events, and only then
  is the exit code 0.\<close>

theorem emit_program_outcome:
  assumes "ao_Trace op \<noteq> []" "ao_ThreadBy op = ''envelope'' \<or> ao_ThreadBy op = ''sdk''"
    "open_trace h (ao_Trace op) = Inr bytes" "ah_replay h bytes (ao_Strict op) = (spans, replayed)"
  shows "let out = adapter_main h (''emit'' # emit_args op);
             body = first_events (ah_pid h) @ script (ao_ThreadBy op) [] 1000 spans
         in case replayed of
              Inl err \<Rightarrow> ae_Code out = 1 \<and> ae_Stdout out = wire (number_events 1 body)
            | Inr (i, d) \<Rightarrow> ae_Code out = 0 \<and> ae_Stdout out = wire (number_events 1 (body @ last_events i d))"
proof -
  have "command_options emit_flags (emit_args op) = Inr op"
    using assms(1,2) by (auto simp: command_options_def emit_args_parsed)
  from emit_command_output [OF this assms(3,4)] show ?thesis
    by (auto simp: adapter_main_def adapter_exit_def Let_def split: sum.split)
qed


definition sample_adapter :: adapter_host where
  "sample_adapter = \<lparr>ah_open = (\<lambda>p. if p = ''t.jsonl'' then Inr ''x'' else Inl ''no such file''), ah_stdin = [], ah_share = (\<lambda>input. (input, [])), ah_pid = 7,
     ah_replay = (\<lambda>bytes strict. ([sample_span], if strict then Inl ''line 2'' else Inr (1, 1))), ah_oob = (\<lambda>_. 0)\<rparr>"

theorem emit_program_outcome_witness:
  "ae_Code (adapter_main sample_adapter [''emit'', ''-trace=t.jsonl'', ''-strict=true'', ''-thread-by=sdk'']) = 1
   \<and> ae_Code (adapter_main sample_adapter [''emit'', ''-trace=t.jsonl'', ''-strict=false'', ''-thread-by=sdk'']) = 0"
proof -
  let ?op = "\<lambda>b. \<lparr>ao_Trace = ''t.jsonl'', ao_Strict = b, ao_ThreadBy = ''sdk''\<rparr>"
  have args: "emit_args (?op True) = [''-trace=t.jsonl'', ''-strict=true'', ''-thread-by=sdk'']"
    "emit_args (?op False) = [''-trace=t.jsonl'', ''-strict=false'', ''-thread-by=sdk'']"
    by (simp_all add: emit_args_def setting_def)
  have o: "open_trace sample_adapter (ao_Trace (?op b)) = Inr ''x''" for b by (simp add: open_trace_def sample_adapter_def)
  have r: "ah_replay sample_adapter ''x'' True = ([sample_span], Inl ''line 2'')"
    "ah_replay sample_adapter ''x'' False = ([sample_span], Inr (1, 1))" by (simp_all add: sample_adapter_def)
  show ?thesis
    using emit_program_outcome [of "?op True", OF _ _ o] emit_program_outcome [of "?op False", OF _ _ o] r
    by (simp add: args Let_def)
qed

subsection \<open>A session over the wire\<close>

lemma Run_wire:
  assumes "list_all deliverable ms"
  shows "Run se (wire ms) s = (Finished, snd (run_requests se (map map_as_read ms) s))"
  using assms
proof (induction ms arbitrary: s)
  case Nil
  show ?case by (subst Run.simps) (simp add: wire_def readDAPMessage_def read_header.simps read_line_def)
next
  case (Cons m ms)
  then have m: "deliverable m" and IH: "\<And>s. Run se (wire ms) s = (Finished, snd (run_requests se (map map_as_read ms) s))" by auto
  have w: "wire (m # ms) = frame (json_text (AObj m)) @ wire ms" by (simp add: wire_def deliverable_text [OF m])
  obtain v s1 where h: "handle se (map_as_read m) s = (v, s1)" by (metis prod.exhaust)
  have "v \<noteq> Failed"
    using run_requests_answers [of se "[map_as_read m]" s] h by (auto simp: answers_def and_then_def)
  then show ?case
    unfolding w by (cases v) (simp_all add: Run_frame [OF deliverable_text(2) [OF m]] deliverable_text(3) [OF m] h IH and_then_def)
qed

lemma map_of_as_read:
  assumes "distinct (map fst m)"
  shows "map_of (map_as_read m) k = map_option as_read (map_of m k)"
proof -
  have "map_of (sort_fields kvs) = map_of kvs" if "distinct (map fst kvs)" for kvs :: gomap
    using that by (intro map_of_inject_set [THEN iffD2]) simp_all
  then have "map_of (map_as_read m) = map_of (map (\<lambda>(k, x). (k, as_read x)) m)"
    using assms by (simp add: map_as_read_def case_prod_beta' comp_def)
  then show ?thesis by (simp add: map_of_map)
qed

text \<open>A request as an editor sends it.\<close>

type_synonym editor_request = "int \<times> string \<times> gomap"

fun request_message :: "editor_request \<Rightarrow> gomap" where
  "request_message (n, cmd, args) =
     [(''seq'', AInt KInt n), (''type'', AStr ''request''), (''command'', AStr cmd), (''arguments'', AObj args)]"

text \<open>The requests up to the first that ends the session.\<close>

fun until_left :: "editor_request list \<Rightarrow> editor_request list" where
  "until_left [] = []"
| "until_left ((n, cmd, args) # rs) =
     (n, cmd, args) # (if cmd = ''disconnect'' \<or> cmd = ''terminate'' then [] else until_left rs)"

lemma request_read:
  assumes "deliverable (request_message (n, cmd, args))"
  shows "is_request (map_as_read (request_message (n, cmd, args)))" "command (map_as_read (request_message (n, cmd, args))) = cmd"
    "request_seq se (map_as_read (request_message (n, cmd, args))) = n"
    "leaving (map_as_read (request_message (n, cmd, args))) \<longleftrightarrow> cmd = ''disconnect'' \<or> cmd = ''terminate''"
proof -
  let ?m = "request_message (n, cmd, args)"
  have get: "map_of (map_as_read ?m) k = map_option as_read (map_of ?m k)" for k
    by (rule map_of_as_read) simp
  show r: "is_request (map_as_read ?m)" and c: "command (map_as_read ?m) = cmd"
    unfolding is_request_def command_def str_field_def get by simp_all
  have "\<bar>n\<bar> \<le> 2 ^ 53" using assms by (simp add: deliverable_def)
  then show "request_seq se (map_as_read ?m) = n"
    unfolding request_seq_def num_field_def get
    by (simp add: f64_to_int64_def rat_trunc_def in_int64_def int64_min_def int64_max_def abs_le_iff)
  show "leaving (map_as_read ?m) \<longleftrightarrow> cmd = ''disconnect'' \<or> cmd = ''terminate''" using r c by (simp only: leaving_def) simp
qed

lemma served_requests:
  "list_all deliverable (map request_message rs) \<Longrightarrow>
   map (\<lambda>m. (request_seq se m, command m)) (filter is_request (served (map (map_as_read \<circ> request_message) rs)))
     = map (\<lambda>(n, cmd, args). (n, cmd)) (until_left rs)"
proof (induction rs rule: until_left.induct)
  case (2 n cmd args rs)
  then have d: "deliverable (request_message (n, cmd, args))" by simp
  show ?case
  proof (cases "cmd = ''disconnect'' \<or> cmd = ''terminate''")
    case True
    with request_read [OF d] show ?thesis by (simp del: request_message.simps)
  next
    case False
    with 2 request_read [OF d] show ?thesis by (simp del: request_message.simps)
  qed
qed simp

lemma numbered_by_length:
  assumes "map f xs = [1..n]"
  shows "map f xs = [1..int (length xs)]"
proof -
  have "length xs = nat n" using arg_cong [OF assms, of length] by simp
  then show ?thesis using assms by (cases "0 \<le> n") simp_all
qed

definition serve_args :: "adapter_options \<Rightarrow> string list" where
  "serve_args op = map setting [(''trace'', ao_Trace op), (''thread-by'', ao_ThreadBy op)]"

lemma serve_args_parsed: "parse_flags serve_flags (serve_args op) adapter_defaults = Inr (op\<lparr>ao_Strict := False\<rparr>, [])"
proof -
  have "fold (store serve_flags) [(''trace'', ao_Trace op), (''thread-by'', ao_ThreadBy op)] (Some adapter_defaults) = Some (op\<lparr>ao_Strict := False\<rparr>)"
    by (simp add: store_def serve_flags_def string_flag_def adapter_defaults_def)
  from parse_settings [OF _ this, of "[]"] show ?thesis
    by (simp add: serve_args_def flag_name_def serve_flags_def)
qed

text \<open>C18. Started with valid options and a trace other than -, for which the requests and the trace would
  share the standard input, on the bytes of any requests of an editor (with texts in valid UTF-8,
  numbers that float64 represents exactly, and nested at most 10000 deep), the command serve ends
  with exit code 0 and writes messages numbered from 1 whose responses answer exactly the requests
  up to the first disconnect or terminate, in order, each with its sequence number and command.\<close>

theorem serve_program_answers:
  assumes "ao_Trace op \<notin> {[], ''-''}" "ao_ThreadBy op = ''envelope'' \<or> ao_ThreadBy op = ''sdk''"
    "ah_stdin h = wire (map request_message rs)" "list_all deliverable (map request_message rs)"
  shows "let out = adapter_main h (''serve'' # serve_args op) in
    ae_Code out = 0 \<and> (\<exists>ms. ae_Stdout out = wire ms \<and> map seq_of ms = [1..int (length ms)]
       \<and> concat (map answer_of ms) = map (\<lambda>(n, cmd, args). (n, cmd)) (until_left rs))"
proof -
  have o: "command_options serve_flags (serve_args op) = Inr (op\<lparr>ao_Strict := False\<rparr>)"
    using assms(1,2) by (auto simp: command_options_def serve_args_parsed)
  let ?se = "\<lparr>se_oob = ah_oob h, se_pid = ah_pid h, se_trace = launch_trace h (ao_Trace op) []\<rparr>"
  let ?start = "newServer (ao_Trace op) (ao_ThreadBy op)"
  let ?fin = "snd (run_requests ?se (map map_as_read (map request_message rs)) ?start)"
  have start: "sv_out ?start = []" "sv_seq ?start = 0" by (simp_all add: newServer_def)
  have "serve_command h (serve_args op) = (sv_out ?fin, None)"
    using assms(1) by (simp add: serve_command_def o assms(3) Run_wire [OF assms(4)] Let_def)
  then have out: "adapter_main h (''serve'' # serve_args op) = \<lparr>ae_Code = 0, ae_Stdout = wire (sv_out ?fin), ae_Stderr = []\<rparr>"
    by (simp add: adapter_main_def adapter_exit_def)
  have a: "map seq_of (sv_out ?fin) = [1..sv_seq ?fin]"
    "concat (map answer_of (sv_out ?fin)) = map (\<lambda>(n, cmd, args). (n, cmd)) (until_left rs)"
    using run_requests_answers [of ?se "map map_as_read (map request_message rs)" ?start] served_requests [OF assms(4), of ?se]
    by (auto simp: answers_def start)
  then have "map seq_of (sv_out ?fin) = [1..int (length (sv_out ?fin))]" using numbered_by_length by blast
  with a(2) out show ?thesis unfolding Let_def by (intro conjI exI [of _ "sv_out ?fin"]) simp_all
qed


definition sample_requests :: "editor_request list" where
  "sample_requests = [(1, ''initialize'', []), (2, ''threads'', []), (3, ''disconnect'', []), (4, ''next'', [])]"

lemma sample_requests_deliverable: "list_all deliverable (map request_message sample_requests)"
  by code_simp

theorem serve_program_answers_witness:
  "\<exists>ms. ae_Stdout (adapter_main (sample_adapter\<lparr>ah_stdin := wire (map request_message sample_requests)\<rparr>)
       [''serve'', ''-trace=t.jsonl'', ''-thread-by=sdk'']) = wire ms
     \<and> concat (map answer_of ms) = [(1, ''initialize''), (2, ''threads''), (3, ''disconnect'')]"
proof -
  let ?op = "\<lparr>ao_Trace = ''t.jsonl'', ao_Strict = False, ao_ThreadBy = ''sdk''\<rparr>"
  let ?h = "sample_adapter\<lparr>ah_stdin := wire (map request_message sample_requests)\<rparr>"
  have args: "serve_args ?op = [''-trace=t.jsonl'', ''-thread-by=sdk'']" by (simp add: serve_args_def setting_def)
  have "ah_stdin ?h = wire (map request_message sample_requests)" by simp
  from serve_program_answers [OF _ _ this sample_requests_deliverable, of ?op] show ?thesis
    by (auto simp: args Let_def sample_requests_def)
qed

end
