(* ===== verification/Loading.thy ===== *)
theory Loading
  imports Runner "HOL-Library.Multiset"
begin

text \<open>
  Loading the suites: how \<open>json.Unmarshal\<close> fills the structs of lib/schema.go, and \<open>loadTests\<close> of
  runner/http/runner.go and runner/grpc/runner.go, which have the same text. The directory is a tree of
  files as \<open>filepath.Walk\<close> sees it.
\<close>

subsection \<open>Unmarshalling into a struct\<close>

text \<open>
  A decoder takes the JSON value and what the target holds; \<open>None\<close> is an error. \<open>null\<close> leaves a
  string, a number or a struct as it is and makes a pointer, a slice or a map nil. An object fills a
  struct field by field in the order of the text: the key selects a field up to letter case, an
  unknown key is skipped. A slice is filled from its front, reusing the elements it had (of a field
  that a text gives three times the third could find those of the first again; this is not modelled).
\<close>

definition dec_string :: "json \<Rightarrow> string \<Rightarrow> string option" where
  "dec_string j old = (case j of JNull \<Rightarrow> Some old | JStr s \<Rightarrow> Some s | _ \<Rightarrow> None)"

definition dec_int :: "json \<Rightarrow> int \<Rightarrow> int option" where
  "dec_int j old = (case j of JNull \<Rightarrow> Some old | JNum l \<Rightarrow> atoi l | _ \<Rightarrow> None)"

definition dec_pointer :: "(json \<Rightarrow> 'a \<Rightarrow> 'a option) \<Rightarrow> 'a \<Rightarrow> json \<Rightarrow> 'a option \<Rightarrow> 'a option option" where
  "dec_pointer dec zero j old =
     (if j = JNull then Some None
      else map_option Some (dec j (case old of None \<Rightarrow> zero | Some x \<Rightarrow> x)))"

fun dec_elems :: "(json \<Rightarrow> 'a \<Rightarrow> 'a option) \<Rightarrow> 'a \<Rightarrow> rawmsg list \<Rightarrow> 'a list \<Rightarrow> 'a list option" where
  "dec_elems dec zero [] old = Some []"
| "dec_elems dec zero (e # es) old =
     (case dec (raw_tree e) (case old of [] \<Rightarrow> zero | x # _ \<Rightarrow> x) of
        None \<Rightarrow> None
      | Some x \<Rightarrow> map_option (Cons x) (dec_elems dec zero es (tl old)))"

definition dec_slice :: "(json \<Rightarrow> 'a \<Rightarrow> 'a option) \<Rightarrow> 'a \<Rightarrow> json \<Rightarrow> 'a list \<Rightarrow> 'a list option" where
  "dec_slice dec zero j old =
     (case j of JNull \<Rightarrow> Some [] | JArr es \<Rightarrow> dec_elems dec zero es old | _ \<Rightarrow> None)"

text \<open>A map keeps the entries it had.\<close>

definition dec_map :: "(json \<Rightarrow> (string \<times> 'a) list option) \<Rightarrow> json \<Rightarrow> (string \<times> 'a) list option
    \<Rightarrow> (string \<times> 'a) list option option" where
  "dec_map un j old =
     (if j = JNull then Some None
      else case un j of
        None \<Rightarrow> None
      | Some kvs \<Rightarrow>
          Some (Some (kvs @ filter (\<lambda>(k, v). k \<notin> fst ` set kvs) (case old of None \<Rightarrow> [] | Some m \<Rightarrow> m))))"

fun dec_fields :: "(string \<Rightarrow> rawmsg \<Rightarrow> 'a \<Rightarrow> 'a option) \<Rightarrow> field list \<Rightarrow> 'a \<Rightarrow> 'a option" where
  "dec_fields set_field [] x = Some x"
| "dec_fields set_field (Field k v # fs) x =
     (case set_field (fold_name k) v x of None \<Rightarrow> None | Some y \<Rightarrow> dec_fields set_field fs y)"

definition dec_struct :: "(string \<Rightarrow> rawmsg \<Rightarrow> 'a \<Rightarrow> 'a option) \<Rightarrow> json \<Rightarrow> 'a \<Rightarrow> 'a option" where
  "dec_struct set_field j x =
     (case j of JNull \<Rightarrow> Some x | JObj fs \<Rightarrow> dec_fields set_field fs x | _ \<Rightarrow> None)"

subsection \<open>The fields of a test case\<close>

definition timing_field :: "string \<Rightarrow> rawmsg \<Rightarrow> TimingAssertion \<Rightarrow> TimingAssertion option" where
  "timing_field k v t =
     (let ptr = dec_pointer dec_int 0 (raw_tree v) in
      if k = ''less_than'' then map_option (\<lambda>x. t\<lparr>LessThan := x\<rparr>) (ptr (LessThan t))
      else if k = ''greater_than'' then map_option (\<lambda>x. t\<lparr>GreaterThan := x\<rparr>) (ptr (GreaterThan t))
      else if k = ''approximate'' then map_option (\<lambda>x. t\<lparr>Approximate := x\<rparr>) (ptr (Approximate t))
      else Some t)"

definition zero_timing :: TimingAssertion where
  "zero_timing = \<lparr>LessThan = None, GreaterThan = None, Approximate = None\<rparr>"

text \<open>A raw message takes the text of any value, \<open>null\<close> included.\<close>

definition assertions_field :: "string \<Rightarrow> rawmsg \<Rightarrow> Assertions \<Rightarrow> Assertions option" where
  "assertions_field k v a =
     (let j = raw_tree v in
      if k = ''status'' then Some (a\<lparr>as_Status := Some v\<rparr>)
      else if k = ''status_in'' then map_option (\<lambda>x. a\<lparr>as_StatusIn := x\<rparr>) (dec_slice dec_int 0 j (as_StatusIn a))
      else if k = ''body'' then map_option (\<lambda>x. a\<lparr>as_Body := x\<rparr>) (dec_map un_object j (as_Body a))
      else if k = ''body_absent'' then
        map_option (\<lambda>x. a\<lparr>as_BodyAbsent := x\<rparr>) (dec_slice dec_string [] j (as_BodyAbsent a))
      else if k = ''headers'' then Some (a\<lparr>as_Headers := Some v\<rparr>)
      else if k = ''timing_ms'' then
        map_option (\<lambda>x. a\<lparr>as_TimingMs := x\<rparr>) (dec_pointer (dec_struct timing_field) zero_timing j (as_TimingMs a))
      else if k = ''body_raw'' then Some (a\<lparr>as_BodyRaw := Some v\<rparr>)
      else if k = ''body_contains'' then
        map_option (\<lambda>x. a\<lparr>as_BodyContains := x\<rparr>) (dec_slice dec_string [] j (as_BodyContains a))
      else Some a)"

definition zero_assertions :: Assertions where
  "zero_assertions = \<lparr>as_Status = None, as_StatusIn = [], as_Body = None, as_BodyAbsent = [], as_Headers = None,
     as_TimingMs = None, as_BodyRaw = None, as_BodyContains = []\<rparr>"

definition step_field :: "string \<Rightarrow> rawmsg \<Rightarrow> Step \<Rightarrow> Step option" where
  "step_field k v st =
     (let j = raw_tree v in
      if k = ''id'' then map_option (\<lambda>x. st\<lparr>st_ID := x\<rparr>) (dec_string j (st_ID st))
      else if k = ''action'' then map_option (\<lambda>x. st\<lparr>st_Action := x\<rparr>) (dec_string j (st_Action st))
      else if k = ''intent'' then map_option (\<lambda>x. st\<lparr>st_Intent := x\<rparr>) (dec_string j (st_Intent st))
      else if k = ''path'' then map_option (\<lambda>x. st\<lparr>st_Path := x\<rparr>) (dec_string j (st_Path st))
      else if k = ''headers'' then map_option (\<lambda>x. st\<lparr>st_Headers := x\<rparr>) (dec_map un_string_map j (st_Headers st))
      else if k = ''body'' then Some (st\<lparr>st_Body := Some v\<rparr>)
      else if k = ''delay_ms'' then map_option (\<lambda>x. st\<lparr>st_DelayMs := x\<rparr>) (dec_int j (st_DelayMs st))
      else if k = ''duration_ms'' then map_option (\<lambda>x. st\<lparr>st_DurationMs := x\<rparr>) (dec_int j (st_DurationMs st))
      else if k = ''assertions'' then
        map_option (\<lambda>x. st\<lparr>st_Assertions := x\<rparr>)
          (dec_pointer (dec_struct assertions_field) zero_assertions j (st_Assertions st))
      else if k = ''description'' then map_option (\<lambda>x. st\<lparr>st_Description := x\<rparr>) (dec_string j (st_Description st))
      else if k = ''parallel_with'' then map_option (\<lambda>x. st\<lparr>st_ParallelWith := x\<rparr>) (dec_string j (st_ParallelWith st))
      else Some st)"

definition zero_step :: Step where
  "zero_step = \<lparr>st_ID = [], st_Action = [], st_Intent = [], st_Path = [], st_Headers = None, st_Body = None,
     st_DelayMs = 0, st_DurationMs = 0, st_Assertions = None, st_Description = [], st_ParallelWith = []\<rparr>"

definition dec_steps :: "json \<Rightarrow> Step list \<Rightarrow> Step list option" where
  "dec_steps j old = dec_slice (dec_struct step_field) zero_step j old"

definition setup_field :: "string \<Rightarrow> rawmsg \<Rightarrow> Step list \<Rightarrow> Step list option" where
  "setup_field k v ss = (if k = ''steps'' then dec_steps (raw_tree v) ss else Some ss)"

definition case_field :: "string \<Rightarrow> rawmsg \<Rightarrow> TestCase \<Rightarrow> TestCase option" where
  "case_field k v tc =
     (let j = raw_tree v in
      if k = ''test_id'' then map_option (\<lambda>x. tc\<lparr>tc_TestID := x\<rparr>) (dec_string j (tc_TestID tc))
      else if k = ''level'' then Some (tc\<lparr>tc_Level := Some v\<rparr>)
      else if k = ''category'' then map_option (\<lambda>x. tc\<lparr>tc_Category := x\<rparr>) (dec_string j (tc_Category tc))
      else if k = ''name'' then map_option (\<lambda>x. tc\<lparr>tc_Name := x\<rparr>) (dec_string j (tc_Name tc))
      else if k = ''description'' then map_option (\<lambda>x. tc\<lparr>tc_Description := x\<rparr>) (dec_string j (tc_Description tc))
      else if k = ''spec_ref'' then map_option (\<lambda>x. tc\<lparr>tc_SpecRef := x\<rparr>) (dec_string j (tc_SpecRef tc))
      else if k = ''tags'' then map_option (\<lambda>x. tc\<lparr>tc_Tags := x\<rparr>) (dec_slice dec_string [] j (tc_Tags tc))
      else if k = ''setup'' then
        map_option (\<lambda>x. tc\<lparr>tc_Setup := x\<rparr>) (dec_pointer (dec_struct setup_field) [] j (tc_Setup tc))
      else if k = ''steps'' then map_option (\<lambda>x. tc\<lparr>tc_Steps := x\<rparr>) (dec_steps j (tc_Steps tc))
      else if k = ''teardown'' then
        map_option (\<lambda>x. tc\<lparr>tc_Teardown := x\<rparr>) (dec_pointer (dec_struct setup_field) [] j (tc_Teardown tc))
      else Some tc)"

definition zero_case :: TestCase where
  "zero_case = \<lparr>tc_TestID = [], tc_Level = None, tc_Category = [], tc_Name = [], tc_Description = [], tc_SpecRef = [],
     tc_Tags = [], tc_Setup = None, tc_Steps = [], tc_Teardown = None, tc_FilePath = [], tc_LevelInt = 0\<rparr>"

definition decode_case :: "string \<Rightarrow> TestCase option" where
  "decode_case data = (case json_parse data of None \<Rightarrow> None | Some j \<Rightarrow> dec_struct case_field j zero_case)"

subsection \<open>One file\<close>

datatype load_err = CannotVisit string | CannotRead string | CannotParse string | BadLevel string level_err

definition load_file :: "string \<Rightarrow> string option \<Rightarrow> load_err + TestCase" where
  "load_file path content =
     (case content of
        None \<Rightarrow> Inl (CannotRead path)
      | Some data \<Rightarrow>
          (case decode_case data of
             None \<Rightarrow> Inl (CannotParse path)
           | Some tc \<Rightarrow>
               (case ParseLevel (tc\<lparr>tc_FilePath := path\<rparr>) of
                  (Inl err, tc1) \<Rightarrow> Inl (BadLevel path err)
                | (Inr n, tc1) \<Rightarrow> Inr tc1)))"

subsection \<open>The walk\<close>

text \<open>
  \<open>filepath.Clean\<close> and \<open>filepath.Join\<close> of a directory and a name, with slashes: empty elements and dots
  vanish, two dots take back the element before them unless there is none to take back.
\<close>

definition clean_step :: "bool \<Rightarrow> string \<Rightarrow> string list \<Rightarrow> string list" where
  "clean_step rooted e out =
     (if e = [] \<or> e = ''.'' then out
      else if e = ''..'' then
        (case out of
           [] \<Rightarrow> if rooted then [] else [e]
         | x # rest \<Rightarrow> if x = ''..'' then e # out else rest)
      else e # out)"

definition Clean :: "string \<Rightarrow> string" where
  "Clean path =
     (let rooted = hasPrefix path ''/'';
          es = rev (fold (clean_step rooted) (strSplit (CHR ''/'') path) []);
          t = (if rooted then ''/'' else []) @ strJoin ''/'' es
      in if t = [] then ''.'' else t)"

definition path_join :: "string \<Rightarrow> string \<Rightarrow> string" where
  "path_join dir name = (if dir = [] then Clean name else Clean (dir @ ''/'' @ name))"

text \<open>
  A file with its content (\<open>None\<close> when it cannot be read), a directory with its entries, or a path
  whose status or entries cannot be read.
\<close>

datatype fs_node = FileNode "string option" | DirNode "(string \<times> fs_node) list" | BadNode

text \<open>
  \<open>filepath.Walk\<close> visits the entries of a directory in the order of their names and stops with the
  first error; the visits append to the tests.
\<close>

lemma size_list_sort_fields [simp]: "size_list f (sort_fields kvs) = size_list f kvs"
proof -
  have "size_list f (insort_key fst x xs) = Suc (f x + size_list f xs)" for x :: "string \<times> 'a" and xs
    by (induction xs) auto
  then show ?thesis unfolding sort_fields_def by (induction kvs) auto
qed

function visit :: "string \<Rightarrow> fs_node \<Rightarrow> TestCase list \<Rightarrow> load_err option \<times> TestCase list"
and visit_entries :: "string \<Rightarrow> (string \<times> fs_node) list \<Rightarrow> TestCase list \<Rightarrow> load_err option \<times> TestCase list" where
  "visit path (FileNode content) tests =
     (if \<not> hasSuffix path ''.json'' then (None, tests)
      else case load_file path content of
        Inl err \<Rightarrow> (Some err, tests)
      | Inr tc \<Rightarrow> (None, tests @ [tc]))"
| "visit path (DirNode es) tests = visit_entries path (sort_fields es) tests"
| "visit path BadNode tests = (Some (CannotVisit path), tests)"
| "visit_entries path [] tests = (None, tests)"
| "visit_entries path ((name, node) # es) tests =
     (case visit (path_join path name) node tests of
        (Some err, tests1) \<Rightarrow> (Some err, tests1)
      | (None, tests1) \<Rightarrow> visit_entries path es tests1)"
  by pat_completeness auto
termination
  by (relation "measure (case_sum (\<lambda>(p, n, t). size n) (\<lambda>(p, es, t). size_list (size_prod (\<lambda>_. 0) size) es))") auto

text \<open>
  \<open>loadTests\<close>: the error of the walk and the tests so far, sorted by id. \<open>sort.Slice\<close> may order
  tests with the same id as it likes, so it is an argument.
\<close>

definition loadTests :: "(TestCase list \<Rightarrow> TestCase list) \<Rightarrow> string \<Rightarrow> fs_node \<Rightarrow> load_err option \<times> TestCase list" where
  "loadTests slice_sort dir node = (let (err, tests) = visit dir node [] in (err, slice_sort tests))"

text \<open>The gRPC runner has a copy of the function.\<close>

definition grpc_loadTests :: "(TestCase list \<Rightarrow> TestCase list) \<Rightarrow> string \<Rightarrow> fs_node \<Rightarrow> load_err option \<times> TestCase list" where
  "grpc_loadTests = loadTests"

subsection \<open>What the walk finds\<close>

text \<open>
  The outcome of every .json file of the tree and of every unreadable part of it, in the order of the
  tree: what loading should be, without order and early end.
\<close>

fun outcomes :: "string \<Rightarrow> fs_node \<Rightarrow> (load_err + TestCase) list" where
  "outcomes path (FileNode content) = (if hasSuffix path ''.json'' then [load_file path content] else [])"
| "outcomes path (DirNode es) = concat (map (\<lambda>(name, node). outcomes (path_join path name) node) es)"
| "outcomes path BadNode = [Inl (CannotVisit path)]"

abbreviation entry_outcomes :: "string \<Rightarrow> (string \<times> fs_node) list \<Rightarrow> (load_err + TestCase) list" where
  "entry_outcomes path es \<equiv> concat (map (\<lambda>(name, node). outcomes (path_join path name) node) es)"

text \<open>The visits account for a list of outcomes: all of them loaded, or an error among them.\<close>

definition accounts_for :: "load_err option \<times> TestCase list \<Rightarrow> TestCase list \<Rightarrow> (load_err + TestCase) multiset \<Rightarrow> bool" where
  "accounts_for r tests os \<longleftrightarrow>
     (case fst r of
        None \<Rightarrow> image_mset Inr (mset (snd r)) = image_mset Inr (mset tests) + os
      | Some err \<Rightarrow> Inl err \<in># os)"

lemma mset_sort_fields: "mset (sort_fields kvs) = mset kvs"
  by (simp add: sort_fields_def)

lemma mset_entry_outcomes: "mset (entry_outcomes path (sort_fields es)) = mset (entry_outcomes path es)"
proof -
  have "mset (entry_outcomes path es) = \<Sum>\<^sub># (image_mset (\<lambda>(n, nd). mset (outcomes (path_join path n) nd)) (mset es))" for es
    by (induction es) auto
  then show ?thesis by (simp only: mset_sort_fields)
qed

lemma visit_accounts:
  "accounts_for (visit path node tests) tests (mset (outcomes path node))"
  "accounts_for (visit_entries path es tests) tests (mset (entry_outcomes path es))"
proof (induction path node tests and path es tests rule: visit_visit_entries.induct)
  case (1 path content tests)
  show ?case by (simp add: accounts_for_def split: sum.split)
next
  case (2 path es tests)
  then show ?case by (simp add: mset_entry_outcomes [of path es, symmetric])
next
  case (5 path name node es tests)
  obtain err tests1 where v: "visit (path_join path name) node tests = (err, tests1)" by (cases "visit (path_join path name) node tests")
  show ?case
  proof (cases err)
    case None
    from 5(2) [OF v [symmetric] None] 5(1) show ?thesis
      by (auto simp: v None accounts_for_def ac_simps split: option.splits)
  next
    case (Some e)
    with 5(1) show ?thesis by (simp add: v accounts_for_def)
  qed
qed (simp_all add: accounts_for_def)

subsection \<open>The contract of sorting\<close>

locale id_sort =
  fixes slice_sort :: "TestCase list \<Rightarrow> TestCase list"
  assumes slice_perm: "mset (slice_sort tcs) = mset tcs"
    and slice_sorted: "sorted (map tc_TestID (slice_sort tcs))"
begin

lemma slice_sort_unique:
  assumes "distinct (map tc_TestID tcs)"
  shows "slice_sort tcs = sort_key tc_TestID tcs"
proof (rule sort_key_inj_key_eq [symmetric, OF slice_perm [symmetric] _ slice_sorted])
  show "inj_on tc_TestID (set tcs)" using assms by (simp add: distinct_map)
qed

lemma loaded:
  "let (err, tests) = loadTests slice_sort dir node in
     sorted (map tc_TestID tests)
   \<and> (case err of None \<Rightarrow> image_mset Inr (mset tests) = mset (outcomes dir node)
      | Some e \<Rightarrow> Inl e \<in> set (outcomes dir node))"
  using visit_accounts(1) [of dir node "[]"]
  by (auto simp: loadTests_def accounts_for_def slice_perm slice_sorted split: prod.splits option.splits)

end

text \<open>Insertion sort, which the library uses for short slices, keeps the contract.\<close>

interpretation stable: id_sort "sort_key tc_TestID"
  by unfold_locales simp_all

subsection \<open>Properties\<close>

text \<open>C19. Loading a directory returns the tests sorted by id; without an error they are the tests of
  exactly the .json files anywhere below it, each once, and an error is that of one of these files
  or of an unreadable part of the tree.\<close>

theorem load_tests_outcome:
  assumes "\<And>tcs. mset (slice_sort tcs) = mset tcs" "\<And>tcs. sorted (map tc_TestID (slice_sort tcs))"
  shows "let (err, tests) = loadTests slice_sort dir node in
     sorted (map tc_TestID tests)
   \<and> (case err of None \<Rightarrow> image_mset Inr (mset tests) = mset (outcomes dir node)
      | Some e \<Rightarrow> Inl e \<in> set (outcomes dir node))"
  by (rule id_sort.loaded) (use assms in unfold_locales)

text \<open>A directory with two tests in subdirectories, the first in the order of the names with the higher id, and a note.\<close>

definition sample_suite :: fs_node where
  "sample_suite = DirNode
     [(''b'', DirNode [(''one.json'', FileNode (Some (ch 123 # [ch 34] @ ''test_id'' @ [ch 34] @ '':'' @ [ch 34] @ ''L0-1'' @ [ch 34, ch 125])))]),
      (''a.json'', FileNode (Some (ch 123 # [ch 34] @ ''TEST_ID'' @ [ch 34] @ '':'' @ [ch 34] @ ''L0-2'' @ [ch 34, ch 125]))),
      (''README.md'', FileNode None)]"

definition sample_loaded :: "string \<Rightarrow> string \<Rightarrow> TestCase" where
  "sample_loaded i path = zero_case\<lparr>tc_TestID := i, tc_FilePath := path\<rparr>"

theorem load_tests_outcome_witness:
  "let (err, tests) = loadTests (sort_key tc_TestID) ''./suites'' sample_suite
   in err = None \<and> map tc_TestID tests = [''L0-1'', ''L0-2'']"
proof -
  let ?a = "sample_loaded ''L0-1'' ''suites/b/one.json''" and ?b = "sample_loaded ''L0-2'' ''suites/a.json''"
  obtain err tests where l: "loadTests (sort_key tc_TestID) ''./suites'' sample_suite = (err, tests)" by fastforce
  have o: "outcomes ''./suites'' sample_suite = [Inr ?a, Inr ?b]" by code_simp
  have t: "sorted (map tc_TestID tests)" "case err of None \<Rightarrow> image_mset Inr (mset tests) = (image_mset Inr {#?a, ?b#} :: (load_err + TestCase) multiset)
      | Some e \<Rightarrow> Inl e \<in> set [Inr ?a, Inr ?b]"
    using load_tests_outcome [of "sort_key tc_TestID" "''./suites''" sample_suite] by (auto simp: l o split: option.splits)
  then have "err = None" by (auto split: option.splits)
  moreover have "inj (image_mset (Inr :: TestCase \<Rightarrow> load_err + TestCase))" by (intro multiset.inj_map) simp
  ultimately have "mset tests = {#?a, ?b#}" using t(2) by (simp only: option.case inj_eq)
  from arg_cong [OF this, of "image_mset tc_TestID"] have "mset (map tc_TestID tests) = mset [''L0-1'', ''L0-2'']"
    by (simp add: sample_loaded_def)
  then have "map tc_TestID tests = sort [''L0-1'', ''L0-2'']" using t(1) by (metis properties_for_sort)
  moreover have "sort [''L0-1'', ''L0-2''] = [''L0-1'', ''L0-2'']" by code_simp
  ultimately show ?thesis using \<open>err = None\<close> by (simp add: l)
qed

text \<open>Fields whose key the struct does not know have no effect.\<close>

lemma dec_fields_known:
  assumes "\<And>k v x. k \<notin> known \<Longrightarrow> set_field k v x = Some x"
  shows "dec_fields set_field (filter (\<lambda>f. fold_name (field_key f) \<in> known) fs) x = dec_fields set_field fs x"
proof (induction fs arbitrary: x)
  case (Cons f fs)
  show ?case using Cons assms by (cases f) (auto split: option.splits)
qed simp

definition step_keys :: "string set" where
  "step_keys = set [''id'', ''action'', ''intent'', ''path'', ''headers'', ''body'', ''delay_ms'', ''duration_ms'',
     ''assertions'', ''description'', ''parallel_with'']"

lemma step_field_unknown: "k \<notin> step_keys \<Longrightarrow> step_field k v st = Some st"
  by (simp add: step_field_def step_keys_def)

lemma step_field_keeps_assertions:
  "step_field k v st = Some st1 \<Longrightarrow> k \<noteq> ''assertions'' \<Longrightarrow> st_Assertions st1 = st_Assertions st"
  by (auto simp: step_field_def Let_def split: if_splits)

lemma dec_fields_keeps_assertions:
  "dec_fields step_field fs st = Some st1 \<Longrightarrow> \<forall>f \<in> set fs. fold_name (field_key f) \<noteq> ''assertions'' \<Longrightarrow>
   st_Assertions st1 = st_Assertions st"
proof (induction fs arbitrary: st)
  case (Cons f fs)
  then show ?case by (cases f) (auto split: option.splits dest: step_field_keeps_assertions)
qed simp

theorem unknown_step_keys_ignored:
  "dec_struct step_field (JObj fs) st =
     dec_struct step_field (JObj (filter (\<lambda>f. fold_name (field_key f) \<in> step_keys) fs)) st"
  by (simp add: dec_struct_def dec_fields_known step_field_unknown)

end
