(* ===== verification/Unchecked.thy ===== *)
theory Unchecked
  imports HttpRunner GrpcRunner Loading
begin

text \<open>
  What a suite file has to contain for a server to be tested at all: the keys that the schema does not
  know are dropped while loading, and a test without assertions can only fail because a request could
  not be made. Both runners get the latter from one law on the messages of their failures.
\<close>

subsection \<open>A law on messages carries over from the steps to the test\<close>

definition messages_in :: "('m \<Rightarrow> bool) \<Rightarrow> 'm outcome \<Rightarrow> bool" where
  "messages_in Q out \<longleftrightarrow> (\<forall>f \<in> set (snd out). Q (f_Message f))"

fun goroutine_in :: "('m \<Rightarrow> bool) \<Rightarrow> ('req, 'm) goroutine \<Rightarrow> bool" where
  "goroutine_in Q (Computed out) = messages_in Q out"
| "goroutine_in Q (Done out) = messages_in Q out"
| "goroutine_in Q g = True"

locale message_law = scheduler R collect for R :: "('req, 'm, 'w) runner" and collect +
  fixes P :: "Step \<Rightarrow> bool" and Q :: "'m \<Rightarrow> bool"
  assumes begin_in: "P st \<Longrightarrow> r_begin R st m w = (Inl out, w') \<Longrightarrow> messages_in Q out"
    and send_in: "P st \<Longrightarrow> r_send R st req w = (Inl out, w') \<Longrightarrow> messages_in Q out"
    and check_in: "P st \<Longrightarrow> f \<in> set (r_check R st sr m) \<Longrightarrow> Q (f_Message f)"
begin

lemma execute_in: "P st \<Longrightarrow> executeStep R st m w = (out, w') \<Longrightarrow> messages_in Q out"
  by (auto simp: executeStep_def dest: begin_in send_in check_in split: prod.splits sum.splits)
    (auto simp: messages_in_def dest: check_in)

lemma move_in: "P st \<Longrightarrow> goroutine_in Q g \<Longrightarrow> goroutine_in Q (fst (goroutine_move R st g m w))"
  by (cases "(R, st, g, m, w)" rule: goroutine_move.cases)
    (auto dest: begin_in send_in simp: messages_in_def check_in split: prod.splits sum.splits)

lemma reachable_in:
  "reachable R grp m w s \<Longrightarrow> \<forall>st \<in> set grp. P st \<Longrightarrow> length (fst s) = length grp \<and> list_all (goroutine_in Q) (fst s)"
proof (induction rule: reachable.induct)
  case (r_move s j)
  obtain gs m1 w1 where s: "s = (gs, m1, w1)" by (cases s)
  have "goroutine_in Q (fst (goroutine_move R (grp ! j) (gs ! j) m1 w1))"
    using r_move by (intro move_in) (auto simp: s list_all_length)
  with r_move show ?case
    by (auto simp: s group_move_def list_all_length nth_list_update split: prod.splits)
qed (simp add: list_all_length)

lemma runGroup_in:
  assumes "runGroup R grp sched m w = (outs, m', w')" "\<forall>st \<in> set grp. P st"
  shows "\<forall>out \<in> set outs. messages_in Q out"
proof -
  have outs: "list_all (messages_in Q) (List.map_filter done_outcome gs)" if "list_all (goroutine_in Q) gs"
    for gs :: "('req, 'm) goroutine list"
    using that
  proof (induction gs)
    case (Cons g gs)
    then show ?case by (cases g) (simp_all add: List.map_filter_simps)
  qed (simp add: List.map_filter_simps)
  have "reachable R grp m w (run_schedule R grp (sched @ drain (length grp)) (replicate (length grp) Ready, m, w))"
    by (intro run_schedule_reachable r_start)
  from outs [OF conjunct2 [OF reachable_in [OF this assms(2)]]] assms(1) show ?thesis
    by (auto simp: runGroup_def list_all_iff split: prod.splits)
qed

lemma steps_loop_in:
  "steps_loop R collect sched members executed steps m w = (rs, fs, m', w') \<Longrightarrow> \<forall>st \<in> set steps. P st \<Longrightarrow>
   \<forall>f \<in> set fs. Q (f_Message f)"
proof (induction steps arbitrary: executed m w rs fs m' w')
  case (Cons st rest)
  let ?g = "collect (st # rest) (st_ID st) members"
  consider (skip) "st_ID st \<in> executed"
    | (grp) "st_ID st \<notin> executed" "st_ID st \<in> members \<and> 1 < length ?g"
    | (seq) "st_ID st \<notin> executed" "\<not> (st_ID st \<in> members \<and> 1 < length ?g)" by blast
  then show ?case
  proof cases
    case skip
    then show ?thesis using Cons by simp
  next
    case grp
    then obtain outs m1 w1 rs' fs' where g: "runGroup R ?g (sched (length rest)) m w = (outs, m1, w1)" and
      l: "steps_loop R collect sched members (executed \<union> st_ID ` set ?g) rest m1 w1 = (rs', fs', m', w')" and
      "fs = concat (map snd outs) @ fs'"
      using Cons.prems by (auto simp: Let_def split: prod.splits)
    moreover have "\<forall>st \<in> set ?g. P st" using Cons.prems(2) collect_subset by blast
    ultimately show ?thesis using Cons.IH [OF l] Cons.prems(2) runGroup_in [OF g] by (auto simp: messages_in_def)
  next
    case seq
    then obtain sr fs0 w1 rs' fs' where e: "executeStep R st m w = ((sr, fs0), w1)" and
      l: "steps_loop R collect sched members (insert (st_ID st) executed) rest (m(st_ID st \<mapsto> sr)) w1 = (rs', fs', m', w')"
      and "fs = fs0 @ fs'"
      using Cons.prems by (auto simp: Let_def split: prod.splits)
    with Cons.IH [OF l] Cons.prems(2) execute_in [OF _ e] show ?thesis by (auto simp: messages_in_def)
  qed
qed simp

lemma setup_loop_in:
  "setup_loop R steps m w = (Some (sid, msg), m', w') \<Longrightarrow> \<forall>st \<in> set steps. P st \<Longrightarrow> Q msg"
proof (induction steps arbitrary: m w)
  case (Cons st rest)
  obtain sr fs w1 where e: "executeStep R st m w = ((sr, fs), w1)" by (metis prod.exhaust)
  show ?case
  proof (cases fs)
    case Nil
    with Cons e show ?thesis by (auto simp: Let_def)
  next
    case (Cons f fs')
    then show ?thesis using Cons.prems execute_in [OF _ e] by (auto simp: e Let_def messages_in_def)
  qed
qed simp

lemma runTest_in:
  assumes "\<forall>st \<in> set (option_list (tc_Setup tc)) \<union> set (tc_Steps tc). P st" "\<And>msg. Q msg \<Longrightarrow> Q (setup_msg msg)"
  shows "\<forall>f \<in> set (tr_Failures (fst (runTest R collect sched setup_msg elapsed tc w))). Q (f_Message f)"
proof -
  obtain r m1 w1 where s: "setup_loop R (option_list (tc_Setup tc)) Map.empty w = (r, m1, w1)" by (metis prod.exhaust)
  show ?thesis
  proof (cases r)
    case None
    obtain rs fs m2 w2 where e: "executeStepsWithParallel R collect sched (tc_Steps tc) m1 w1 = (rs, fs, m2, w2)"
      by (metis prod_cases4)
    with assms(1) show ?thesis
      using steps_loop_in [OF e [unfolded executeStepsWithParallel_def]]
      by (simp add: runTest_def s None e split: prod.splits)
  next
    case (Some x)
    obtain sid msg where x: "x = (sid, msg)" by (cases x)
    have "Q msg" using setup_loop_in [OF s [unfolded Some x]] assms(1) by simp
    then show ?thesis using assms(2) by (simp add: runTest_def s Some x failure_def)
  qed
qed

end

subsection \<open>Steps without assertions\<close>

definition no_assertions :: "Step \<Rightarrow> bool" where
  "no_assertions st \<longleftrightarrow> st_Assertions st = None"

text \<open>The messages of failures to make a request, or to read its answer.\<close>

fun transport :: "'c fmsg \<Rightarrow> bool" where
  "transport (MCreateRequest e) = True"
| "transport (MRequest e) = True"
| "transport (MReadBody e) = True"
| "transport (MNoMethod a p) = True"
| "transport (MSetup m) = transport m"
| "transport _ = False"

interpretation http_silent: message_law "http_runner env cfg ops baseURL" http_collectParallelGroup no_assertions transport
  for env :: go_env and cfg :: TimingConfig and ops :: "'w http_ops" and baseURL :: string
  by unfold_locales
    (auto simp: http_runner_def http_begin_def http_send_def http_check_def messages_in_def no_assertions_def failure_def Let_def
      split: if_splits option.splits prod.splits sum.splits)

interpretation grpc_silent: message_law "grpc_runner env cfg ops" grpc_collectParallelGroup no_assertions transport
  for env :: go_env and cfg :: TimingConfig and ops :: "'w grpc_ops"
  by unfold_locales
    (auto simp: grpc_runner_def grpc_begin_def grpc_send_def grpc_check_def messages_in_def no_assertions_def failure_def Let_def
      split: if_splits option.splits prod.splits sum.splits)

subsection \<open>Properties\<close>

text \<open>C27. In both runners, every failure of a test whose steps carry no assertions tells that a request
  could not be made or its answer not be read, for every interleaving of its parallel groups.\<close>

theorem tests_without_assertions_fail_in_transport_only:
  assumes "\<forall>st \<in> set (option_list (tc_Setup tc)) \<union> set (tc_Steps tc). no_assertions st"
  shows "(\<forall>f \<in> set (tr_Failures (fst (http_runTest env cfg ops baseURL sched elapsed tc w))). transport (f_Message f))
    \<and> (\<forall>f \<in> set (tr_Failures (fst (grpc_runTest env cfg gops sched gelapsed tc v))). transport (f_Message f))"
  unfolding http_runTest_def grpc_runTest_def
  by (intro conjI http_silent.runTest_in [OF assms] grpc_silent.runTest_in [OF assms]) simp_all

text \<open>A step in the form of the suite for durable execution: its expectation stands under a key of its own.\<close>

definition expect_suite :: string where
  \<open>expect_suite = ''{"test_id":"X","steps":[{"id":"a","action":"GET","path":"/","expect":{"status":200}}]}''\<close>

definition expect_case :: TestCase where
  "expect_case = zero_case\<lparr>tc_TestID := ''X'',
     tc_Steps := [zero_step\<lparr>st_ID := ''a'', st_Action := ''GET'', st_Path := ''/''\<rparr>]\<rparr>"

lemma decode_expect_suite: "decode_case expect_suite = Some expect_case"
  by code_simp

theorem tests_without_assertions_fail_in_transport_only_witness:
  "case decode_case expect_suite of None \<Rightarrow> False | Some tc \<Rightarrow>
     \<forall>f \<in> set (tr_Failures (fst (http_runTest sample_env DefaultTimingConfig down_ops ''http://h'' (\<lambda>_. []) (\<lambda>w. 0) tc 0))).
       transport (f_Message f)"
proof -
  have "\<forall>st \<in> set (option_list (tc_Setup expect_case)) \<union> set (tc_Steps expect_case). no_assertions st"
    by (simp add: expect_case_def zero_case_def option_list_def zero_step_def no_assertions_def)
  note silent = conjunct1 [OF tests_without_assertions_fail_in_transport_only [OF this]]
  show ?thesis unfolding decode_expect_suite option.case by (rule silent)
qed

text \<open>A status written as an array, which one suite has, is no format that the runners know.\<close>

theorem status_array_never_accepted:
  assumes "as_Status a = Some (Raw t (JArr es))"
  shows "http_evaluateAssertions env cfg sid a sr m \<noteq> [] \<and> grpc_evaluateAssertions env cfg sid a sr m \<noteq> []"
  using assms
  by (simp add: http_evaluateAssertions_def grpc_evaluateAssertions_def checkStatus_def
      evaluateStatusAssertion_def grpc_checkStatus_def grpc_evaluateStatusAssertion_def)

end
