(* ===== verification/Output.thy ===== *)
theory Output
  imports Report
begin

text \<open>
  Printing a report: \<open>outputTable\<close> of runner/http/runner.go and runner/grpc/runner.go, which differ in
  the title, \<open>outputJSON\<close>, and \<open>prettyJSON\<close>. The text of a failure's message, which the model keeps
  as data, is an argument, \<open>msg_text\<close>.
\<close>

subsection \<open>The verbs of fmt with a width\<close>

text \<open>A width counts runes; an invalid byte counts as one.\<close>

function rune_count :: "string \<Rightarrow> nat" where
  "rune_count [] = 0"
| "rune_count (c # cs) = Suc (rune_count (drop (utf8_size (c # cs) - 1) cs))"
  by pat_completeness auto
termination
  by (relation "measure length") auto

definition blanks :: "nat \<Rightarrow> string" where
  "blanks n = replicate n (CHR '' '')"

definition pad_right :: "nat \<Rightarrow> string \<Rightarrow> string" where
  "pad_right n s = s @ blanks (n - rune_count s)"

definition pad_left :: "nat \<Rightarrow> string \<Rightarrow> string" where
  "pad_left n s = blanks (n - rune_count s) @ s"

definition newline :: string where
  "newline = [ch 10]"

definition println :: "string \<Rightarrow> string" where
  "println s = s @ newline"

subsection \<open>outputTable\<close>

text \<open>\<open>name[:37]\<close> cuts bytes.\<close>

definition cut_name :: "string \<Rightarrow> string" where
  "cut_name name = (if 40 < length name then take 37 name @ ''...'' else name)"

definition status_word :: "string \<Rightarrow> string" where
  "status_word st =
     (if st = ''pass'' then ''PASS'' else if st = ''fail'' then ''FAIL'' else if st = ''skip'' then ''SKIP''
      else if st = ''error'' then ''ERR'' else st)"

definition row :: "string \<Rightarrow> string \<Rightarrow> string \<Rightarrow> string \<Rightarrow> string" where
  "row a b c d = println (''  '' @ pad_right 14 a @ '' '' @ pad_right 40 b @ '' '' @ pad_right 8 c @ '' '' @ d)"

definition failure_lines :: "('m \<Rightarrow> string) \<Rightarrow> bool \<Rightarrow> 'm Failure \<Rightarrow> string" where
  "failure_lines msg_text verbose f =
     println (''    -> ['' @ f_StepID f @ ''] '' @ msg_text (f_Message f)) @
     (if verbose \<and> f_Expected f \<noteq> []
      then println (''       Expected: '' @ f_Expected f) @ println (''       Actual:   '' @ f_Actual f) else [])"

definition result_lines :: "('m \<Rightarrow> string) \<Rightarrow> bool \<Rightarrow> 'm TestResult \<Rightarrow> string" where
  "result_lines msg_text verbose r =
     row (tr_TestID r) (cut_name (tr_Name r)) (status_word (tr_Status r)) (show_int (tr_DurationMs r) @ ''ms'') @
     (if tr_Status r = ''fail'' \<or> tr_Status r = ''error''
      then concat (map (failure_lines msg_text verbose) (tr_Failures r)) else [])"

definition level_row :: "string \<Rightarrow> string \<Rightarrow> string \<Rightarrow> string \<Rightarrow> string \<Rightarrow> string \<Rightarrow> string \<Rightarrow> string" where
  "level_row a b c d e f g =
     println (''  '' @ pad_right 8 a @ '' '' @ pad_right 15 b @ '' '' @ pad_left 6 c @ '' '' @ pad_left 6 d @ '' '' @ pad_left 6 e
       @ '' '' @ pad_left 6 f @ '' '' @ pad_left 8 g)"

definition level_line :: "ResultsSummary \<Rightarrow> int \<Rightarrow> string" where
  "level_line s lvl =
     (case rs_ByLevel s lvl of
        None \<Rightarrow> []
      | Some ls \<Rightarrow>
          level_row (show_int lvl) (LevelName lvl) (show_int (ls_Total ls)) (show_int (ls_Passed ls)) (show_int (ls_Failed ls))
            (show_int (ls_Skipped ls)) (if ls_AllPass ls then ''PASS'' else ''FAIL''))"

definition verdict_line :: "'m SuiteReport \<Rightarrow> string" where
  "verdict_line rep =
     (let lvl = show_int (rp_ConformantLevel rep) @ '' - '' @ LevelName (rp_ConformantLevel rep) @ '')'' in
      if rp_Conformant rep then ''  Result: CONFORMANT (Level '' @ lvl
      else if 0 \<le> rp_ConformantLevel rep then ''  Result: PARTIAL CONFORMANCE (Level '' @ lvl
      else ''  Result: NOT CONFORMANT'')"

definition outputTable :: "string \<Rightarrow> ('m \<Rightarrow> string) \<Rightarrow> 'm SuiteReport \<Rightarrow> 'm TestResult list \<Rightarrow> bool \<Rightarrow> string" where
  "outputTable title msg_text rep results verbose =
     (let s = rp_Results rep; bar = ''========================================'';
          line = ''----------------------------------------''; dash = (\<lambda>n. replicate n (CHR ''-''))
      in println [] @ println bar @ println title @ println bar
       @ println (''  Target:    '' @ rp_Target rep)
       @ println (''  Suite:     v'' @ rp_TestSuiteVersion rep)
       @ println (''  Run at:    '' @ rp_RunAt rep)
       @ println (''  Duration:  '' @ show_int (rp_DurationMs rep) @ ''ms'')
       @ println line @ println []
       @ row ''TEST ID'' ''NAME'' ''STATUS'' ''DURATION'' @ row (dash 14) (dash 40) (dash 8) (dash 10)
       @ concat (map (result_lines msg_text verbose) results)
       @ println [] @ println ''  Level Summary:''
       @ level_row ''LEVEL'' ''NAME'' ''TOTAL'' ''PASS'' ''FAIL'' ''SKIP'' ''STATUS''
       @ level_row ''-----'' ''----'' ''-----'' ''----'' ''----'' ''----'' ''------''
       @ concat (map (level_line s) [0, 1, 2, 3, 4])
       @ println [] @ println (''  '' @ line)
       @ println (''  Total: '' @ show_int (rs_Total s) @ '' | Passed: '' @ show_int (rs_Passed s)
           @ '' | Failed: '' @ show_int (rs_Failed s) @ '' | Skipped: '' @ show_int (rs_Skipped s)
           @ '' | Errored: '' @ show_int (rs_Errored s))
       @ println (verdict_line rep) @ println bar @ println []
       @ (if rp_Failures rep = [] then []
          else println (''  Failed Tests ('' @ show_int (int (length (rp_Failures rep))) @ ''):'')
            @ concat (map (\<lambda>f. println (''    - '' @ tr_TestID f @ '': '' @ tr_Name f @ '' ['' @ tr_SpecRef f @ '']'')) (rp_Failures rep))
            @ println []))"

definition http_outputTable :: "('m \<Rightarrow> string) \<Rightarrow> 'm SuiteReport \<Rightarrow> 'm TestResult list \<Rightarrow> bool \<Rightarrow> string" where
  "http_outputTable = outputTable ''  OJS Conformance Test Results''"

definition grpc_outputTable :: "('m \<Rightarrow> string) \<Rightarrow> 'm SuiteReport \<Rightarrow> 'm TestResult list \<Rightarrow> bool \<Rightarrow> string" where
  "grpc_outputTable = outputTable ''  OJS gRPC Conformance Test Results''"

subsection \<open>Compact and indented JSON\<close>

text \<open>
  \<open>json.Compact\<close> with HTML escaping, as the encoder applies it to a raw message, and \<open>json.Indent\<close>.
  Both work on the text; \<open>q\<close> is set inside a string literal, \<open>e\<close> behind a backslash.
\<close>

function compact_from :: "bool \<Rightarrow> bool \<Rightarrow> string \<Rightarrow> string" where
  "compact_from q e [] = []"
| "compact_from q e (c # cs) =
     (if q then
        if e then c # compact_from True False cs
        else if byte c = 34 then c # compact_from False False cs
        else if byte c = 92 then c # compact_from True True cs
        else if hasPrefix (c # cs) [ch 0xE2, ch 0x80, ch 0xA8] then [ch 92] @ ''u2028'' @ compact_from True False (drop 2 cs)
        else if hasPrefix (c # cs) [ch 0xE2, ch 0x80, ch 0xA9] then [ch 92] @ ''u2029'' @ compact_from True False (drop 2 cs)
        else if byte c \<in> {60, 62, 38} then json_escape_byte c @ compact_from True False cs
        else c # compact_from True False cs
      else if is_ws c then compact_from False False cs
      else c # compact_from (byte c = 34) False cs)"
  by pat_completeness auto
termination
  by (relation "measure (\<lambda>(q, e, s). length s)") auto

definition indent_line :: "string \<Rightarrow> string \<Rightarrow> nat \<Rightarrow> string" where
  "indent_line prefix ind depth = newline @ prefix @ concat (replicate depth ind)"

text \<open>\<open>need\<close> is set behind an opening bracket whose line break is still due.\<close>

fun indent_from :: "string \<Rightarrow> string \<Rightarrow> bool \<Rightarrow> nat \<Rightarrow> bool \<Rightarrow> bool \<Rightarrow> string \<Rightarrow> string" where
  "indent_from prefix ind need depth q e [] = []"
| "indent_from prefix ind need depth q e (c # cs) =
     (if q then c # indent_from prefix ind need depth (e \<or> byte c \<noteq> 34) (\<not> e \<and> byte c = 92) cs
      else if is_ws c then indent_from prefix ind need depth q e cs
      else if byte c = 125 \<or> byte c = 93 then
        if need then c # indent_from prefix ind False depth False False cs
        else indent_line prefix ind (depth - 1) @ c # indent_from prefix ind False (depth - 1) False False cs
      else
        let d = (if need then depth + 1 else depth); pre = (if need then indent_line prefix ind d else []) in
        pre @
        (if byte c = 123 \<or> byte c = 91 then c # indent_from prefix ind True d False False cs
         else if byte c = 44 then c # indent_line prefix ind d @ indent_from prefix ind False d False False cs
         else if byte c = 58 then c # CHR '' '' # indent_from prefix ind False d False False cs
         else c # indent_from prefix ind False d (byte c = 34) False cs))"

text \<open>White space behind the value is kept.\<close>

definition json_indent :: "string \<Rightarrow> string \<Rightarrow> string \<Rightarrow> string" where
  "json_indent prefix ind s = indent_from prefix ind False 0 False False s @ rev (takeWhile is_ws (rev s))"

definition prettyJSON :: "string \<Rightarrow> string" where
  "prettyJSON data = (if json_parse data = None then data else json_indent ''    '' ''  '' data)"

subsection \<open>The report as a document\<close>

text \<open>
  What \<open>json.Marshal\<close> makes of a struct: its fields in the order of the declaration, a raw message
  compacted if it is valid JSON (an error otherwise) and \<open>null\<close> if it is nil.
\<close>

datatype jdoc = DRaw "string option" | DLit string | DArr "jdoc list" | DObj "(string \<times> jdoc) list"

fun encode :: "jdoc \<Rightarrow> string option" where
  "encode (DRaw None) = Some ''null''"
| "encode (DRaw (Some t)) = (if json_parse t = None then None else Some (compact_from False False t))"
| "encode (DLit t) = Some t"
| "encode (DArr ds) = map_option (\<lambda>ts. ''['' @ strJoin '','' ts @ '']'') (those (map encode ds))"
| "encode (DObj kvs) =
     map_option (\<lambda>ts. [ch 123] @ strJoin '','' ts @ [ch 125])
       (those (map (\<lambda>(k, d). map_option (\<lambda>t. json_quote k @ '':'' @ t) (encode d)) kvs))"

definition d_str :: "string \<Rightarrow> jdoc" where "d_str s = DLit (json_quote s)"
definition d_int :: "int \<Rightarrow> jdoc" where "d_int n = DLit (show_int n)"
definition d_bool :: "bool \<Rightarrow> jdoc" where "d_bool b = DLit (if b then ''true'' else ''false'')"

text \<open>Fields with \<open>omitempty\<close>.\<close>

definition opt_str :: "string \<Rightarrow> string \<Rightarrow> (string \<times> jdoc) list" where
  "opt_str k s = (if s = [] then [] else [(k, d_str s)])"

definition opt_list :: "string \<Rightarrow> ('a \<Rightarrow> jdoc) \<Rightarrow> 'a list \<Rightarrow> (string \<times> jdoc) list" where
  "opt_list k f xs = (if xs = [] then [] else [(k, DArr (map f xs))])"

definition opt_ptr :: "string \<Rightarrow> ('a \<Rightarrow> jdoc) \<Rightarrow> 'a option \<Rightarrow> (string \<times> jdoc) list" where
  "opt_ptr k f x = (case x of None \<Rightarrow> [] | Some v \<Rightarrow> [(k, f v)])"

definition opt_bool :: "string \<Rightarrow> bool \<Rightarrow> (string \<times> jdoc) list" where
  "opt_bool k b = (if b then [(k, d_bool True)] else [])"

definition failure_doc :: "('m \<Rightarrow> string) \<Rightarrow> 'm Failure \<Rightarrow> jdoc" where
  "failure_doc msg_text f =
     DObj [(''step_id'', d_str (f_StepID f)), (''field'', d_str (f_Field f)), (''expected'', d_str (f_Expected f)),
       (''actual'', d_str (f_Actual f)), (''message'', d_str (msg_text (f_Message f)))]"

definition headers_doc :: "(string \<times> string list) list option \<Rightarrow> jdoc" where
  "headers_doc hs =
     (case hs of None \<Rightarrow> DLit ''null'' | Some kvs \<Rightarrow> DObj (map (\<lambda>(k, vs). (k, DArr (map d_str vs))) (sort_fields kvs)))"

definition step_result_doc :: "StepResult \<Rightarrow> jdoc" where
  "step_result_doc sr =
     DObj [(''step_id'', d_str (sr_StepID sr)), (''status_code'', d_int (sr_StatusCode sr)),
       (''headers'', headers_doc (sr_Headers sr)), (''body'', DRaw (sr_Body sr)), (''duration_ms'', d_int (sr_DurationMs sr))]"

definition test_result_doc :: "('m \<Rightarrow> string) \<Rightarrow> 'm TestResult \<Rightarrow> jdoc" where
  "test_result_doc msg_text r =
     DObj ([(''test_id'', d_str (tr_TestID r)), (''name'', d_str (tr_Name r)), (''level'', d_int (tr_Level r)),
         (''category'', d_str (tr_Category r)), (''spec_ref'', d_str (tr_SpecRef r)), (''status'', d_str (tr_Status r)),
         (''duration_ms'', d_int (tr_DurationMs r))]
       @ opt_list ''failures'' (failure_doc msg_text) (tr_Failures r)
       @ opt_list ''step_results'' step_result_doc (tr_StepResults r)
       @ [(''file_path'', d_str (tr_FilePath r))])"

definition level_doc :: "LevelSummary \<Rightarrow> jdoc" where
  "level_doc ls =
     DObj [(''total'', d_int (ls_Total ls)), (''passed'', d_int (ls_Passed ls)), (''failed'', d_int (ls_Failed ls)),
       (''skipped'', d_int (ls_Skipped ls)), (''errored'', d_int (ls_Errored ls)), (''all_pass'', d_bool (ls_AllPass ls))]"

text \<open>
  The map by level with its keys in the order of their decimal text. The summary is a function, so the
  levels it may have are an argument.
\<close>

definition by_level_doc :: "int list \<Rightarrow> (int \<Rightarrow> LevelSummary option) \<Rightarrow> jdoc" where
  "by_level_doc levels m =
     DObj (concat (map (\<lambda>l. case m l of None \<Rightarrow> [] | Some ls \<Rightarrow> [(show_int l, level_doc ls)])
       (sort_key show_int (remdups levels))))"

definition summary_doc :: "int list \<Rightarrow> ResultsSummary \<Rightarrow> jdoc" where
  "summary_doc levels s =
     DObj [(''total'', d_int (rs_Total s)), (''passed'', d_int (rs_Passed s)), (''failed'', d_int (rs_Failed s)),
       (''skipped'', d_int (rs_Skipped s)), (''errored'', d_int (rs_Errored s)), (''by_level'', by_level_doc levels (rs_ByLevel s))]"

definition commit_doc :: "CommitInfo \<Rightarrow> jdoc" where
  "commit_doc c =
     DObj ([(''sha'', d_str (ci_SHA c))] @ opt_str ''branch'' (ci_Branch c) @ opt_str ''repo'' (ci_Repo c)
       @ opt_str ''tag'' (ci_Tag c) @ opt_bool ''dirty'' (ci_Dirty c) @ opt_str ''commit_timestamp'' (ci_CommitTS c))"

definition environment_doc :: "EnvironmentInfo \<Rightarrow> jdoc" where
  "environment_doc e =
     DObj ([(''os'', d_str (ei_OS e)), (''arch'', d_str (ei_Arch e))] @ opt_str ''go_version'' (ei_GoVersion e)
       @ opt_str ''hostname'' (ei_Hostname e) @ opt_str ''ci_provider'' (ei_CIProvider e) @ opt_str ''ci_run_url'' (ei_CIRunURL e)
       @ (if ei_Tags e = [] then [] else [(''tags'', DObj (map (\<lambda>(k, v). (k, d_str v)) (sort_fields (ei_Tags e))))]))"

definition backend_doc :: "BackendInfo \<Rightarrow> jdoc" where
  "backend_doc b =
     DObj ([(''name'', d_str (bi_Name b))] @ opt_str ''version'' (bi_Version b) @ opt_str ''url'' (bi_URL b))"

definition submitter_doc :: "SubmitterInfo \<Rightarrow> jdoc" where
  "submitter_doc s =
     DObj (opt_str ''org'' (si_Org s) @ opt_str ''contact'' (si_Contact s) @ opt_str ''key_id'' (si_KeyID s)
       @ opt_bool ''anonymous'' (si_Anonymous s))"

definition report_doc :: "('m \<Rightarrow> string) \<Rightarrow> int list \<Rightarrow> 'm SuiteReport \<Rightarrow> jdoc" where
  "report_doc msg_text levels rep =
     DObj ([(''test_suite_version'', d_str (rp_TestSuiteVersion rep)), (''target'', d_str (rp_Target rep)),
         (''run_at'', d_str (rp_RunAt rep)), (''duration_ms'', d_int (rp_DurationMs rep)),
         (''requested_level'', d_int (rp_RequestedLevel rep)), (''results'', summary_doc levels (rp_Results rep)),
         (''conformant'', d_bool (rp_Conformant rep)), (''conformant_level'', d_int (rp_ConformantLevel rep))]
       @ opt_list ''failures'' (test_result_doc msg_text) (rp_Failures rep)
       @ opt_list ''skipped'' (test_result_doc msg_text) (rp_Skipped rep)
       @ opt_str ''report_schema_version'' (rp_ReportSchemaVersion rep) @ opt_ptr ''commit'' commit_doc (rp_Commit rep)
       @ opt_ptr ''environment'' environment_doc (rp_Environment rep) @ opt_ptr ''backend'' backend_doc (rp_Backend rep)
       @ opt_ptr ''submitter'' submitter_doc (rp_Submitter rep))"

text \<open>\<open>outputJSON\<close>: the error of the encoder is dropped, and with it the output.\<close>

definition outputJSON :: "('m \<Rightarrow> string) \<Rightarrow> int list \<Rightarrow> 'm SuiteReport \<Rightarrow> string" where
  "outputJSON msg_text levels rep =
     (case encode (report_doc msg_text levels rep) of None \<Rightarrow> [] | Some t \<Rightarrow> json_indent [] ''  '' t @ newline)"

subsection \<open>What indentation changes\<close>

text \<open>The text without the white space outside of string literals.\<close>

fun squeeze :: "bool \<Rightarrow> bool \<Rightarrow> string \<Rightarrow> string" where
  "squeeze q e [] = []"
| "squeeze q e (c # cs) =
     (if q then c # squeeze (e \<or> byte c \<noteq> 34) (\<not> e \<and> byte c = 92) cs
      else if is_ws c then squeeze False False cs
      else c # squeeze (byte c = 34) False cs)"

lemma squeeze_outside: "squeeze False e s = squeeze False False s"
  by (cases s) simp_all

lemma squeeze_space: "\<forall>c \<in> set s. is_ws c \<Longrightarrow> squeeze False False (s @ t) = squeeze False False t"
  by (induction s) simp_all

lemma squeeze_indent_line:
  assumes "\<forall>c \<in> set prefix. is_ws c" "\<forall>c \<in> set ind. is_ws c"
  shows "squeeze False False (indent_line prefix ind d @ t) = squeeze False False t"
  using assms by (intro squeeze_space) (auto simp: indent_line_def newline_def is_ws_def ch_def byte_def)

lemma squeeze_indent_from:
  "\<forall>c \<in> set prefix. is_ws c \<Longrightarrow> \<forall>c \<in> set ind. is_ws c \<Longrightarrow>
   squeeze q e (indent_from prefix ind need d q e s) = squeeze q e s"
proof (induction prefix ind need d q e s rule: indent_from.induct)
  case (2 prefix ind need depth q e c cs)
  have ws: "\<forall>c \<in> set prefix. is_ws c" "\<forall>c \<in> set ind. is_ws c" using 2 by blast+
  show ?case
    using 2 squeeze_indent_line [OF ws]
    by (auto simp: Let_def squeeze_outside [of e] is_ws_def byte_def split: if_splits)
qed simp

text \<open>Whether a text ends inside a string literal.\<close>

fun open_literal :: "bool \<Rightarrow> bool \<Rightarrow> string \<Rightarrow> bool" where
  "open_literal q e [] = q"
| "open_literal q e (c # cs) =
     (if q then open_literal (e \<or> byte c \<noteq> 34) (\<not> e \<and> byte c = 92) cs
      else open_literal (byte c = 34) False cs)"

lemma squeeze_append: "\<not> open_literal q e s \<Longrightarrow> squeeze q e (s @ t) = squeeze q e s @ squeeze False False t"
proof (induction q e s rule: squeeze.induct)
  case (1 q e)
  then show ?case by (simp add: squeeze_outside [of e])
next
  case (2 q e c cs)
  then show ?case by (auto simp: is_ws_def split: if_splits)
qed

lemma open_literal_outside: "open_literal False e s = open_literal False False s"
  by (cases s) simp_all

lemma open_literal_squeeze: "open_literal q e (squeeze q e s) = open_literal q e s"
proof (induction q e s rule: squeeze.induct)
  case (2 q e c cs)
  show ?case
  proof (cases q)
    case True
    with 2(1) show ?thesis by simp
  next
    case False
    show ?thesis
    proof (cases "is_ws c")
      case True
      then have "byte c \<noteq> 34" by (auto simp: is_ws_def)
      with 2(2) [OF False True] False True show ?thesis by (simp add: open_literal_outside [of e])
    next
      case nws: False
      with 2(3) [OF False nws] False show ?thesis by simp
    qed
  qed
qed simp

text \<open>The indented text differs from the given one in white space outside of literals only.\<close>

theorem indentation_is_white_space:
  assumes "\<not> open_literal False False s" "\<forall>c \<in> set (prefix @ ind). is_ws c"
  shows "squeeze False False (json_indent prefix ind s) = squeeze False False s"
proof -
  have sq: "squeeze False False (indent_from prefix ind False 0 False False s) = squeeze False False s"
    using assms(2) by (intro squeeze_indent_from) auto
  then have "\<not> open_literal False False (indent_from prefix ind False 0 False False s)"
    using assms(1) by (metis open_literal_squeeze)
  moreover have "squeeze False False (rev (takeWhile is_ws (rev s))) = []"
    using squeeze_space [of "rev (takeWhile is_ws (rev s))" "[]"] by (auto dest: set_takeWhileD)
  ultimately show ?thesis by (simp add: json_indent_def squeeze_append sq)
qed

theorem indentation_is_white_space_witness:
  \<open>squeeze False False (json_indent [] ''  '' ''{"a b":[1, {}]}'') = ''{"a b":[1,{}]}''\<close>
  by (subst indentation_is_white_space) code_simp+

subsection \<open>When the report is printed\<close>

fun raw_bodies :: "jdoc \<Rightarrow> string list" where
  "raw_bodies (DRaw b) = (case b of None \<Rightarrow> [] | Some t \<Rightarrow> [t])"
| "raw_bodies (DLit t) = []"
| "raw_bodies (DArr ds) = concat (map raw_bodies ds)"
| "raw_bodies (DObj kvs) = concat (map (\<lambda>(k, d). raw_bodies d) kvs)"

lemma those_map_None: "those (map f xs) = None \<longleftrightarrow> (\<exists>x \<in> set xs. f x = None)"
  by (induction xs) (auto split: option.splits)

lemma encode_None: "encode d = None \<longleftrightarrow> (\<exists>t \<in> set (raw_bodies d). json_parse t = None)"
proof (induction d rule: raw_bodies.induct)
  case (1 b)
  show ?case by (cases b) auto
next
  case (3 ds)
  then show ?case by (auto simp: those_map_None)
next
  case (4 kvs)
  then show ?case by (force simp: those_map_None)
qed simp

lemma raw_bodies_simps [simp]:
  "raw_bodies (d_str s) = []" "raw_bodies (d_int n) = []" "raw_bodies (d_bool b) = []"
  "raw_bodies (failure_doc msg f) = []" "raw_bodies (level_doc ls) = []"
  by (simp_all add: d_str_def d_int_def d_bool_def failure_doc_def level_doc_def)

lemma raw_bodies_parts [simp]:
  "\<Union> (set ` (\<lambda>(k, d). raw_bodies d) ` set (opt_str k s)) = {}"
  "\<Union> (set ` (\<lambda>(k, d). raw_bodies d) ` set (opt_bool k b)) = {}"
  by (simp_all add: opt_str_def opt_bool_def)

lemma raw_bodies_provenance:
  "set (raw_bodies (commit_doc c)) = {}" "set (raw_bodies (environment_doc e)) = {}"
  "set (raw_bodies (backend_doc b)) = {}" "set (raw_bodies (submitter_doc s)) = {}"
  "set (raw_bodies (headers_doc hs)) = {}" "set (raw_bodies (summary_doc levels su)) = {}"
  by (auto simp: commit_doc_def environment_doc_def backend_doc_def submitter_doc_def headers_doc_def summary_doc_def
      by_level_doc_def opt_str_def opt_bool_def split: option.splits if_splits)

lemmas raw_bodies_none [simp] = raw_bodies_provenance [unfolded set_empty]

definition bodies :: "'m TestResult \<Rightarrow> string set" where
  "bodies r = {t. \<exists>sr \<in> set (tr_StepResults r). sr_Body sr = Some t}"

lemma raw_bodies_step: "set (raw_bodies (step_result_doc sr)) = (case sr_Body sr of None \<Rightarrow> {} | Some t \<Rightarrow> {t})"
  by (simp add: step_result_doc_def split: option.split)

lemma raw_bodies_result: "set (raw_bodies (test_result_doc msg r)) = bodies r"
  by (auto simp: test_result_doc_def opt_list_def bodies_def raw_bodies_step split: option.splits)

lemma raw_bodies_report:
  "set (raw_bodies (report_doc msg levels rep)) = \<Union> (bodies ` set (rp_Failures rep @ rp_Skipped rep))"
  by (auto simp: report_doc_def opt_list_def opt_ptr_def opt_str_def raw_bodies_result split: option.splits)


subsection \<open>The table\<close>

definition ascii :: "string \<Rightarrow> bool" where
  "ascii s \<longleftrightarrow> list_all (\<lambda>c. byte c < 128) s"

lemma rune_count_ascii: "ascii s \<Longrightarrow> rune_count s = length s"
  by (induction s) (auto simp: ascii_def Let_def)

lemma cut_name_length: "length (cut_name name) \<le> 40"
  by (simp add: cut_name_def)

lemma cut_name_ascii: "ascii name \<Longrightarrow> ascii (cut_name name)"
  by (auto simp: cut_name_def ascii_def list_all_iff byte_def dest: in_set_takeD)

lemma pad_right_length: "ascii s \<Longrightarrow> length s \<le> n \<Longrightarrow> length (pad_right n s) = n"
  by (simp add: pad_right_def blanks_def rune_count_ascii)

theorem status_column:
  assumes "ascii (tr_TestID r)" "length (tr_TestID r) \<le> 14" "ascii (tr_Name r)"
  shows "take 58 (result_lines msg_text verbose r) =
       ''  '' @ pad_right 14 (tr_TestID r) @ '' '' @ pad_right 40 (cut_name (tr_Name r)) @ '' ''
    \<and> hasPrefix (drop 58 (result_lines msg_text verbose r)) (status_word (tr_Status r))"
proof -
  let ?h = "''  '' @ pad_right 14 (tr_TestID r) @ '' '' @ pad_right 40 (cut_name (tr_Name r)) @ '' ''"
  have "length ?h = 58"
    using assms by (simp add: pad_right_length cut_name_ascii cut_name_length)
  moreover obtain rest where "result_lines msg_text verbose r = ?h @ status_word (tr_Status r) @ rest"
    by (simp add: result_lines_def row_def println_def pad_right_def [of 8])
  ultimately show ?thesis by (simp del: append_assoc)
qed

theorem status_column_witness:
  "hasPrefix (drop 58 (result_lines (\<lambda>_. []) True (level_result 0 ''fail''))) ''FAIL''"
  using status_column [of "level_result 0 ''fail''" "\<lambda>_. []" True]
  by (simp add: level_result_def ascii_def status_word_def byte_def)

text \<open>A run of extension tests only, which have the level 99, is conformant without a level.\<close>

theorem conformant_at_no_level:
  "verdict_line (http_buildReport pv [level_result 99 ''pass''] target lvl d) =
     ''  Result: CONFORMANT (Level -1 - Unknown)''"
proof -
  have "rp_Conformant (http_buildReport pv [level_result 99 ''pass''] target lvl d)"
    using http_report_counts [of pv "[level_result 99 ''pass'']" target lvl d] by (simp add: Let_def level_result_def)
  moreover have "rp_ConformantLevel (http_buildReport pv [level_result 99 ''pass''] target lvl d) = - 1"
    by (simp add: http_conformant_level present_def level_result_def)
  moreover have "show_int (- 1) = ''-1''" by (simp add: go_strings)
  ultimately show ?thesis by (simp add: verdict_line_def LevelName_def)
qed

end
