(* ===== verification/Programs.thy ===== *)
theory Programs
  imports Unchecked Output Go_Flag
begin

text \<open>
  The two runner programs from the parsed command line to the exit code: \<open>main\<close> of
  runner/http/runner.go and of runner/grpc/main.go. \<open>http_main\<close> and \<open>grpc_main\<close> get the values of
  the flags, \<open>http_program\<close> and \<open>grpc_program\<close> the command line. What a program asks of its surroundings is a
  record of functions on the world \<open>'w\<close>; \<open>None\<close> as a result is a panic.
\<close>

subsection \<open>Options\<close>

record options =
  op_URL :: string
  op_Suites :: string
  op_Level :: int
  op_Category :: string
  op_Test :: string
  op_Output :: string
  op_Verbose :: bool
  op_Tolerance :: f64
  op_TimeoutSec :: int
  op_Redis :: string
  op_ReportFile :: string

record http_options = options +
  op_ResetURL :: string

record grpc_options = options +
  op_TLS :: bool
  op_Insecure :: bool

definition http_defaults :: http_options where
  "http_defaults =
     \<lparr>op_URL = [], op_Suites = ''./suites'', op_Level = - 1, op_Category = [], op_Test = [], op_Output = ''table'',
      op_Verbose = False, op_Tolerance = Fin 50, op_TimeoutSec = 30, op_Redis = [], op_ReportFile = [],
      op_ResetURL = []\<rparr>"

definition grpc_defaults :: grpc_options where
  "grpc_defaults =
     \<lparr>op_URL = [], op_Suites = ''./suites'', op_Level = - 1, op_Category = [], op_Test = [], op_Output = ''table'',
      op_Verbose = False, op_Tolerance = Fin 50, op_TimeoutSec = 30, op_Redis = [], op_ReportFile = [],
      op_TLS = False, op_Insecure = False\<rparr>"

subsection \<open>The surroundings\<close>

text \<open>
  \<open>h_redis\<close> parses the URL and pings the server, \<open>h_write\<close> is \<open>lib.WriteReportFile\<close>, which the
  repository does not contain, with its error; the clock counts nanoseconds.
\<close>

datatype redis_open = RedisReady | RedisBadURL | RedisDown

record ('m, 'w) host =
  h_getenv :: "string \<Rightarrow> string"
  h_tree :: "string \<Rightarrow> 'w \<Rightarrow> fs_node"
  h_sort :: "TestCase list \<Rightarrow> TestCase list"
  h_now :: "'w \<Rightarrow> int"
  h_redis :: "string \<Rightarrow> 'w \<Rightarrow> redis_open \<times> 'w"
  h_flush :: "'w \<Rightarrow> 'w"
  h_provenance :: "'w \<Rightarrow> provenance"
  h_write :: "string \<Rightarrow> 'm SuiteReport \<Rightarrow> 'w \<Rightarrow> string option \<times> 'w"
  h_text :: "'m \<Rightarrow> string"

datatype notice =
    LoadFailed load_err
  | NoTestsMatch
  | RedisURLInvalid
  | RedisUnreachable
  | ConnectFailed string string
  | ReportNotWritten string
  | ReportWritten string
  | FlagsRejected flag_err

record 'w exit =
  ex_Code :: int
  ex_Stdout :: string
  ex_Stderr :: "notice list"
  ex_World :: 'w

definition give_up :: "notice \<Rightarrow> 'w \<Rightarrow> 'w exit" where
  "give_up n w = \<lparr>ex_Code = 2, ex_Stdout = [], ex_Stderr = [n], ex_World = w\<rparr>"

text \<open>The flag, the environment variable, the default.\<close>

definition resolve_url :: "('m, 'w) host \<Rightarrow> string \<Rightarrow> string \<Rightarrow> string" where
  "resolve_url h flag dflt =
     (let u = (if flag = [] then h_getenv h ''OJS_TEST_URL'' else flag) in if u = [] then dflt else u)"

definition timing_config :: "('x) options_scheme \<Rightarrow> TimingConfig" where
  "timing_config op = \<lparr>TolerancePct = op_Tolerance op, MinToleranceMs = Fin 100, MaxWaitMs = 30000\<rparr>"

subsection \<open>Loading, running, reporting\<close>

text \<open>The tests to run, or why the program ends.\<close>

definition select_from ::
    "((TestCase list \<Rightarrow> TestCase list) \<Rightarrow> string \<Rightarrow> fs_node \<Rightarrow> load_err option \<times> TestCase list)
       \<Rightarrow> (TestCase list \<Rightarrow> int \<Rightarrow> string \<Rightarrow> string \<Rightarrow> TestCase list)
       \<Rightarrow> ('m, 'w) host \<Rightarrow> ('x) options_scheme \<Rightarrow> 'w \<Rightarrow> notice + TestCase list" where
  "select_from load filt h op w =
     (case load (h_sort h) (op_Suites op) (h_tree h (op_Suites op) w) of
        (Some err, _) \<Rightarrow> Inl (LoadFailed err)
      | (None, all) \<Rightarrow>
          (let tests = filt all (op_Level op) (op_Category op) (op_Test op)
           in if tests = [] then Inl NoTestsMatch else Inr tests))"

definition select_tests :: "('m, 'w) host \<Rightarrow> ('x) options_scheme \<Rightarrow> 'w \<Rightarrow> notice + TestCase list" where
  "select_tests h op w = select_from loadTests filterTests h op w"

definition grpc_select_tests :: "('m, 'w) host \<Rightarrow> ('x) options_scheme \<Rightarrow> 'w \<Rightarrow> notice + TestCase list" where
  "grpc_select_tests h op w = select_from grpc_loadTests grpc_filterTests h op w"

text \<open>The optional Redis client: whether there is one.\<close>

definition open_redis :: "('m, 'w) host \<Rightarrow> string \<Rightarrow> 'w \<Rightarrow> (notice + bool) \<times> 'w" where
  "open_redis h url w =
     (if url = [] then (Inr False, w)
      else case h_redis h url w of
        (RedisReady, w1) \<Rightarrow> (Inr True, w1)
      | (RedisBadURL, w1) \<Rightarrow> (Inl RedisURLInvalid, w1)
      | (RedisDown, w1) \<Rightarrow> (Inl RedisUnreachable, w1))"

text \<open>Before each test the state of the server is reset; the reset may panic.\<close>

fun run_tests :: "('w \<Rightarrow> 'w option) \<Rightarrow> (TestCase \<Rightarrow> 'w \<Rightarrow> 'm TestResult \<times> 'w) \<Rightarrow> TestCase list \<Rightarrow> 'w
    \<Rightarrow> ('m TestResult list \<times> 'w) option" where
  "run_tests reset run [] w = Some ([], w)"
| "run_tests reset run (tc # tcs) w =
     (case reset w of
        None \<Rightarrow> None
      | Some w1 \<Rightarrow>
          (let (r, w2) = run tc w1 in
           case run_tests reset run tcs w2 of
             None \<Rightarrow> None
           | Some (rs, w3) \<Rightarrow> Some (r # rs, w3)))"

text \<open>
  Without looking at the error of \<open>http.NewRequest\<close> its request is sent: a reset URL that does not
  parse leaves it nil, which the client dereferences.
\<close>

definition http_reset :: "'w http_ops \<Rightarrow> string \<Rightarrow> 'w \<Rightarrow> 'w option" where
  "http_reset ops url w =
     (if url = [] then Some w
      else case http_new ops ''POST'' url of
        Some err \<Rightarrow> None
      | None \<Rightarrow> Some (snd (snd (http_do ops \<lparr>rq_Method = ''POST'', rq_URL = url, rq_Header = [], rq_Body = None\<rparr> w))))"

text \<open>The report file, the output and the exit code.\<close>

definition finish ::
    "('m, 'w) host \<Rightarrow> ('x) options_scheme \<Rightarrow> (('m \<Rightarrow> string) \<Rightarrow> 'm SuiteReport \<Rightarrow> 'm TestResult list \<Rightarrow> bool \<Rightarrow> string)
       \<Rightarrow> 'm SuiteReport \<Rightarrow> 'm TestResult list \<Rightarrow> 'w \<Rightarrow> 'w exit" where
  "finish h op table rep results w =
     (case (if op_ReportFile op = [] then (None, w) else h_write h (op_ReportFile op) rep w) of
        (Some err, w1) \<Rightarrow> give_up (ReportNotWritten err) w1
      | (None, w1) \<Rightarrow>
          \<lparr>ex_Code = (if rp_Conformant rep then 0 else 1),
           ex_Stdout = (if op_Output op = ''json'' then outputJSON (h_text h) (map tr_Level results) rep
                        else table (h_text h) rep results (op_Verbose op)),
           ex_Stderr = (if op_ReportFile op = [] then [] else [ReportWritten (op_ReportFile op)]),
           ex_World = w1\<rparr>)"

subsection \<open>The HTTP program\<close>

text \<open>\<open>client\<close> gives the HTTP client for a timeout, \<open>sched\<close> the interleavings within a test.\<close>

definition http_run_one ::
    "go_env \<Rightarrow> (TestCase \<Rightarrow> nat \<Rightarrow> nat list) \<Rightarrow> (unit fmsg, 'w) host \<Rightarrow> http_options \<Rightarrow> 'w http_ops \<Rightarrow> string
       \<Rightarrow> TestCase \<Rightarrow> 'w \<Rightarrow> unit fmsg TestResult \<times> 'w" where
  "http_run_one env sched h op ops baseURL tc w =
     http_runTest env (timing_config op) ops baseURL (sched tc) (\<lambda>w1. h_now h w1 - h_now h w) tc w"

definition http_base :: "(unit fmsg, 'w) host \<Rightarrow> http_options \<Rightarrow> string" where
  "http_base h op = trimRightSet (resolve_url h (op_URL op) ''http://localhost:8080'') ''/''"

text \<open>Why the program gives up, or the time of the start, the results and the world after the last test.\<close>

definition http_session ::
    "go_env \<Rightarrow> (int \<Rightarrow> 'w http_ops) \<Rightarrow> (TestCase \<Rightarrow> nat \<Rightarrow> nat list) \<Rightarrow> (unit fmsg, 'w) host \<Rightarrow> http_options \<Rightarrow> 'w
       \<Rightarrow> (notice \<times> 'w + int \<times> unit fmsg TestResult list \<times> 'w) option" where
  "http_session env client sched h op w =
     (case select_tests h op w of
        Inl n \<Rightarrow> Some (Inl (n, w))
      | Inr tests \<Rightarrow>
          (let ops = client (wrap64 (op_TimeoutSec op * 10 ^ 9)) in
           case open_redis h (op_Redis op) w of
             (Inl n, w1) \<Rightarrow> Some (Inl (n, w1))
           | (Inr redis, w1) \<Rightarrow>
               map_option (\<lambda>(results, w2). Inr (h_now h w1, results, w2))
                 (run_tests (\<lambda>w. http_reset ops (op_ResetURL op) (if redis then h_flush h w else w))
                    (http_run_one env sched h op ops (http_base h op)) tests w1)))"

definition http_main ::
    "go_env \<Rightarrow> (int \<Rightarrow> 'w http_ops) \<Rightarrow> (TestCase \<Rightarrow> nat \<Rightarrow> nat list) \<Rightarrow> (unit fmsg, 'w) host \<Rightarrow> http_options \<Rightarrow> 'w
       \<Rightarrow> 'w exit option" where
  "http_main env client sched h op w =
     (case http_session env client sched h op w of
        None \<Rightarrow> None
      | Some (Inl (n, w1)) \<Rightarrow> Some (give_up n w1)
      | Some (Inr (start, results, w2)) \<Rightarrow>
          (let rep = http_buildReport (h_provenance h w2) results (http_base h op) (op_Level op) (h_now h w2 - start)
           in Some (finish h op http_outputTable rep results w2)))"

subsection \<open>The gRPC program\<close>

datatype credentials = TLSUnverified | TLSVerified | Plaintext

definition dial_credentials :: "bool \<Rightarrow> bool \<Rightarrow> credentials" where
  "dial_credentials tls insecure = (if tls \<and> insecure then TLSUnverified else if tls then TLSVerified else Plaintext)"

text \<open>\<open>dial\<close> is \<open>grpc.DialContext\<close> on the credentials and the address: an error, or the client for a timeout.\<close>

type_synonym 'w dialer = "credentials \<Rightarrow> string \<Rightarrow> 'w \<Rightarrow> (string + (int \<Rightarrow> 'w grpc_ops)) \<times> 'w"

definition NewOJSClient :: "'w dialer \<Rightarrow> string \<Rightarrow> bool \<Rightarrow> bool \<Rightarrow> 'w \<Rightarrow> (string + (int \<Rightarrow> 'w grpc_ops)) \<times> 'w" where
  "NewOJSClient dial addr tls insecure w = dial (dial_credentials tls insecure) addr w"

definition grpc_run_one ::
    "go_env \<Rightarrow> (TestCase \<Rightarrow> nat \<Rightarrow> nat list) \<Rightarrow> (grpc_msg, 'w) host \<Rightarrow> grpc_options \<Rightarrow> 'w grpc_ops
       \<Rightarrow> TestCase \<Rightarrow> 'w \<Rightarrow> grpc_msg TestResult \<times> 'w" where
  "grpc_run_one env sched h op ops tc w =
     grpc_runTest env (timing_config op) ops (sched tc) (\<lambda>w1. h_now h w1 - h_now h w) tc w"

definition grpc_addr :: "(grpc_msg, 'w) host \<Rightarrow> grpc_options \<Rightarrow> string" where
  "grpc_addr h op = resolve_url h (op_URL op) ''localhost:9090''"

definition grpc_session ::
    "go_env \<Rightarrow> 'w dialer \<Rightarrow> (TestCase \<Rightarrow> nat \<Rightarrow> nat list) \<Rightarrow> (grpc_msg, 'w) host \<Rightarrow> grpc_options \<Rightarrow> 'w
       \<Rightarrow> (notice \<times> 'w + int \<times> grpc_msg TestResult list \<times> 'w) option" where
  "grpc_session env dial sched h op w0 =
     (case NewOJSClient dial (grpc_addr h op) (op_TLS op) (op_Insecure op) w0 of
        (Inl err, w) \<Rightarrow> Some (Inl (ConnectFailed (grpc_addr h op) err, w))
      | (Inr client, w) \<Rightarrow>
          (case grpc_select_tests h op w of
             Inl n \<Rightarrow> Some (Inl (n, w))
           | Inr tests \<Rightarrow>
               (let ops = client (wrap64 (op_TimeoutSec op * 10 ^ 9)) in
                case open_redis h (op_Redis op) w of
                  (Inl n, w1) \<Rightarrow> Some (Inl (n, w1))
                | (Inr redis, w1) \<Rightarrow>
                    map_option (\<lambda>(results, w2). Inr (h_now h w1, results, w2))
                      (run_tests (\<lambda>w. Some (if redis then h_flush h w else w)) (grpc_run_one env sched h op ops) tests w1))))"

definition grpc_main ::
    "go_env \<Rightarrow> 'w dialer \<Rightarrow> (TestCase \<Rightarrow> nat \<Rightarrow> nat list) \<Rightarrow> (grpc_msg, 'w) host \<Rightarrow> grpc_options \<Rightarrow> 'w
       \<Rightarrow> 'w exit option" where
  "grpc_main env dial sched h op w =
     (case grpc_session env dial sched h op w of
        None \<Rightarrow> None
      | Some (Inl (n, w1)) \<Rightarrow> Some (give_up n w1)
      | Some (Inr (start, results, w2)) \<Rightarrow>
          (let rep = grpc_buildReport (h_provenance h w2) results (''grpc://'' @ grpc_addr h op) (op_Level op) (h_now h w2 - start)
           in Some (finish h op grpc_outputTable rep results w2)))"

subsection \<open>The command lines\<close>

text \<open>
  \<open>pf\<close> is \<open>strconv.ParseFloat\<close>, which reads more forms than a JSON number. \<open>flag.Parse\<close> ends the program
  at the first error, with 0 when help was asked for and with 2 otherwise; arguments behind the
  flags are ignored.
\<close>

definition common_flags :: "(string \<Rightarrow> f64 option) \<Rightarrow> ('x) options_scheme flag_set" where
  "common_flags pf =
     [(''url'', string_flag (\<lambda>v. op_URL_update (\<lambda>_. v))),
      (''suites'', string_flag (\<lambda>v. op_Suites_update (\<lambda>_. v))),
      (''level'', value_flag parse_int (\<lambda>n. op_Level_update (\<lambda>_. n))),
      (''category'', string_flag (\<lambda>v. op_Category_update (\<lambda>_. v))),
      (''test'', string_flag (\<lambda>v. op_Test_update (\<lambda>_. v))),
      (''output'', string_flag (\<lambda>v. op_Output_update (\<lambda>_. v))),
      (''verbose'', bool_flag (\<lambda>b. op_Verbose_update (\<lambda>_. b))),
      (''tolerance'', value_flag pf (\<lambda>x. op_Tolerance_update (\<lambda>_. x))),
      (''timeout'', value_flag parse_int (\<lambda>n. op_TimeoutSec_update (\<lambda>_. n))),
      (''redis'', string_flag (\<lambda>v. op_Redis_update (\<lambda>_. v))),
      (''report-file'', string_flag (\<lambda>v. op_ReportFile_update (\<lambda>_. v)))]"

definition http_flags :: "(string \<Rightarrow> f64 option) \<Rightarrow> http_options flag_set" where
  "http_flags pf = common_flags pf @ [(''reset-url'', string_flag (\<lambda>v. op_ResetURL_update (\<lambda>_. v)))]"

definition grpc_flags :: "(string \<Rightarrow> f64 option) \<Rightarrow> grpc_options flag_set" where
  "grpc_flags pf = common_flags pf
     @ [(''tls'', bool_flag (\<lambda>b. op_TLS_update (\<lambda>_. b))), (''insecure'', bool_flag (\<lambda>b. op_Insecure_update (\<lambda>_. b)))]"

definition flag_exit :: "flag_err \<Rightarrow> 'w \<Rightarrow> 'w exit" where
  "flag_exit e w =
     \<lparr>ex_Code = (if e = HelpRequested then 0 else 2), ex_Stdout = [], ex_Stderr = [FlagsRejected e], ex_World = w\<rparr>"

definition http_program ::
    "go_env \<Rightarrow> (int \<Rightarrow> 'w http_ops) \<Rightarrow> (TestCase \<Rightarrow> nat \<Rightarrow> nat list) \<Rightarrow> (unit fmsg, 'w) host \<Rightarrow> (string \<Rightarrow> f64 option)
       \<Rightarrow> string list \<Rightarrow> 'w \<Rightarrow> 'w exit option" where
  "http_program env client sched h pf args w =
     (case parse_flags (http_flags pf) args http_defaults of
        Inl e \<Rightarrow> Some (flag_exit e w)
      | Inr (op, _) \<Rightarrow> http_main env client sched h op w)"

definition grpc_program ::
    "go_env \<Rightarrow> 'w dialer \<Rightarrow> (TestCase \<Rightarrow> nat \<Rightarrow> nat list) \<Rightarrow> (grpc_msg, 'w) host \<Rightarrow> (string \<Rightarrow> f64 option)
       \<Rightarrow> string list \<Rightarrow> 'w \<Rightarrow> 'w exit option" where
  "grpc_program env dial sched h pf args w =
     (case parse_flags (grpc_flags pf) args grpc_defaults of
        Inl e \<Rightarrow> Some (flag_exit e w)
      | Inr (op, _) \<Rightarrow> grpc_main env dial sched h op w)"

subsection \<open>What the runs yield\<close>

lemma grpc_select_tests [simp]: "grpc_select_tests h op w = select_tests h op w"
  by (simp add: grpc_select_tests_def select_tests_def grpc_loadTests_def grpc_filterTests_def)

lemma run_tests_each:
  "run_tests reset run tcs w = Some (rs, w') \<Longrightarrow> list_all2 (\<lambda>tc r. \<exists>v. r = fst (run tc v)) tcs rs"
proof (induction tcs arbitrary: w rs)
  case (Cons tc tcs)
  then show ?case by (auto split: option.splits prod.splits) (metis fst_conv)
qed simp

lemma run_tests_total:
  assumes "\<And>v. reset v \<noteq> None"
  shows "run_tests reset run tcs w \<noteq> None"
proof (induction tcs arbitrary: w)
  case (Cons tc tcs)
  obtain v where "reset w = Some v" using assms by blast
  with Cons show ?case by (cases "run tc v") (auto split: option.splits)
qed simp

lemma runTest_result:
  "tr_TestID (fst (runTest R collect sched setup_msg elapsed tc w)) = tc_TestID tc
   \<and> tr_Status (fst (runTest R collect sched setup_msg elapsed tc w)) \<in> {''pass'', ''fail'', ''error''}"
  by (auto simp: runTest_def new_result_def split: prod.split option.split)

text \<open>A result that a run of its test may have.\<close>

definition result_of :: "TestCase \<Rightarrow> 'm TestResult \<Rightarrow> bool" where
  "result_of tc r \<longleftrightarrow> tr_TestID r = tc_TestID tc \<and> tr_Status r \<in> {''pass'', ''fail'', ''error''}"

lemma run_one_result:
  "result_of tc (fst (http_run_one env sched h op ops baseURL tc w))"
  "result_of tc (fst (grpc_run_one env gsched gh gop gops tc v))"
  unfolding result_of_def http_run_one_def grpc_run_one_def http_runTest_def grpc_runTest_def
  by (rule runTest_result)+

lemma run_tests_results:
  assumes "run_tests reset run tcs w = Some (rs, w')" "\<And>tc v. result_of tc (fst (run tc v))"
  shows "list_all2 result_of tcs rs"
  using run_tests_each [OF assms(1)] by (rule list_all2_mono) (use assms(2) in auto)

lemma results_ids: "list_all2 result_of tcs rs \<Longrightarrow> map tr_TestID rs = map tc_TestID tcs"
  by (induction rule: list_all2_induct) (auto simp: result_of_def)

lemma results_pass:
  "list_all2 result_of tcs rs \<Longrightarrow>
   list_all (\<lambda>r. tr_Status r \<notin> {''fail'', ''error''}) rs = list_all (\<lambda>r. tr_Status r = ''pass'') rs"
  by (induction rule: list_all2_induct) (auto simp: result_of_def)

lemma select_nonempty: "select_tests h op w = Inr tests \<Longrightarrow> tests \<noteq> []"
  by (auto simp: select_tests_def select_from_def Let_def split: prod.splits option.splits if_splits)

text \<open>The results of a session are those of the selected tests, in their order.\<close>

lemma http_session_results:
  assumes "http_session env client sched h op w = Some (Inr (start, results, w2))"
  shows "\<exists>tests. select_tests h op w = Inr tests \<and> list_all2 result_of tests results"
  using assms by (auto simp: http_session_def Let_def intro!: run_tests_results run_one_result
      split: sum.splits prod.splits option.splits)

lemma grpc_session_results:
  assumes "grpc_session env dial sched h op w = Some (Inr (start, results, w2))"
  shows "\<exists>tests v. select_tests h op v = Inr tests \<and> list_all2 result_of tests results"
  using assms by (auto simp: grpc_session_def Let_def intro!: run_tests_results run_one_result
      split: sum.splits prod.splits option.splits)

text \<open>Whether the report file can be written, when one is asked for.\<close>

definition written :: "('m, 'w) host \<Rightarrow> ('x) options_scheme \<Rightarrow> 'm SuiteReport \<Rightarrow> 'w \<Rightarrow> bool" where
  "written h op rep w \<longleftrightarrow> op_ReportFile op = [] \<or> fst (h_write h (op_ReportFile op) rep w) = None"

lemma finish_code: "ex_Code (finish h op table rep rs w) = (if \<not> written h op rep w then 2 else if rp_Conformant rep then 0 else 1)"
  by (auto simp: finish_def give_up_def written_def split: prod.split option.split)

lemma http_conformant:
  assumes "http_session env client sched h op w = Some (Inr (start, results, w2))"
  shows "rp_Conformant (http_buildReport pv results target lvl d) = list_all (\<lambda>r. tr_Status r = ''pass'') results"
proof -
  obtain tests where "list_all2 result_of tests results" using http_session_results [OF assms] by blast
  then show ?thesis using http_report_counts [of pv results target lvl d] results_pass by (simp add: Let_def)
qed

lemma http_exit_written:
  assumes "http_session env client sched h op w = Some (Inr (start, results, w2))" "\<And>rep v. written h op rep v"
  shows "map_option ex_Code (http_main env client sched h op w) =
       Some (if list_all (\<lambda>r. tr_Status r = ''pass'') results then 0 else 1)"
  using assms by (simp add: http_main_def Let_def finish_code http_conformant [OF assms(1)])

lemma http_exit:
  assumes "http_session env client sched h op w = Some (Inr (start, results, w2))" "op_ReportFile op = []"
  shows "map_option ex_Code (http_main env client sched h op w) =
       Some (if list_all (\<lambda>r. tr_Status r = ''pass'') results then 0 else 1)
    \<and> (\<exists>tests. select_tests h op w = Inr tests \<and> map tr_TestID results = map tc_TestID tests) \<and> results \<noteq> []"
proof -
  obtain tests where t: "select_tests h op w = Inr tests" "list_all2 result_of tests results"
    using http_session_results [OF assms(1)] by blast
  moreover have "written h op rep v" for rep v using assms(2) by (simp add: written_def)
  ultimately show ?thesis
    using http_exit_written [OF assms(1)] select_nonempty [OF t(1)] by (auto simp: results_ids)
qed

theorem http_exit_code:
  assumes "http_session env client sched h op w = Some (Inr (start, results, w2))" "op_ReportFile op = []"
  shows "map_option ex_Code (http_main env client sched h op w) =
       Some (if list_all (\<lambda>r. tr_Status r = ''pass'') results then 0 else 1)
    \<and> (\<exists>tests. select_tests h op w = Inr tests \<and> map tr_TestID results = map tc_TestID tests) \<and> results \<noteq> []"
  using assms by (rule http_exit)

text \<open>C10. A session of the gRPC program that reaches its end has one result for every selected test, in
  their order and at least one, and without a report file the program exits with 0 if all of them
  passed and with 1 otherwise.\<close>

theorem grpc_exit_code:
  assumes "grpc_session env dial sched h op w = Some (Inr (start, results, w2))" "op_ReportFile op = []"
  shows "map_option ex_Code (grpc_main env dial sched h op w) =
       Some (if list_all (\<lambda>r. tr_Status r = ''pass'') results then 0 else 1)
    \<and> (\<exists>tests v. select_tests h op v = Inr tests \<and> map tr_TestID results = map tc_TestID tests) \<and> results \<noteq> []"
proof -
  obtain tests v where t: "select_tests h op v = Inr tests" "list_all2 result_of tests results"
    using grpc_session_results [OF assms(1)] by blast
  then have ne: "results \<noteq> []" using select_nonempty [OF t(1)] by auto
  have "rp_Conformant (grpc_buildReport pv results target lvl d) = list_all (\<lambda>r. tr_Status r = ''pass'') results"
    for pv target lvl d
    using grpc_report_counted [of pv results target lvl d] ne by (simp add: Let_def)
  then show ?thesis using t ne assms by (auto simp: grpc_main_def Let_def finish_code written_def results_ids)
qed

subsection \<open>A suite that tests nothing\<close>

text \<open>
  A step that can be requested: its method and its URL are ones that \<open>http.NewRequest\<close> takes, whatever an
  earlier answer puts in the place of a template in its path; a \<open>WAIT\<close> makes no request.
\<close>

definition requestable :: "go_env \<Rightarrow> 'w http_ops \<Rightarrow> string \<Rightarrow> Step \<Rightarrow> bool" where
  "requestable env ops baseURL st \<longleftrightarrow>
     is_wait st \<or> (\<forall>m. http_new ops (st_Action st) (baseURL @ resolveTemplates env m (st_Path st)) = None)"

definition unasserted :: "go_env \<Rightarrow> 'w http_ops \<Rightarrow> string \<Rightarrow> TestCase \<Rightarrow> bool" where
  "unasserted env ops baseURL tc \<longleftrightarrow>
     (\<forall>st \<in> set (option_list (tc_Setup tc)) \<union> set (tc_Steps tc). no_assertions st \<and> requestable env ops baseURL st)"

text \<open>A client every request of which is answered.\<close>

definition answered :: "'w http_ops \<Rightarrow> bool" where
  "answered ops \<longleftrightarrow> (\<forall>r v. \<exists>resp b d v1. http_do ops r v = (Inr resp, d, v1) \<and> rs_Body resp = Inr b)"

lemma answered_law:
  assumes "answered ops"
  shows "message_law (http_runner env cfg ops baseURL) http_collectParallelGroup
    (\<lambda>st. no_assertions st \<and> requestable env ops baseURL st) (\<lambda>_. False)"
proof (unfold_locales, goal_cases)
  case (1 st m w out w')
  then show ?case
    by (auto simp: http_runner_def http_begin_def requestable_def messages_in_def Let_def split: if_splits)
next
  case (2 st req w out w')
  obtain resp b d v1 where "http_do ops req w = (Inr resp, d, v1)" "rs_Body resp = Inr b"
    using assms unfolding answered_def by blast
  with 2 show ?case by (simp add: http_runner_def http_send_def)
next
  case (3 st f sr m)
  then show ?case by (simp add: http_runner_def http_check_def no_assertions_def)
qed

lemma unasserted_passes:
  assumes "answered ops" "unasserted env ops baseURL tc"
  shows "tr_Status (fst (http_run_one env sched h op ops baseURL tc v)) = ''pass''"
proof -
  have "tr_Failures (fst (http_run_one env sched h op ops baseURL tc v)) = []"
    using message_law.runTest_in [OF answered_law [OF assms(1)], where tc = tc and setup_msg = MSetup] assms(2)
    by (simp add: http_run_one_def http_runTest_def unasserted_def)
  then show ?thesis
    by (auto simp: http_run_one_def http_runTest_def runTest_def new_result_def split: prod.splits option.splits)
qed

text \<open>C20. When no step of the selected tests and of their setups carries assertions, and http.NewRequest
  takes the method and the URL of each of them, whatever an earlier answer puts in the place of a
  template, the HTTP program exits with 0 against any server that answers every request, whatever
  it answers. A reset URL has to be one that http.NewRequest takes, a Redis server that is asked
  for has to be reachable, and a report file that is asked for has to be writable.\<close>

theorem unasserted_suite_is_conformant:
  assumes "ops = client (wrap64 (op_TimeoutSec op * 10 ^ 9))"
    "select_tests h op w = Inr tests" "\<forall>tc \<in> set tests. unasserted env ops (http_base h op) tc" "answered ops"
    "op_ResetURL op = [] \<or> http_new ops ''POST'' (op_ResetURL op) = None"
    "op_Redis op = [] \<or> fst (h_redis h (op_Redis op) w) = RedisReady"
    "op_ReportFile op = [] \<or> (\<forall>rep v. fst (h_write h (op_ReportFile op) rep v) = None)"
  shows "map_option ex_Code (http_main env client sched h op w) = Some 0"
proof -
  let ?run = "http_run_one env sched h op ops (http_base h op)"
  obtain redis w1 where redis: "open_redis h (op_Redis op) w = (Inr redis, w1)"
  proof (cases "op_Redis op = []")
    case True
    then show ?thesis using that [of False w] by (simp add: open_redis_def)
  next
    case False
    then show ?thesis using that assms(6) by (cases "h_redis h (op_Redis op) w") (simp add: open_redis_def)
  qed
  let ?reset = "\<lambda>w. http_reset ops (op_ResetURL op) (if redis then h_flush h w else w)"
  have "?reset v \<noteq> None" for v using assms(5) by (auto simp: http_reset_def)
  then obtain results w2 where r: "run_tests ?reset ?run tests w1 = Some (results, w2)"
    using run_tests_total [of ?reset ?run tests w1] by (metis not_None_eq prod.exhaust)
  have "tr_Status (fst (?run tc v)) = ''pass''" if "tc \<in> set tests" for tc v
    using assms(3,4) that by (intro unasserted_passes) auto
  with run_tests_each [OF r] have pass: "list_all (\<lambda>r. tr_Status r = ''pass'') results"
    by (auto simp: list_all2_conv_all_nth list_all_length)
  have s: "http_session env client sched h op w = Some (Inr (h_now h w1, results, w2))"
    using r by (simp add: http_session_def assms(1,2) redis Let_def)
  have "written h op rep v" for rep v using assms(7) by (auto simp: written_def)
  with http_exit_written [OF s] pass show ?thesis by simp
qed

subsection \<open>Runs of the programs\<close>

definition sample_host :: "('m, nat) host" where
  "sample_host = \<lparr>h_getenv = (\<lambda>_. []), h_tree = (\<lambda>_ _. FileNode (Some expect_suite)), h_sort = sort_key tc_TestID,
     h_now = int, h_redis = (\<lambda>_ w. (RedisReady, w)), h_flush = (\<lambda>w. w), h_provenance = (\<lambda>_. sample_provenance),
     h_write = (\<lambda>_ _ w. (None, w)), h_text = (\<lambda>_. [])\<rparr>"

definition sample_http_options :: http_options where
  "sample_http_options = http_defaults\<lparr>op_Suites := ''s.json''\<rparr>"

definition sample_grpc_options :: grpc_options where
  "sample_grpc_options = grpc_defaults\<lparr>op_Suites := ''s.json''\<rparr>"

definition sample_result :: "string \<Rightarrow> 'm Failure list \<Rightarrow> StepResult \<Rightarrow> 'm TestResult" where
  "sample_result st fs sr =
     \<lparr>tr_TestID = ''X'', tr_Name = [], tr_Level = 0, tr_Category = [], tr_SpecRef = [], tr_Status = st, tr_DurationMs = 0,
      tr_Failures = fs, tr_StepResults = [sr], tr_FilePath = ''s.json''\<rparr>"

theorem http_exit_code_witness:
  "map_option ex_Code (http_main sample_env (\<lambda>_. sample_ops) (\<lambda>_ _. []) sample_host sample_http_options 0) = Some 0"
proof -
  have "http_session sample_env (\<lambda>_. sample_ops) (\<lambda>_ _. []) sample_host sample_http_options 0 =
      Some (Inr (0, [sample_result ''pass'' []
        ((empty_result ''a'')\<lparr>sr_StatusCode := 204, sr_Headers := Some [], sr_Body := Some []\<rparr>)], 1))"
    by code_simp
  from http_exit_code [OF this] show ?thesis
    by (simp add: sample_http_options_def http_defaults_def sample_result_def)
qed

text \<open>The gRPC runner has no route for the step of the sample.\<close>

theorem grpc_exit_code_witness:
  "map_option ex_Code (grpc_main sample_env (\<lambda>_ _ w. (Inr (\<lambda>_. sample_grpc), w)) (\<lambda>_ _. []) sample_host sample_grpc_options 0) = Some 1"
proof -
  have "grpc_session sample_env (\<lambda>_ _ w. (Inr (\<lambda>_. sample_grpc), w)) (\<lambda>_ _. []) sample_host sample_grpc_options 0 =
      Some (Inr (0, [sample_result ''fail'' [failure ''a'' [] [] [] (MNoMethod ''GET'' ''/'')] (empty_result ''a'')], 0))"
    by code_simp
  from grpc_exit_code [OF this] show ?thesis
    by (simp add: sample_grpc_options_def grpc_defaults_def sample_result_def)
qed

text \<open>
  A server that answers every request with an internal error, behind a client that takes no method or URL
  with a space or a control character in it. The path of the sample step has no template.
\<close>

definition broken_ops :: "nat http_ops" where
  "broken_ops = \<lparr>http_sleep = (\<lambda>d w. w),
     http_new = (\<lambda>m u. if list_all (\<lambda>c. 32 < (of_char c :: nat)) (m @ u) then None else Some ''invalid''),
     http_do = (\<lambda>r w. (Inr \<lparr>rs_StatusCode = 500, rs_Header = [], rs_Body = Inr []\<rparr>, 0, w + 1))\<rparr>"

theorem unasserted_suite_is_conformant_witness:
  "map_option ex_Code (http_main sample_env (\<lambda>_. broken_ops) (\<lambda>_ _. []) sample_host
     (sample_http_options\<lparr>op_Redis := ''redis://r'', op_ReportFile := ''r.json'', op_ResetURL := ''http://h/reset''\<rparr>) 0) = Some 0"
proof (rule unasserted_suite_is_conformant)
  let ?op = "sample_http_options\<lparr>op_Redis := ''redis://r'', op_ReportFile := ''r.json'', op_ResetURL := ''http://h/reset''\<rparr>"
  show "select_tests sample_host ?op 0 = Inr [expect_case\<lparr>tc_FilePath := ''s.json''\<rparr>]" by code_simp
  have "http_base sample_host ?op = ''http://localhost:8080''" by code_simp
  then show "\<forall>tc \<in> set [expect_case\<lparr>tc_FilePath := ''s.json''\<rparr>]. unasserted sample_env broken_ops (http_base sample_host ?op) tc"
    by (simp add: unasserted_def requestable_def expect_case_def zero_case_def option_list_def zero_step_def no_assertions_def
        broken_ops_def template_at_def cutPrefix_def hasPrefix_def)
qed (simp_all add: broken_ops_def answered_def sample_host_def sample_http_options_def http_defaults_def)

subsection \<open>What exit code 0 means\<close>

lemma http_main_zero:
  assumes "http_main env client sched h op w = Some ex" "ex_Code ex = 0"
  shows "\<exists>tests start results w2. select_tests h op w = Inr tests \<and> tests \<noteq> []
    \<and> http_session env client sched h op w = Some (Inr (start, results, w2))
    \<and> map tr_TestID results = map tc_TestID tests \<and> list_all (\<lambda>r. tr_Status r = ''pass'') results"
proof (cases "http_session env client sched h op w")
  case (Some r)
  then obtain start results w2 where s: "http_session env client sched h op w = Some (Inr (start, results, w2))"
    using assms by (cases r) (auto simp: http_main_def give_up_def)
  obtain tests where t: "select_tests h op w = Inr tests" "list_all2 result_of tests results"
    using http_session_results [OF s] by blast
  have "list_all (\<lambda>r. tr_Status r = ''pass'') results"
    using assms http_report_counts [of "h_provenance h w2" results "http_base h op" "op_Level op" "h_now h w2 - start"] results_pass [OF t(2)]
    by (auto simp: http_main_def s Let_def finish_code split: if_splits)
  with s t select_nonempty [OF t(1)] results_ids [OF t(2)] show ?thesis by blast
qed (use assms in \<open>simp add: http_main_def\<close>)

text \<open>C9. Whatever its command line, the HTTP program exits with 0 only if help was asked for, or if at
  least one test was selected and every selected test ran and passed.\<close>

theorem exit_zero_means_passed:
  assumes "http_program env client sched h pf args w = Some ex" "ex_Code ex = 0"
  shows "parse_flags (http_flags pf) args http_defaults = Inl HelpRequested
    \<or> (\<exists>op rest tests start results w2. parse_flags (http_flags pf) args http_defaults = Inr (op, rest)
        \<and> select_tests h op w = Inr tests \<and> tests \<noteq> []
        \<and> http_session env client sched h op w = Some (Inr (start, results, w2))
        \<and> map tr_TestID results = map tc_TestID tests \<and> list_all (\<lambda>r. tr_Status r = ''pass'') results)"
proof (cases "parse_flags (http_flags pf) args http_defaults")
  case (Inl e)
  with assms show ?thesis by (auto simp: http_program_def flag_exit_def split: if_splits)
next
  case (Inr r)
  then obtain op rest where r: "parse_flags (http_flags pf) args http_defaults = Inr (op, rest)" by (cases r) auto
  with assms have "http_main env client sched h op w = Some ex" by (simp add: http_program_def)
  from http_main_zero [OF this assms(2)] r show ?thesis by blast
qed

lemma sample_args_parsed:
  "parse_flags (http_flags (\<lambda>_. None)) [''-suites'', ''s.json'', ''--verbose''] http_defaults
     = Inr (http_defaults\<lparr>op_Suites := ''s.json'', op_Verbose := True\<rparr>, [])"
  by code_simp

theorem exit_zero_means_passed_witness:
  "\<exists>results. list_all (\<lambda>r. tr_Status r = ''pass'') results \<and> length results = 1
     \<and> (\<exists>ex start w2. http_program sample_env (\<lambda>_. sample_ops) (\<lambda>_ _. []) sample_host (\<lambda>_. None) [''-suites'', ''s.json'', ''--verbose''] 0 = Some ex
         \<and> http_session sample_env (\<lambda>_. sample_ops) (\<lambda>_ _. []) sample_host (http_defaults\<lparr>op_Suites := ''s.json'', op_Verbose := True\<rparr>) 0
            = Some (Inr (start, results, w2)))"
proof -
  let ?op = "http_defaults\<lparr>op_Suites := ''s.json'', op_Verbose := True\<rparr>"
  have s: "http_session sample_env (\<lambda>_. sample_ops) (\<lambda>_ _. []) sample_host ?op 0 =
      Some (Inr (0, [sample_result ''pass'' []
        ((empty_result ''a'')\<lparr>sr_StatusCode := 204, sr_Headers := Some [], sr_Body := Some []\<rparr>)], 1))"
    by code_simp
  have "map_option ex_Code (http_main sample_env (\<lambda>_. sample_ops) (\<lambda>_ _. []) sample_host ?op 0) = Some 0"
    using http_exit [OF s] by (simp add: http_defaults_def sample_result_def)
  then obtain ex where ex: "http_program sample_env (\<lambda>_. sample_ops) (\<lambda>_ _. []) sample_host (\<lambda>_. None)
      [''-suites'', ''s.json'', ''--verbose''] 0 = Some ex" "ex_Code ex = 0"
    by (auto simp: http_program_def sample_args_parsed)
  from exit_zero_means_passed [OF ex] obtain tests start results w2 where
    "http_session sample_env (\<lambda>_. sample_ops) (\<lambda>_ _. []) sample_host ?op 0 = Some (Inr (start, results, w2))"
    "list_all (\<lambda>r. tr_Status r = ''pass'') results"
    by (auto simp: sample_args_parsed)
  with s ex show ?thesis by auto
qed

end
