(* ===== verification/Typing.thy ===== *)
theory Typing
  imports StepEval
begin

text \<open>
  The dynamic types of response data. What decoding a response stores into an \<open>any\<close> is a JSON
  value; looking up a path keeps that, and a JSON value always encodes. So the error of
  \<open>json.Marshal\<close> that \<open>resolveTemplates\<close> drops never occurs.
\<close>

text \<open>The values of JSON: no other dynamic type, and finite numbers only.\<close>

fun json_value :: "any \<Rightarrow> bool" where
  "json_value (AFloat x) = f64_finite x"
| "json_value (AArr xs) = (\<forall>x \<in> set xs. json_value x)"
| "json_value (AObj kvs) = (\<forall>(k, v) \<in> set kvs. json_value v)"
| "json_value (AFloat32 x) = False"
| "json_value (AInt k n) = False"
| "json_value (AJsonNumber s) = False"
| "json_value _ = True"

lemma decoded_json_value:
  "json_value (any_of_json j)"
  "\<forall>x \<in> set (anys_of_raws es). json_value x"
  "\<forall>(k, v) \<in> set (any_fields fs). json_value v"
  by (induction j and es and fs rule: any_of_json_anys_of_raws_any_fields.induct)
    (auto dest: parse_float_finite split: option.splits)

lemma unmarshal_json_value: "unmarshal_obj s = Some kvs \<Longrightarrow> json_value (AObj kvs)"
  using decoded_json_value(3) by (auto simp: unmarshal_obj_def split: option.splits json.splits)

subsection \<open>Paths\<close>

lemma as_object_value: "json_value v \<Longrightarrow> as_object v = Some kvs \<Longrightarrow> map_of kvs k = Some x \<Longrightarrow> json_value x"
  by (cases v) (auto dest: map_of_SomeD)

lemma as_array_value: "json_value v \<Longrightarrow> as_array v = Some xs \<Longrightarrow> x \<in> set xs \<Longrightarrow> json_value x"
  by (cases v) auto

lemma step_field_value: "json_value v \<Longrightarrow> step_field f v = Inr x \<Longrightarrow> json_value x"
  by (auto simp: step_field_def split: if_splits option.splits intro: as_object_value)

lemma filter_step_value: "json_value v \<Longrightarrow> filter_step p r v = Inr (x, r') \<Longrightarrow> json_value x"
  by (auto simp: filter_step_def Let_def split: option.splits intro: as_array_value simp: find_Some_iff)

definition walk_value :: "walk \<Rightarrow> bool" where
  "walk_value r \<longleftrightarrow>
     (case r of WErr e \<Rightarrow> True | WDone x \<Rightarrow> json_value x | WWild s xs \<Rightarrow> (\<forall>x \<in> set xs. json_value x))"

lemma walk_indices_value: "json_value v \<Longrightarrow> walk_value (walk_indices p r v)"
proof (induction p r v rule: walk_indices.induct)
  case (1 p v)
  then show ?case by (simp add: walk_value_def)
next
  case (2 p c s v)
  have arr: "json_value x" if "as_array v = Some xs" "x \<in> set xs" for x xs
    using as_array_value 2(2) that by blast
  note eq = walk_indices.simps(2) [of p c s v]
  show ?case
  proof (cases "c = CHR ''[''")
    case c: True
    show ?thesis
    proof (cases "strIndex (c # s) '']''")
      case None
      then show ?thesis by (simp only: eq c) (simp add: walk_value_def)
    next
      case i: (Some i)
      define ix where "ix = drop 1 (take i (c # s))"
      note eq' = eq [unfolded i Let_def option.case ix_def [symmetric]]
      show ?thesis
      proof (cases "ix = ''*'' \<or> atoi ix = None \<or> as_array v = None")
        case True
        then show ?thesis unfolding eq' using arr
          by (auto simp: c walk_value_def simp del: walk_indices.simps split: option.split)
      next
        case False
        then obtain n xs where t: "ix \<noteq> ''*''" "atoi ix = Some n" "as_array v = Some xs" by auto
        show ?thesis
        proof (cases "n < 0 \<or> int (length xs) \<le> n")
          case True
          then show ?thesis unfolding eq' by (simp add: c t walk_value_def del: walk_indices.simps)
        next
          case False
          then have "json_value (xs ! nat n)" using t(3) by (intro arr) auto
          with 2(1) [OF _ i refl refl _ _ t(3)] c t False show ?thesis
            unfolding eq' by (simp add: ix_def del: walk_indices.simps)
        qed
      qed
    qed
  qed (simp add: walk_value_def)
qed

lemma any_slice_value: "json_value (any_slice xs) \<longleftrightarrow> (\<forall>x \<in> set xs. json_value x)"
  by (simp add: any_slice_def)

lemma keep_values_value: "x \<in> set (keep_values rs) \<Longrightarrow> Inr x \<in> set rs"
  by (induction rs rule: keep_values.induct) (auto split: if_splits)

lemma resolve_parts_value: "json_value v \<Longrightarrow> resolve_parts ps v = Inr x \<Longrightarrow> json_value x"
proof (induction ps v arbitrary: x rule: resolve_parts.induct)
  case (2 p ps cur)
  note v = 2(7) and res = 2(8) [unfolded resolve_parts.simps(2)]
  show ?case
  proof (cases "p = []")
    case True
    from 2(1) [OF True v] res True show ?thesis by (simp del: resolve_parts.simps)
  next
    case p: False
    show ?thesis
    proof (cases "strIndex p ''[''")
      case None
      show ?thesis
      proof (cases "\<exists>obj y. as_object cur = Some obj \<and> map_of obj p = Some y")
        case True
        then obtain obj y where o: "as_object cur = Some obj" "map_of obj p = Some y" by blast
        have "json_value y" using v o by (rule as_object_value)
        from 2(2) [OF p None o this] res p None o show ?thesis by (simp del: resolve_parts.simps)
      next
        case False
        with res p None show ?thesis by (auto simp del: resolve_parts.simps split: option.splits)
      qed
    next
      case idx: (Some i)
      obtain cur1 where c1: "step_field (take i p) cur = Inr cur1"
        using res p idx by (auto simp del: resolve_parts.simps split: sum.splits)
      have v1: "json_value cur1" using v c1 by (rule step_field_value)
      show ?thesis
      proof (cases "hasPrefix (drop i p) ''[?(@.''")
        case True
        then obtain m r where f: "filter_step p (drop i p) cur1 = Inr (m, r)"
          using res p idx c1 by (auto simp del: resolve_parts.simps split: sum.splits)
        have m: "json_value m" using v1 f by (rule filter_step_value)
        show ?thesis
        proof (cases "m \<noteq> ANil \<and> hasPrefix r ''.''")
          case deep: True
          from 2(3) [OF p idx c1 True f refl deep m] res p idx c1 True f deep show ?thesis
            by (simp del: resolve_parts.simps)
        next
          case shallow: False
          from 2(4) [OF p idx c1 True f refl shallow m] res p idx c1 True f shallow show ?thesis
            by (simp del: resolve_parts.simps split: if_splits)
        qed
      next
        case False
        have w: "walk_value (walk_indices p (drop i p) cur1)" using v1 by (rule walk_indices_value)
        show ?thesis
        proof (cases "walk_indices p (drop i p) cur1")
          case (WErr e)
          then show ?thesis using res p idx c1 False by (simp del: resolve_parts.simps)
        next
          case (WDone y)
          then have "json_value y" using w by (simp add: walk_value_def)
          from 2(5) [OF p idx c1 False WDone this] res p idx c1 False WDone show ?thesis
            by (simp del: resolve_parts.simps)
        next
          case (WWild r xs)
          have xs: "\<forall>y \<in> set xs. json_value y" using w WWild by (simp add: walk_value_def)
          show ?thesis
          proof (cases "remaining_path r ps = []")
            case True
            with xs res p idx c1 False WWild show ?thesis by (auto simp: any_slice_value simp del: resolve_parts.simps)
          next
            case rem: False
            let ?f = "resolve_parts (path_parts (remaining_path r ps))"
            have "\<forall>y \<in> set (keep_values (map ?f xs)). json_value y"
              using 2(6) [OF p idx c1 False WWild rem] xs by (fastforce dest: keep_values_value)
            moreover have "x = any_slice (keep_values (map ?f xs))"
              using res p idx c1 False WWild rem by (simp del: resolve_parts.simps)
            ultimately show ?thesis by (simp add: any_slice_value)
          qed
        qed
      qed
    qed
  qed
qed simp

subsection \<open>Encoding\<close>

lemma json_float_finite: "f64_finite x \<Longrightarrow> json_float x \<noteq> None"
  by (cases x) auto

lemma marshal_json_value:
  "json_value v \<Longrightarrow> marshal v \<noteq> None"
  "\<forall>x \<in> set xs. json_value x \<Longrightarrow> marshal_list xs \<noteq> None"
  "\<forall>(k, x) \<in> set kvs. json_value x \<Longrightarrow> marshal_kvs kvs \<noteq> None"
  by (induction v and xs and kvs rule: marshal_marshal_list_marshal_kvs.induct)
    (auto dest: json_float_finite)

text \<open>C25. What a path selects in a decoded response is always a value of JSON: none of the other dynamic
  types that the matchers test for occurs there, its numbers are finite, and encoding it, as
  templates do, cannot fail.\<close>

theorem resolved_values_are_json:
  assumes "unmarshal_obj body = Some kvs" "ResolveJSONPath path (AObj kvs) = Inr v"
  shows "json_value v \<and> (\<exists>t. marshal v = Some t)"
proof -
  have "json_value v"
    using unmarshal_json_value [OF assms(1)] assms(2) by (auto simp only: ResolveJSONPath_def intro: resolve_parts_value)
  then show ?thesis using marshal_json_value(1) by blast
qed

theorem resolved_values_are_json_witness:
  \<open>case unmarshal_obj ''{"jobs":[{"id":"a"},{"id":"b"}]}'' of None \<Rightarrow> False
    | Some kvs \<Rightarrow> (case ResolveJSONPath ''jobs[*].id'' (AObj kvs) of Inl e \<Rightarrow> False | Inr v \<Rightarrow> json_value v \<and> (\<exists>t. marshal v = Some t))\<close>
proof -
  have u: \<open>unmarshal_obj ''{"jobs":[{"id":"a"},{"id":"b"}]}'' =
      Some [(''jobs'', AArr [AObj [(''id'', AStr ''a'')], AObj [(''id'', AStr ''b'')]])]\<close> by code_simp
  have r: "ResolveJSONPath ''jobs[*].id'' (AObj [(''jobs'', AArr [AObj [(''id'', AStr ''a'')], AObj [(''id'', AStr ''b'')]])]) =
      Inr (AArr [AStr ''a'', AStr ''b''])" by code_simp
  show ?thesis using resolved_values_are_json [OF u r] by (simp add: u r)
qed

end
