(* ===== verification/Spec2Isabelle.thy ===== *)
theory Spec2Isabelle
  imports Matcher_Facts JsonPath Timing Schema StepEval GrpcEval Scheduler HttpRunner GrpcRunner Report
    GrpcClient_Facts PortalServer DapServe_Facts Adapter Programs Typing
begin

text \<open>
  Verification of the OJS conformance suite: the program that runs JSON test cases against an
  OpenJobSpec server over HTTP (src/runner/http) or gRPC (src/runner/grpc) and reports the
  conformance level the server reaches. Both runners share the library src/lib. Beside them
  stand the certification portal with its badges (src/badge) and a debug adapter for traces of
  job executions (src/cmd/exec-history-dap).

  \<^bold>\<open>How the parts interact.\<close> A test case (src/lib/schema.go) is a list of steps with optional
  setup and teardown. The runner executes the steps one after the other, except that steps
  linked by \<open>parallel_with\<close> run as a group of goroutines. Executing a step resolves template
  references to the responses of earlier steps, sends one request and evaluates the step's
  assertions: status formats, JSON paths into the body with matchers for the values there,
  headers and timing. Failures give the status of the test, and the statuses of all tests
  the report. The portal keeps a store of certificates, which its handlers read and which the
  results of a run update. The debug adapter replays a trace as a list of protocol events, or
  serves the requests of an editor that steps through it.

  \<^bold>\<open>Theories.\<close>
  \<^item> \<open>Prelude\<close>: Go's string functions, decimal numbers and \<open>strconv.Atoi\<close>.
  \<^item> \<open>Go_Float\<close>: float64 as exact rationals with signed zero, infinities and NaN, rounding to
    nearest even, and the arithmetic the code uses.
  \<^item> \<open>Go_Json\<close>: encoding/json (scanner, parser, decoding into the types of the code, encoder)
    and the verb \<open>%v\<close> of package fmt.
  \<^item> \<open>Matchers\<close>, \<open>Matcher_Facts\<close>: \<open>MatchAssertion\<close> and its helpers, src/lib/assertions.go, and
    their properties. A matcher is a \<open>rawmsg\<close> (a JSON text with its tree), a value an \<open>any\<close>.
  \<^item> \<open>JsonPath\<close>: \<open>ResolveJSONPath\<close> and \<open>splitJSONPath\<close> of the same file.
  \<^item> \<open>Timing\<close>: src/lib/timing.go, with the polling loop as a partial function over a clock.
  \<^item> \<open>Schema\<close>: the types of src/lib/schema.go as records with their methods.
  \<^item> \<open>StepEval\<close>: templates and assertions of a step (\<open>resolveTemplates\<close>,
    \<open>evaluateStatusAssertion\<close>, \<open>evaluateAssertions\<close>) in src/runner/http/runner.go.
  \<^item> \<open>GrpcEval\<close>: the copies of these functions in src/runner/grpc (runner.go, assertions.go) and the
    status codes, translated on their own, with the comparison of the two.
  \<^item> \<open>Runner\<close>: \<open>runTest\<close>, \<open>executeStepsWithParallel\<close> and \<open>filterTests\<close>, parameterised by the
    three phases of a step; a parallel group is a list of goroutines whose moves an arbitrary
    schedule interleaves. \<open>Scheduler\<close> states the contracts of the phases and of
    \<open>collectParallelGroup\<close> as the locales \<open>step_runner\<close> and \<open>scheduler\<close>, and proves there what
    holds of any runner that meets them.
  \<^item> \<open>HttpRunner\<close>, \<open>GrpcRunner\<close>: the two runners, which interpret these locales; the gRPC
    runner with the route and status tables of adapter.go.
  \<^item> \<open>Go_Time\<close>: instants, their RFC 3339 texts, and \<open>ParseDuration\<close>.
  \<^item> \<open>GrpcMessages\<close>, \<open>GrpcClient\<close>, \<open>GrpcClient_Facts\<close>: the gRPC client. Messages are records with
    the fields that the code uses; the service is a record of functions on a world.
  \<^item> \<open>Report\<close>: the two \<open>buildReport\<close> functions, the provenance of the report as an argument.
  \<^item> \<open>Loading\<close>: how a JSON file fills the structs of the schema, and \<open>loadTests\<close> over a tree of
    files; the sorting of the tests is a locale \<open>id_sort\<close>, which any sorting permutation meets.
  \<^item> \<open>Unchecked\<close>: what holds of tests without assertions, from a law on the messages of
    failures, the locale \<open>message_law\<close>, that both runners interpret.
  \<^item> \<open>Output\<close>: the table and the JSON document of a report, byte by byte.
  \<^item> \<open>Programs\<close>: \<open>main\<close> of both runners, from the command line to the exit code. The surroundings
    of a program (files, Redis, clock, report file) are the record \<open>host\<close>. \<open>Go_Flag\<close> is package flag.
  \<^item> \<open>Typing\<close>: the dynamic types of the values that a decoded response can hold.
  \<^item> \<open>Sha256\<close>: the digest of crypto/sha256 on machine words.
  \<^item> \<open>Portal\<close>, \<open>Portal_Facts\<close>: the certificate store, the handlers and the badges of src/badge;
    the store is the map from ids to certificates, with its laws as the locale \<open>id_store\<close>.
  \<^item> \<open>Go_Mux\<close>, \<open>PortalServer\<close>: the multiplexer of net/http, the routes of the portal, what a
    request does to the store, and the program of src/cmd/portal.
  \<^item> \<open>Dap\<close>, \<open>Dap_Facts\<close>: framing and readers of the debug protocol and the emitter, main.go of
    the debug adapter. The output is the list of the messages written. Thread ids are handed
    out by an \<open>id_allocator\<close>, a locale that the emitter and the server interpret.
  \<^item> \<open>DapServe\<close>, \<open>DapServe_Facts\<close>: the server of serve.go. \<open>handle\<close> maps a request and the
    state to whether the loop goes on, and the state; \<open>Run\<close> reads the requests from the stream.
  \<^item> \<open>Json_Roundtrip\<close>, \<open>Dap_Wire\<close>: the parser reads what the encoder writes; from there, a reader
    of the emitter's output gets its messages.
  \<^item> \<open>Adapter\<close>: the program of src/cmd/exec-history-dap with its commands and flags.

  \<^bold>\<open>What the lemmas show.\<close> Matchers: literal documents are accepted exactly
  by the values that conform to them, where the agreement of numbers is stated over the rationals, verdicts do not depend on Go's map order, the numeric
  matchers are exact where float64 is, and each matcher form has its specification. Paths:
  resolution is field look-up with chains of indices within bounds, selection by filter, collection by
  wildcard. Timing: the tolerances in exact integers, and polling returns. Runners: every step
  runs exactly once and in order under stated conditions, the counterexamples without them,
  every failure names an executed step, the verdict of a test follows from its failures, a failed
  setup step ends a test, references in any text are replaced by what they stand for, and the two
  copies of the evaluation report the same failures but for headers.
  Reports: the counts, the verdict, and the meaning of the conformance level in both runners,
  which differ. Programs: which tests are loaded and run, what the exit code means for any command
  line, when the JSON output is lost, and that tests without assertions pass on any answer to requests that can be made. Typing:
  values selected from a response are JSON values and encode. gRPC client: the options of a
  request are a table of look-ups, the status of every call, the durations that get lost, and
  what the map of a job tells. Portal: every
  certificate the store ever holds is consistent, the thresholds of the levels are exact, and
  the life of a certificate from request to verification, that only one route writes to the store,
  and that no route ever files results. Debug adapter: frames are read back, a
  truncated stream is no message, the emitter refines a pure function of the spans and its output
  is read back message for message, also what it leaves when the replay fails; the server program
  answers the bytes of an editor's requests; the server
  answers every request once, steps through the trace span by span, keeps the meaning of its
  references, and serves a byte stream as the messages in it.

  \<^bold>\<open>Bounds and fuel.\<close> The JSON parser has a depth counter, the nesting limit 10000 of
  encoding/json, and takes the length of its input as fuel, enough since every call consumes a
  character. All other recursions have termination proofs; the polling loop is a partial
  function, and a property shows that it returns.

  \<^bold>\<open>Parameters.\<close> Regular expressions of the tests (\<open>re_compile\<close>), the order in which Go ranges
  over a map (\<open>map_iter\<close>, any permutation), the conversion of an out-of-range float to int64
  (\<open>conv_oob\<close>), the HTTP client and the gRPC service (functions on a world), the conversions of
  package structpb and the enum tables of the generated code, the clock, and the spans
  that \<open>lib.Replay\<close> delivers, which the code uses but does not define, as \<open>lib.WriteReportFile\<close>
  and the functions that capture the provenance of a report; how the debug server and a trace read
  from the standard input divide that stream (\<open>ah_share\<close>).

  \<^bold>\<open>Not modelled.\<close> The conversion of the floating-point flag (strconv.ParseFloat, a parameter), the
  sockets, signals and timeouts of the portal, that a second launch finds nothing left of a trace on
  the standard input, logging formats and the texts of error messages, of which the data is
  kept. The test suites are data of the runners.
\<close>

end
